theory Spec2Isabelle
  imports Main "HOL-Library.Word"
begin

section \<open>C strings and memory blocks\<close>

text \<open>
  A memory block is the list of its bytes. A pointer into a block is an index.
  Reading outside the block is a fault, which every function of this section
  reports as \<open>None\<close>. A C string is a block whose last byte is the terminator.
\<close>

type_synonym cbuf = "char list"

abbreviation NUL :: char where
  "NUL \<equiv> CHR 0x00"

definition rd :: "cbuf \<Rightarrow> nat \<Rightarrow> char option" where
  "rd buf i = (if i < length buf then Some (buf ! i) else None)"

definition c_string :: "string \<Rightarrow> cbuf" where
  "c_string s = s @ [NUL]"

definition nul_terminated :: "cbuf \<Rightarrow> bool" where
  "nul_terminated buf = (buf \<noteq> [] \<and> last buf = NUL)"

text \<open>The string a pointer designates: the bytes up to the first terminator.\<close>

definition str_at :: "cbuf \<Rightarrow> nat \<Rightarrow> string" where
  "str_at buf s = takeWhile (\<lambda>c. c \<noteq> NUL) (drop s buf)"

text \<open>\<open>isspace\<close> of the C locale: space, \<open>\t\<close>, \<open>\n\<close>, \<open>\v\<close>, \<open>\f\<close>, \<open>\r\<close>.\<close>

definition isspace :: "char \<Rightarrow> bool" where
  "isspace c = (c = CHR '' '' \<or> c = CHR 0x09 \<or> c = CHR 0x0A \<or> c = CHR 0x0B
                \<or> c = CHR 0x0C \<or> c = CHR 0x0D)"

section \<open>The message-id parser (add-message.cc, lines 11 to 142)\<close>

subsection \<open>skip_space_and_comments\<close>

text \<open>The inner loop \<^verbatim>\<open>while (*s && isspace (*s)) s++;\<close>\<close>

function skip_spaces :: "cbuf \<Rightarrow> nat \<Rightarrow> nat option" where
  "skip_spaces buf s =
     (case rd buf s of
        None \<Rightarrow> None
      | Some c \<Rightarrow> if c \<noteq> NUL \<and> isspace c then skip_spaces buf (s + 1) else Some s)"
  by pat_completeness auto
termination
  by (relation "measure (\<lambda>(buf, s). length buf - s)") (auto simp: rd_def split: if_splits)

text \<open>
  The comment loop \<^verbatim>\<open>while (*s && nesting) { ... s++; }\<close>. The counter is a C
  \<^verbatim>\<open>int\<close>; it is a 32-bit word here, whose increment wraps.
\<close>

function skip_comment :: "cbuf \<Rightarrow> nat \<Rightarrow> 32 word \<Rightarrow> nat option" where
  "skip_comment buf s nesting =
     (case rd buf s of
        None \<Rightarrow> None
      | Some c \<Rightarrow>
          if c \<noteq> NUL \<and> nesting \<noteq> 0 then
            (if c = CHR ''('' then skip_comment buf (s + 1) (nesting + 1)
             else if c = CHR '')'' then skip_comment buf (s + 1) (nesting - 1)
             else if c = CHR 0x5C then
               (case rd buf (s + 1) of
                  None \<Rightarrow> None
                | Some d \<Rightarrow> if d \<noteq> NUL then skip_comment buf (s + 2) nesting
                            else skip_comment buf (s + 1) nesting)
             else skip_comment buf (s + 1) nesting)
          else Some s)"
  by pat_completeness auto
termination
  by (relation "measure (\<lambda>(buf, s, n). length buf - s)") (auto simp: rd_def split: if_splits)

declare skip_spaces.simps [simp del] skip_comment.simps [simp del]

lemma skip_spaces_mono: "skip_spaces buf s = Some s' \<Longrightarrow> s \<le> s'"
proof (induction buf s rule: skip_spaces.induct)
  case (1 buf s)
  note unf = skip_spaces.simps [of buf s]
  show ?case
  proof (cases "rd buf s")
    case None
    with "1.prems" show ?thesis by (simp add: unf)
  next
    case (Some c)
    show ?thesis
    proof (cases "c \<noteq> NUL \<and> isspace c")
      case True
      with Some "1.prems" have "skip_spaces buf (s + 1) = Some s'" by (simp add: unf)
      with "1.IH" [OF Some True] show ?thesis by (simp add: unf)
    next
      case False
      with Some "1.prems" show ?thesis by (auto simp: unf)
    qed
  qed
qed

lemma skip_spaces_advance:
  "skip_spaces buf s = Some s' \<Longrightarrow> rd buf s = Some c \<Longrightarrow> c \<noteq> NUL \<Longrightarrow> isspace c \<Longrightarrow> s < s'"
  using skip_spaces_mono [of buf "s + 1" s'] by (simp add: skip_spaces.simps [of buf s])

lemma skip_spaces_stay:
  "skip_spaces buf s = Some s' \<Longrightarrow> rd buf s = Some c \<Longrightarrow> \<not> isspace c \<Longrightarrow> s' = s"
  by (simp add: skip_spaces.simps [of buf s])

lemma skip_comment_mono: "skip_comment buf s n = Some s' \<Longrightarrow> s \<le> s'"
proof (induction buf s n rule: skip_comment.induct)
  case (1 buf s nesting)
  note unf = skip_comment.simps [of buf s nesting]
  show ?case
  proof (cases "rd buf s")
    case None
    with "1.prems" show ?thesis by (simp add: unf)
  next
    case (Some c)
    show ?thesis
    proof (cases "c \<noteq> NUL \<and> nesting \<noteq> 0")
      case False
      with Some "1.prems" show ?thesis by (auto simp: unf)
    next
      case True
      note go = this
      consider (op) "c = CHR ''(''" | (cl) "c \<noteq> CHR ''(''" "c = CHR '')''"
        | (bs) "c \<noteq> CHR ''(''" "c \<noteq> CHR '')''" "c = CHR 0x5C"
        | (other) "c \<noteq> CHR ''(''" "c \<noteq> CHR '')''" "c \<noteq> CHR 0x5C"
        by blast
      then show ?thesis
      proof cases
        case op
        with Some go "1.prems" have "skip_comment buf (s + 1) (nesting + 1) = Some s'" by (simp add: unf)
        with "1.IH"(1) [OF Some go op] show ?thesis by (simp add: unf)
      next
        case cl
        with Some go "1.prems" have "skip_comment buf (s + 1) (nesting - 1) = Some s'" by (simp add: unf)
        with "1.IH"(2) [OF Some go cl] show ?thesis by (simp add: unf)
      next
        case bs
        show ?thesis
        proof (cases "rd buf (s + 1)")
          case None
          with Some go bs "1.prems" show ?thesis by (simp add: unf)
        next
          case (Some d)
          note d = this
          show ?thesis
          proof (cases "d \<noteq> NUL")
            case True
            with \<open>rd buf s = Some c\<close> go bs d "1.prems"
            have "skip_comment buf (s + 2) nesting = Some s'" by (simp add: unf)
            with "1.IH"(3) [OF \<open>rd buf s = Some c\<close> go bs d True] show ?thesis by (simp add: unf)
          next
            case False
            with \<open>rd buf s = Some c\<close> go bs d "1.prems"
            have "skip_comment buf (s + 1) nesting = Some s'" by (simp add: unf)
            with "1.IH"(4) [OF \<open>rd buf s = Some c\<close> go bs d False] show ?thesis by (simp add: unf)
          qed
        qed
      next
        case other
        with Some go "1.prems" have "skip_comment buf (s + 1) nesting = Some s'" by (simp add: unf)
        with "1.IH"(5) [OF Some go other] show ?thesis by (simp add: unf)
      qed
    qed
  qed
qed

text \<open>The outer loop \<^verbatim>\<open>while (*s && (isspace (*s) || *s == '(')) { ... }\<close>\<close>

function skip_space_and_comments :: "cbuf \<Rightarrow> nat \<Rightarrow> nat option" where
  "skip_space_and_comments buf s =
     (case rd buf s of
        None \<Rightarrow> None
      | Some c \<Rightarrow>
          if c \<noteq> NUL \<and> (isspace c \<or> c = CHR ''('') then
            (case skip_spaces buf s of
               None \<Rightarrow> None
             | Some s1 \<Rightarrow>
                 (case rd buf s1 of
                    None \<Rightarrow> None
                  | Some c1 \<Rightarrow>
                      if c1 = CHR ''('' then
                        (case skip_comment buf (s1 + 1) 1 of
                           None \<Rightarrow> None
                         | Some s2 \<Rightarrow> skip_space_and_comments buf s2)
                      else skip_space_and_comments buf s1))
          else Some s)"
  by pat_completeness auto
termination
proof (relation "measure (\<lambda>(buf, s). length buf - s)")
  show "wf (measure (\<lambda>(buf, s). length buf - s))" by simp
next
  fix buf s c s1 c1 s2
  assume a: "rd buf s = Some c" "c \<noteq> NUL \<and> (isspace c \<or> c = CHR ''('')"
    "skip_spaces buf s = Some s1" "rd buf s1 = Some c1" "c1 = CHR ''(''"
    "skip_comment buf (s1 + 1) 1 = Some s2"
  from a(3) have "s \<le> s1" by (rule skip_spaces_mono)
  moreover from a(6) have "s1 + 1 \<le> s2" by (rule skip_comment_mono)
  moreover from a(1) have "s < length buf" by (simp add: rd_def split: if_splits)
  ultimately show "((buf, s2), (buf, s)) \<in> measure (\<lambda>(buf, s). length buf - s)" by simp
next
  fix buf s c s1 c1
  assume a: "rd buf s = Some c" "c \<noteq> NUL \<and> (isspace c \<or> c = CHR ''('')"
    "skip_spaces buf s = Some s1" "rd buf s1 = Some c1" "c1 \<noteq> CHR ''(''"
  have "s < s1"
  proof (cases "isspace c")
    case True
    from skip_spaces_advance [OF a(3) a(1) _ True] a(2) show ?thesis by simp
  next
    case False
    from skip_spaces_stay [OF a(3) a(1) False] a(1,2,4,5) False show ?thesis by simp
  qed
  moreover from a(1) have "s < length buf" by (simp add: rd_def split: if_splits)
  ultimately show "((buf, s1), (buf, s)) \<in> measure (\<lambda>(buf, s). length buf - s)" by simp
qed


declare skip_space_and_comments.simps [simp del]

subsection \<open>parse_message_id\<close>

text \<open>
  The two scanning loops of \<^verbatim>\<open>_parse_message_id\<close>,
  \<^verbatim>\<open>while (*s && *s != '<') s++;\<close> and \<^verbatim>\<open>while (*end && *end != '>') end++;\<close>,
  are one function of the character that stops them.
\<close>

function scan_to :: "char \<Rightarrow> cbuf \<Rightarrow> nat \<Rightarrow> nat option" where
  "scan_to stop buf s =
     (case rd buf s of
        None \<Rightarrow> None
      | Some c \<Rightarrow> if c \<noteq> NUL \<and> c \<noteq> stop then scan_to stop buf (s + 1) else Some s)"
  by pat_completeness auto
termination
  by (relation "measure (\<lambda>(stop, buf, s). length buf - s)") (auto simp: rd_def split: if_splits)

declare scan_to.simps [simp del]

text \<open>
  \<^verbatim>\<open>talloc_strndup (ctx, s, n)\<close> copies at most \<open>n\<close> bytes, stopping at a terminator,
  into a fresh block that it terminates. It reads outside the source block when the
  block ends before either happens. Allocation is assumed to succeed.
\<close>

definition talloc_strndup :: "cbuf \<Rightarrow> nat \<Rightarrow> nat \<Rightarrow> cbuf option" where
  "talloc_strndup buf s n =
     (let src = take n (drop s buf)
      in if NUL \<in> set src \<or> length src = n
         then Some (takeWhile (\<lambda>c. c \<noteq> NUL) src @ [NUL])
         else None)"

text \<open>
  \<^verbatim>\<open>memmove (dst, src, n)\<close> within one block, with the count \<open>n\<close> a \<^verbatim>\<open>size_t\<close>. A count
  that leaves the block from either pointer is a fault.
\<close>

definition memmove :: "cbuf \<Rightarrow> nat \<Rightarrow> nat \<Rightarrow> nat \<Rightarrow> cbuf option" where
  "memmove buf dst src n =
     (if src + n \<le> length buf \<and> dst + n \<le> length buf
      then Some (take dst buf @ take n (drop src buf) @ drop (dst + n) buf)
      else None)"

text \<open>
  The conversions of the loop below. \<^verbatim>\<open>len = strlen (r)\<close> stores a \<^verbatim>\<open>size_t\<close> in an
  \<^verbatim>\<open>int\<close>, which keeps its low 32 bits; \<^verbatim>\<open>memmove (r, r+1, len)\<close> passes the \<^verbatim>\<open>int\<close> as a
  \<^verbatim>\<open>size_t\<close> of 64 bits, which is its signed value modulo \<open>2 ^ 64\<close>.
\<close>

definition int_of_size_t :: "nat \<Rightarrow> 32 word" where
  "int_of_size_t n = of_nat n"

definition size_t_of_int :: "32 word \<Rightarrow> nat" where
  "size_t_of_int i = nat (sint i mod 2 ^ 64)"

lemma length_memmove: "memmove buf dst src n = Some buf' \<Longrightarrow> length buf' = length buf"
  by (auto simp: memmove_def split: if_splits)

text \<open>
  The whitespace loop at the end of \<^verbatim>\<open>_parse_message_id\<close>:
  \<^verbatim>\<open>for (r = result, len = strlen (r); *r; r++, len--)
      if (*r == ' ' || *r == '\t') memmove (r, r+1, len);\<close>
  The counter \<^verbatim>\<open>len\<close> is a C \<^verbatim>\<open>int\<close>: a 32-bit word, whose decrement wraps.
\<close>

function collapse_loop :: "cbuf \<Rightarrow> nat \<Rightarrow> 32 word \<Rightarrow> cbuf option" where
  "collapse_loop buf r len =
     (case rd buf r of
        None \<Rightarrow> None
      | Some c \<Rightarrow>
          if c \<noteq> NUL then
            (if c = CHR '' '' \<or> c = CHR 0x09 then
               (case memmove buf r (r + 1) (size_t_of_int len) of
                  None \<Rightarrow> None
                | Some buf' \<Rightarrow> collapse_loop buf' (r + 1) (len - 1))
             else collapse_loop buf (r + 1) (len - 1))
          else Some buf)"
  by pat_completeness auto
termination
  by (relation "measure (\<lambda>(buf, r, len). length buf - r)")
    (auto simp: rd_def dest: length_memmove split: if_splits)

declare collapse_loop.simps [simp del]

text \<open>
  \<^verbatim>\<open>_parse_message_id (ctx, message_id, &next)\<close> for a non-null \<open>message_id\<close>
  pointing into \<open>buf\<close>. The result pairs the returned string (\<open>None\<close> for the null
  pointer) with the value of \<^verbatim>\<open>*next\<close> on return; where the source leaves
  \<^verbatim>\<open>*next\<close> unassigned (its first return) the pair holds \<open>message_id\<close>, which is what
  the only caller that passes \<open>next\<close> had stored there.
\<close>

definition parse_message_id :: "cbuf \<Rightarrow> nat \<Rightarrow> (string option \<times> nat) option" where
  "parse_message_id buf message_id =
     (case rd buf message_id of
        None \<Rightarrow> None
      | Some c0 \<Rightarrow>
          if c0 = NUL then Some (None, message_id)
          else
            (case skip_space_and_comments buf message_id of
               None \<Rightarrow> None
             | Some s0 \<Rightarrow>
            (case scan_to (CHR ''<'') buf s0 of
               None \<Rightarrow> None
             | Some s1 \<Rightarrow>
            (case rd buf s1 of
               None \<Rightarrow> None
             | Some c1 \<Rightarrow>
                 if c1 \<noteq> CHR ''<'' then Some (None, s1)
                 else
            (case skip_space_and_comments buf (s1 + 1) of
               None \<Rightarrow> None
             | Some s \<Rightarrow>
            (case scan_to (CHR ''>'') buf s of
               None \<Rightarrow> None
             | Some e \<Rightarrow>
            (case rd buf e of
               None \<Rightarrow> None
             | Some ce \<Rightarrow>
                 let nxt = (if ce \<noteq> NUL then e + 1 else e);
                     endp = (if s < e \<and> ce = CHR ''>'' then e - 1 else e)
                 in if endp \<le> s then Some (None, nxt)
                    else
            (case talloc_strndup buf s (endp - s + 1) of
               None \<Rightarrow> None
             | Some result \<Rightarrow>
            (case collapse_loop result 0 (int_of_size_t (length (str_at result 0))) of
               None \<Rightarrow> None
             | Some result' \<Rightarrow> Some (Some (str_at result' 0), nxt))))))))))"


lemma nul_terminated_step:
  "nul_terminated buf \<Longrightarrow> rd buf s = Some c \<Longrightarrow> c \<noteq> NUL \<Longrightarrow> s + 1 < length buf"
proof -
  assume a: "nul_terminated buf" "rd buf s = Some c" "c \<noteq> NUL"
  from a(2) have s: "s < length buf" "buf ! s = c" by (auto simp: rd_def split: if_splits)
  from a(1) have "buf ! (length buf - 1) = NUL" by (auto simp: nul_terminated_def last_conv_nth)
  with s a(3) have "s \<noteq> length buf - 1" by auto
  with s show ?thesis by simp
qed

lemma rd_in: "s < length buf \<Longrightarrow> \<exists>c. rd buf s = Some c"
  by (simp add: rd_def)

lemma skip_spaces_safe:
  "nul_terminated buf \<Longrightarrow> s < length buf \<Longrightarrow> \<exists>s'. skip_spaces buf s = Some s' \<and> s' < length buf"
proof (induction buf s rule: skip_spaces.induct)
  case (1 buf s)
  note unf = skip_spaces.simps [of buf s]
  from "1.prems"(2) obtain c where c: "rd buf s = Some c" using rd_in by blast
  show ?case
  proof (cases "c \<noteq> NUL \<and> isspace c")
    case True
    with nul_terminated_step [OF "1.prems"(1) c] have "s + 1 < length buf" by (simp add: unf)
    from "1.IH" [OF c True "1.prems"(1) this] c True show ?thesis by (simp add: unf)
  next
    case False
    with c "1.prems"(2) show ?thesis by (auto simp: unf)
  qed
qed

lemma skip_comment_safe:
  "nul_terminated buf \<Longrightarrow> s < length buf \<Longrightarrow>
     \<exists>s'. skip_comment buf s n = Some s' \<and> s' < length buf"
proof (induction buf s n rule: skip_comment.induct)
  case (1 buf s nesting)
  note unf = skip_comment.simps [of buf s nesting]
  note nt = "1.prems"(1)
  from "1.prems"(2) obtain c where c: "rd buf s = Some c" using rd_in by blast
  show ?case
  proof (cases "c \<noteq> NUL \<and> nesting \<noteq> 0")
    case False
    with c "1.prems"(2) show ?thesis by (auto simp: unf)
  next
    case True
    note go = this
    with nul_terminated_step [OF nt c] have s1: "s + 1 < length buf" by (simp add: unf)
    consider (op) "c = CHR ''(''" | (cl) "c \<noteq> CHR ''(''" "c = CHR '')''"
      | (bs) "c \<noteq> CHR ''(''" "c \<noteq> CHR '')''" "c = CHR 0x5C"
      | (other) "c \<noteq> CHR ''(''" "c \<noteq> CHR '')''" "c \<noteq> CHR 0x5C"
      by blast
    then show ?thesis
    proof cases
      case op
      from "1.IH"(1) [OF c go op nt s1] c go op show ?thesis by (simp add: unf)
    next
      case cl
      from "1.IH"(2) [OF c go cl nt s1] c go cl show ?thesis by (simp add: unf)
    next
      case bs
      from s1 obtain d where d: "rd buf (s + 1) = Some d" using rd_in by blast
      show ?thesis
      proof (cases "d \<noteq> NUL")
        case True
        from nul_terminated_step [OF nt d True] have "s + 2 < length buf" by (simp add: unf)
        from "1.IH"(3) [OF c go bs d True nt this] c go bs d True show ?thesis by (simp add: unf)
      next
        case False
        from "1.IH"(4) [OF c go bs d False nt s1] c go bs d False show ?thesis by (simp add: unf)
      qed
    next
      case other
      from "1.IH"(5) [OF c go other nt s1] c go other show ?thesis by (simp add: unf)
    qed
  qed
qed

lemma skip_space_and_comments_safe:
  "nul_terminated buf \<Longrightarrow> s < length buf \<Longrightarrow>
     \<exists>s'. skip_space_and_comments buf s = Some s' \<and> s' < length buf"
proof (induction buf s rule: skip_space_and_comments.induct)
  case (1 buf s)
  note unf = skip_space_and_comments.simps [of buf s]
  note nt = "1.prems"(1)
  from "1.prems"(2) obtain c where c: "rd buf s = Some c" using rd_in by blast
  show ?case
  proof (cases "c \<noteq> NUL \<and> (isspace c \<or> c = CHR ''('')")
    case False
    with c "1.prems"(2) show ?thesis by (auto simp: unf)
  next
    case True
    note go = this
    from skip_spaces_safe [OF nt "1.prems"(2)] obtain s1 where
      s1: "skip_spaces buf s = Some s1" "s1 < length buf" by blast
    from s1(2) obtain c1 where c1: "rd buf s1 = Some c1" using rd_in by blast
    show ?thesis
    proof (cases "c1 = CHR ''(''")
      case True
      with nul_terminated_step [OF nt c1] have "s1 + 1 < length buf" by (simp add: unf)
      from skip_comment_safe [OF nt this] obtain s2 where
        s2: "skip_comment buf (s1 + 1) 1 = Some s2" "s2 < length buf" by blast
      from "1.IH"(1) [OF c go s1(1) c1 True s2(1) nt s2(2)] c go s1(1) c1 True s2(1)
      show ?thesis by (simp add: unf)
    next
      case False
      from "1.IH"(2) [OF c go s1(1) c1 False nt s1(2)] c go s1(1) c1 False
      show ?thesis by (simp add: unf)
    qed
  qed
qed

lemma skip_space_and_comments_mono:
  "skip_space_and_comments buf s = Some s' \<Longrightarrow> s \<le> s'"
proof (induction buf s rule: skip_space_and_comments.induct)
  case (1 buf s)
  note unf = skip_space_and_comments.simps [of buf s]
  show ?case
  proof (cases "rd buf s")
    case None
    with "1.prems" show ?thesis by (simp add: unf)
  next
    case (Some c)
    note c = this
    show ?thesis
    proof (cases "c \<noteq> NUL \<and> (isspace c \<or> c = CHR ''('')")
      case False
      with c "1.prems" show ?thesis by (auto simp: unf)
    next
      case True
      note go = this
      show ?thesis
      proof (cases "skip_spaces buf s")
        case None
        with c go "1.prems" show ?thesis by (simp add: unf)
      next
        case (Some s1)
        note s1 = this
        have le1: "s \<le> s1" using s1 by (rule skip_spaces_mono)
        show ?thesis
        proof (cases "rd buf s1")
          case None
          with c go s1 "1.prems" show ?thesis by (simp add: unf)
        next
          case (Some c1)
          note c1 = this
          show ?thesis
          proof (cases "c1 = CHR ''(''")
            case False
            with c go s1 c1 "1.prems" have "skip_space_and_comments buf s1 = Some s'" by (simp add: unf)
            from "1.IH"(2) [OF c go s1 c1 False this] le1 show ?thesis by (simp add: unf)
          next
            case True
            note p = this
            show ?thesis
            proof (cases "skip_comment buf (s1 + 1) 1")
              case None
              with c go s1 c1 p "1.prems" show ?thesis by (simp add: unf)
            next
              case (Some s2)
              with c go s1 c1 p "1.prems" have "skip_space_and_comments buf s2 = Some s'" by (simp add: unf)
              from "1.IH"(1) [OF c go s1 c1 p Some this] le1 skip_comment_mono [OF Some]
              show ?thesis by (simp add: unf)
            qed
          qed
        qed
      qed
    qed
  qed
qed

lemma skip_space_and_comments_stops:
  "skip_space_and_comments buf s = Some s' \<Longrightarrow>
     \<exists>c. rd buf s' = Some c \<and> (c = NUL \<or> (\<not> isspace c \<and> c \<noteq> CHR ''(''))"
proof (induction buf s rule: skip_space_and_comments.induct)
  case (1 buf s)
  note unf = skip_space_and_comments.simps [of buf s]
  show ?case
  proof (cases "rd buf s")
    case None
    with "1.prems" show ?thesis by (simp add: unf)
  next
    case (Some c)
    note c = this
    show ?thesis
    proof (cases "c \<noteq> NUL \<and> (isspace c \<or> c = CHR ''('')")
      case False
      with c "1.prems" show ?thesis by (auto simp: unf)
    next
      case True
      note go = this
      show ?thesis
      proof (cases "skip_spaces buf s")
        case None
        with c go "1.prems" show ?thesis by (simp add: unf)
      next
        case (Some s1)
        note s1 = this
        show ?thesis
        proof (cases "rd buf s1")
          case None
          with c go s1 "1.prems" show ?thesis by (simp add: unf)
        next
          case (Some c1)
          note c1 = this
          show ?thesis
          proof (cases "c1 = CHR ''(''")
            case False
            with c go s1 c1 "1.prems" have "skip_space_and_comments buf s1 = Some s'" by (simp add: unf)
            from "1.IH"(2) [OF c go s1 c1 False this] show ?thesis .
          next
            case True
            note p = this
            show ?thesis
            proof (cases "skip_comment buf (s1 + 1) 1")
              case None
              with c go s1 c1 p "1.prems" show ?thesis by (simp add: unf)
            next
              case (Some s2)
              with c go s1 c1 p "1.prems" have "skip_space_and_comments buf s2 = Some s'" by (simp add: unf)
              from "1.IH"(1) [OF c go s1 c1 p Some this] show ?thesis .
            qed
          qed
        qed
      qed
    qed
  qed
qed


lemma scan_to_safe:
  "nul_terminated buf \<Longrightarrow> s < length buf \<Longrightarrow>
     \<exists>e. scan_to stop buf s = Some e \<and> e < length buf"
proof (induction stop buf s rule: scan_to.induct)
  case (1 stop buf s)
  note unf = scan_to.simps [of stop buf s]
  from "1.prems"(2) obtain c where c: "rd buf s = Some c" using rd_in by blast
  show ?case
  proof (cases "c \<noteq> NUL \<and> c \<noteq> stop")
    case True
    with nul_terminated_step [OF "1.prems"(1) c] have "s + 1 < length buf" by (simp add: unf)
    from "1.IH" [OF c True "1.prems"(1) this] c True show ?thesis by (simp add: unf)
  next
    case False
    with c "1.prems"(2) show ?thesis by (auto simp: unf)
  qed
qed

lemma scan_to_props:
  "scan_to stop buf s = Some e \<Longrightarrow>
     s \<le> e \<and> (\<exists>c. rd buf e = Some c \<and> (c = NUL \<or> c = stop)) \<and>
     (\<forall>i. s \<le> i \<and> i < e \<longrightarrow> buf ! i \<noteq> NUL \<and> buf ! i \<noteq> stop)"
proof (induction stop buf s rule: scan_to.induct)
  case (1 stop buf s)
  note unf = scan_to.simps [of stop buf s]
  show ?case
  proof (cases "rd buf s")
    case None
    with "1.prems" show ?thesis by (simp add: unf)
  next
    case (Some c)
    show ?thesis
    proof (cases "c \<noteq> NUL \<and> c \<noteq> stop")
      case True
      with Some "1.prems" have next_call: "scan_to stop buf (s + 1) = Some e" by (simp add: unf)
      note ih = "1.IH" [OF Some True next_call]
      from Some have cs: "buf ! s = c" by (simp add: rd_def split: if_splits)
      have "\<forall>i. s \<le> i \<and> i < e \<longrightarrow> buf ! i \<noteq> NUL \<and> buf ! i \<noteq> stop"
      proof (intro allI impI)
        fix i assume i: "s \<le> i \<and> i < e"
        show "buf ! i \<noteq> NUL \<and> buf ! i \<noteq> stop"
        proof (cases "i = s")
          case True
          with cs \<open>c \<noteq> NUL \<and> c \<noteq> stop\<close> show ?thesis by (simp add: unf)
        next
          case False
          with i have "s + 1 \<le> i \<and> i < e" by (simp add: unf)
          with ih show ?thesis by blast
        qed
      qed
      with ih show ?thesis by (simp add: unf)
    next
      case False
      with Some "1.prems" show ?thesis by (auto simp: unf)
    qed
  qed
qed

lemma scan_to_found:
  "s \<le> e \<Longrightarrow> e < length buf \<Longrightarrow> buf ! e = NUL \<or> buf ! e = stop \<Longrightarrow>
     (\<forall>i. s \<le> i \<and> i < e \<longrightarrow> buf ! i \<noteq> NUL \<and> buf ! i \<noteq> stop) \<Longrightarrow>
     scan_to stop buf s = Some e"
proof (induction "e - s" arbitrary: s)
  case 0
  then have "s = e" by simp
  with "0.prems" show ?case by (auto simp: rd_def scan_to.simps [of stop buf e])
next
  case (Suc k)
  then have lt: "s < e" by simp
  with Suc.prems have here: "buf ! s \<noteq> NUL \<and> buf ! s \<noteq> stop" by simp
  from lt Suc.prems(2) have rd_s: "rd buf s = Some (buf ! s)" by (simp add: rd_def)
  have "scan_to stop buf (s + 1) = Some e"
  proof (rule Suc.hyps(1))
    show "k = e - (s + 1)" using Suc.hyps(2) by simp
    show "s + 1 \<le> e" using lt by simp
    show "e < length buf" by (rule Suc.prems(2))
    show "buf ! e = NUL \<or> buf ! e = stop" by (rule Suc.prems(3))
    show "\<forall>i. s + 1 \<le> i \<and> i < e \<longrightarrow> buf ! i \<noteq> NUL \<and> buf ! i \<noteq> stop"
      using Suc.prems(4) by simp
  qed
  with rd_s here show ?case by (simp add: scan_to.simps [of stop buf s])
qed

lemma talloc_strndup_in:
  "s + n \<le> length buf \<Longrightarrow>
     talloc_strndup buf s n = Some (takeWhile (\<lambda>c. c \<noteq> NUL) (take n (drop s buf)) @ [NUL])"
  by (simp add: talloc_strndup_def Let_def)

lemma str_at_terminated:
  "NUL \<notin> set w \<Longrightarrow> str_at (w @ NUL # rest) 0 = w"
  by (auto simp: str_at_def takeWhile_tail)

lemma nul_terminated_snoc: "nul_terminated (w @ [NUL])"
  by (simp add: nul_terminated_def)

lemma take_Suc_eq_imp:
  "take (Suc r) a = take (Suc r) b \<Longrightarrow> take r a = take r b"
proof -
  assume "take (Suc r) a = take (Suc r) b"
  then have "take r (take (Suc r) a) = take r (take (Suc r) b)" by simp
  then show ?thesis by (simp add: min_def)
qed

lemma sint_of_nat_small: "k < 2 ^ 31 \<Longrightarrow> sint (of_nat k :: 32 word) = int k"
  by (simp add: sint_uint signed_take_bit_int_eq_self unsigned_of_nat take_bit_nat_eq_self)

lemma size_t_of_int_small: "k < 2 ^ 31 \<Longrightarrow> size_t_of_int (int_of_size_t k) = k"
  by (simp add: size_t_of_int_def int_of_size_t_def sint_of_nat_small)

lemma int_of_size_t_pred: "0 < k \<Longrightarrow> int_of_size_t k - 1 = int_of_size_t (k - 1)"
  by (simp add: int_of_size_t_def of_nat_diff)

text \<open>
  The loop on a block of at most \<open>2 ^ 31\<close> bytes, where \<^verbatim>\<open>len\<close> holds the number of
  bytes between \<^verbatim>\<open>r\<close> and the last byte of the block.
\<close>

lemma collapse_loop_safe:
  "nul_terminated buf \<Longrightarrow> r < length buf \<Longrightarrow> length buf \<le> 2 ^ 31 \<Longrightarrow>
     len = int_of_size_t (length buf - 1 - r) \<Longrightarrow>
     \<exists>buf'. collapse_loop buf r len = Some buf' \<and> length buf' = length buf \<and>
            take r buf' = take r buf"
proof (induction buf r len rule: collapse_loop.induct)
  case (1 buf r len)
  note unf = collapse_loop.simps [of buf r len]
  note nt = "1.prems"(1) and sh = "1.prems"(3) and len = "1.prems"(4)
  from "1.prems"(2) obtain c where c: "rd buf r = Some c" using rd_in by blast
  show ?case
  proof (cases "c \<noteq> NUL")
    case False
    with c show ?thesis by (simp add: unf)
  next
    case True
    note go = this
    from nul_terminated_step [OF nt c go] have r1: "r + 1 < length buf" .
    define k where "k = length buf - 1 - r"
    from r1 have k: "0 < k" "r + 1 + k = length buf" by (simp_all add: k_def)
    from k sh have ksmall: "k < 2 ^ 31" by simp
    from len have len_k: "len = int_of_size_t k" by (simp add: k_def)
    from int_of_size_t_pred [OF k(1)] k len_k
    have len1: "len - 1 = int_of_size_t (length buf - 1 - (r + 1))"
      by (simp add: k_def)
    show ?thesis
    proof (cases "c = CHR '' '' \<or> c = CHR 0x09")
      case False
      from "1.IH"(2) [OF c go False nt r1 sh len1] obtain buf' where
        b: "collapse_loop buf (r + 1) (len - 1) = Some buf'" "length buf' = length buf"
        "take (r + 1) buf' = take (r + 1) buf" by blast
      from b(3) have "take r buf' = take r buf" using take_Suc_eq_imp [of r buf' buf] by simp
      with b c go False show ?thesis by (simp add: unf)
    next
      case True
      note sp = this
      have cnt: "size_t_of_int len = k"
        using size_t_of_int_small [OF ksmall] by (simp add: len_k)
      define buf1 where "buf1 = take r buf @ take k (drop (r + 1) buf) @ drop (r + k) buf"
      from k have mm: "memmove buf r (r + 1) (size_t_of_int len) = Some buf1"
        by (simp add: memmove_def buf1_def cnt)
      from length_memmove [OF mm] have l1: "length buf1 = length buf" .
      from k have "drop (r + k) buf \<noteq> []" by simp
      then have "last buf1 = last (drop (r + k) buf)" by (simp add: buf1_def)
      also have "\<dots> = last buf" using k by (simp add: last_drop)
      finally have nt1: "nul_terminated buf1" using nt l1 by (auto simp: nul_terminated_def)
      from r1 l1 have r1': "r + 1 < length buf1" by simp
      from sh l1 have sh1: "length buf1 \<le> 2 ^ 31" by simp
      from len1 l1 have len1': "len - 1 = int_of_size_t (length buf1 - 1 - (r + 1))" by simp
      from "1.IH"(1) [OF c go sp mm nt1 r1' sh1 len1'] obtain buf' where
        b: "collapse_loop buf1 (r + 1) (len - 1) = Some buf'" "length buf' = length buf1"
        "take (r + 1) buf' = take (r + 1) buf1" by blast
      from b(3) have "take r buf' = take r buf1" using take_Suc_eq_imp [of r buf' buf1] by simp
      also have "\<dots> = take r buf" using r1 by (simp add: buf1_def)
      finally have "take r buf' = take r buf" .
      with b l1 c go sp mm show ?thesis by (simp add: unf)
    qed
  qed
qed

lemma collapse_loop_plain:
  "nul_terminated buf \<Longrightarrow> r < length buf \<Longrightarrow>
     (\<forall>i. r \<le> i \<and> i < length buf \<longrightarrow> buf ! i \<noteq> CHR '' '' \<and> buf ! i \<noteq> CHR 0x09) \<Longrightarrow>
     collapse_loop buf r len = Some buf"
proof (induction buf r len rule: collapse_loop.induct)
  case (1 buf r len)
  note unf = collapse_loop.simps [of buf r len]
  from "1.prems"(2) have c: "rd buf r = Some (buf ! r)" by (simp add: rd_def)
  show ?case
  proof (cases "buf ! r \<noteq> NUL")
    case False
    with c show ?thesis by (simp add: unf)
  next
    case True
    from nul_terminated_step [OF "1.prems"(1) c True] have r1: "r + 1 < length buf" .
    from "1.prems"(2,3) have ns: "\<not> (buf ! r = CHR '' '' \<or> buf ! r = CHR 0x09)" by (simp add: unf)
    from "1.prems"(3) have
      "\<forall>i. r + 1 \<le> i \<and> i < length buf \<longrightarrow> buf ! i \<noteq> CHR '' '' \<and> buf ! i \<noteq> CHR 0x09"
      by (simp add: unf)
    from "1.IH"(2) [OF c True ns "1.prems"(1) r1 this] c True ns show ?thesis by (simp add: unf)
  qed
qed


lemma rd_SomeD: "rd buf s = Some c \<Longrightarrow> s < length buf \<and> buf ! s = c"
  by (simp add: rd_def split: if_splits)

lemma parse_message_id_result:
  assumes nt: "nul_terminated buf" and p: "p < length buf" and sh: "length buf \<le> 2 ^ 31"
  shows "\<exists>r n. parse_message_id buf p = Some (r, n) \<and> p \<le> n \<and> n < length buf \<and>
            (buf ! p \<noteq> NUL \<longrightarrow> p < n) \<and> r \<noteq> Some []"
proof -
  from p have c0: "rd buf p = Some (buf ! p)" by (simp add: rd_def)
  show ?thesis
  proof (cases "buf ! p = NUL")
    case True
    with c0 p show ?thesis by (simp add: parse_message_id_def)
  next
    case False
    note nz = this
    from skip_space_and_comments_safe [OF nt p] obtain s0 where
      s0: "skip_space_and_comments buf p = Some s0" "s0 < length buf" by blast
    from skip_space_and_comments_mono [OF s0(1)] have ps0: "p \<le> s0" .
    from scan_to_safe [OF nt s0(2)] obtain s1 where
      s1: "scan_to (CHR ''<'') buf s0 = Some s1" "s1 < length buf" by blast
    from scan_to_props [OF s1(1)] have s0s1: "s0 \<le> s1"
      and stop1: "\<exists>c. rd buf s1 = Some c \<and> (c = NUL \<or> c = CHR ''<'')" by blast+
    from s1(2) have c1: "rd buf s1 = Some (buf ! s1)" by (simp add: rd_def)
    show ?thesis
    proof (cases "buf ! s1 = CHR ''<''")
      case False
      with stop1 c1 have "buf ! s1 = NUL" by auto
      with nz have "s1 \<noteq> p" by auto
      with ps0 s0s1 have "p < s1" by simp
      with c0 nz s0(1) s1 c1 False show ?thesis by (simp add: parse_message_id_def)
    next
      case True
      note lt = this
      then have "buf ! s1 \<noteq> NUL" by simp
      from nul_terminated_step [OF nt c1 this] have s1': "s1 + 1 < length buf" .
      from skip_space_and_comments_safe [OF nt s1'] obtain s where
        s: "skip_space_and_comments buf (s1 + 1) = Some s" "s < length buf" by blast
      from skip_space_and_comments_mono [OF s(1)] have s1s: "s1 + 1 \<le> s" .
      from skip_space_and_comments_stops [OF s(1)] s(2)
      have sstop: "buf ! s = NUL \<or> (\<not> isspace (buf ! s) \<and> buf ! s \<noteq> CHR ''('')"
        by (auto simp: rd_def)
      from scan_to_safe [OF nt s(2)] obtain e where
        e: "scan_to (CHR ''>'') buf s = Some e" "e < length buf" by blast
      from scan_to_props [OF e(1)] have se: "s \<le> e"
        and between: "\<forall>i. s \<le> i \<and> i < e \<longrightarrow> buf ! i \<noteq> NUL \<and> buf ! i \<noteq> CHR ''>''" by blast+
      from e(2) have ce: "rd buf e = Some (buf ! e)" by (simp add: rd_def)
      define nxt where "nxt = (if buf ! e \<noteq> NUL then e + 1 else e)"
      define endp where "endp = (if s < e \<and> buf ! e = CHR ''>'' then e - 1 else e)"
      have nxt_lt: "nxt < length buf"
        using nul_terminated_step [OF nt ce] e(2) by (simp add: nxt_def)
      have p_nxt: "p < nxt" using ps0 s0s1 s1s se by (simp add: nxt_def)
      have unfold: "parse_message_id buf p =
        (if endp \<le> s then Some (None, nxt)
         else (case talloc_strndup buf s (endp - s + 1) of
               None \<Rightarrow> None
             | Some result \<Rightarrow>
            (case collapse_loop result 0 (int_of_size_t (length (str_at result 0))) of
               None \<Rightarrow> None
             | Some result' \<Rightarrow> Some (Some (str_at result' 0), nxt))))"
        using c0 nz s0(1) s1(1) c1 lt s(1) e(1) ce
        by (simp add: parse_message_id_def Let_def nxt_def endp_def cong: option.case_cong)
      show ?thesis
      proof (cases "endp \<le> s")
        case True
        with unfold p_nxt nxt_lt show ?thesis by simp
      next
        case False
        then have s_endp: "s < endp" by simp
        have endp_e: "endp \<le> e" by (simp add: endp_def)
        with s_endp have s_lt_e: "s < e" by simp
        with between have bs: "buf ! s \<noteq> NUL" by simp
        with sstop have nsp: "buf ! s \<noteq> CHR '' ''" "buf ! s \<noteq> CHR 0x09"
          by (auto simp: isspace_def)
        define n where "n = endp - s + 1"
        define w where "w = takeWhile (\<lambda>c. c \<noteq> NUL) (take n (drop s buf))"
        from endp_e e(2) s_endp have "s + n \<le> length buf" by (simp add: n_def)
        from talloc_strndup_in [OF this]
        have dup: "talloc_strndup buf s n = Some (w @ [NUL])" by (simp add: w_def)
        from s(2) have "take n (drop s buf) = buf ! s # take (n - 1) (drop (s + 1) buf)"
          by (simp add: n_def Cons_nth_drop_Suc [symmetric])
        with bs have w_hd: "w = buf ! s # takeWhile (\<lambda>c. c \<noteq> NUL) (take (n - 1) (drop (s + 1) buf))"
          by (simp add: w_def)
        then obtain w' where w': "w = buf ! s # w'" by blast
        have w_nonul: "NUL \<notin> set w" by (auto simp: w_def dest: set_takeWhileD)
        define result where "result = w @ [NUL]"
        have str: "str_at result 0 = w"
          using str_at_terminated [OF w_nonul, of "[]"] by (simp add: result_def)
        have ntr: "nul_terminated result" by (simp add: result_def nul_terminated_snoc)
        have r0: "rd result 0 = Some (buf ! s)" by (simp add: rd_def result_def w')
        have "length w \<le> n" by (simp add: w_def) (rule order_trans [OF length_takeWhile_le], simp)
        with \<open>s + n \<le> length buf\<close> s1s sh have lr: "length result \<le> 2 ^ 31"
          by (simp add: result_def)
        have step0: "collapse_loop result 0 (int_of_size_t (length w)) =
                     collapse_loop result 1 (int_of_size_t (length w) - 1)"
          using r0 bs nsp by (simp add: collapse_loop.simps [of result 0])
        have lw1: "int_of_size_t (length w) - 1 = int_of_size_t (length result - 1 - 1)"
          using int_of_size_t_pred [of "length w"] by (simp add: result_def w')
        have "\<exists>buf'. collapse_loop result 1 (int_of_size_t (length w) - 1) = Some buf' \<and>
                 length buf' = length result \<and> take 1 buf' = take 1 result"
          by (rule collapse_loop_safe [OF ntr _ lr lw1]) (simp add: result_def w')
        then obtain buf' where b: "collapse_loop result 1 (int_of_size_t (length w) - 1) = Some buf'"
          "length buf' = length result" "take 1 buf' = take 1 result" by blast
        from b(2) obtain x xs where bx: "buf' = x # xs" by (cases buf') (auto simp: result_def)
        with b(3) have "x = buf ! s" by (simp add: result_def w')
        with bx bs have "str_at buf' 0 \<noteq> []" by (simp add: str_at_def)
        moreover have dup': "talloc_strndup buf s (endp - s + 1) = Some result"
          using dup by (simp add: n_def result_def)
        have "parse_message_id buf p = Some (Some (str_at buf' 0), nxt)"
          using unfold False dup' str step0 b(1) by simp
        ultimately show ?thesis using p_nxt nxt_lt by simp
      qed
    qed
  qed
qed

lemma parse_message_id_advance:
  assumes "parse_message_id buf p = Some (r, n)" and "rd buf p = Some c" and "c \<noteq> NUL"
  shows "p < n"
proof -
  from assms obtain s0 where s0: "skip_space_and_comments buf p = Some s0"
    by (auto simp: parse_message_id_def split: option.splits)
  from assms s0 obtain s1 where s1: "scan_to (CHR ''<'') buf s0 = Some s1"
    by (auto simp: parse_message_id_def split: option.splits)
  from assms s0 s1 obtain c1 where c1: "rd buf s1 = Some c1"
    by (auto simp: parse_message_id_def split: option.splits)
  from skip_space_and_comments_mono [OF s0] have ps0: "p \<le> s0" .
  from scan_to_props [OF s1] c1 have s0s1: "s0 \<le> s1" and stop1: "c1 = NUL \<or> c1 = CHR ''<''"
    by auto
  show ?thesis
  proof (cases "c1 = CHR ''<''")
    case False
    with stop1 have "c1 = NUL" by simp
    with c1 assms(2,3) have "s1 \<noteq> p" by auto
    moreover from assms s0 s1 c1 False have "n = s1" by (simp add: parse_message_id_def)
    ultimately show ?thesis using ps0 s0s1 by simp
  next
    case True
    from assms s0 s1 c1 True obtain s where s: "skip_space_and_comments buf (s1 + 1) = Some s"
      by (auto simp: parse_message_id_def split: option.splits)
    from assms s0 s1 c1 True s obtain e where e: "scan_to (CHR ''>'') buf s = Some e"
      by (auto simp: parse_message_id_def split: option.splits)
    from assms s0 s1 c1 True s e obtain ce where ce: "rd buf e = Some ce"
      by (auto simp: parse_message_id_def split: option.splits)
    from assms s0 s1 c1 True s e ce have "e \<le> n"
      by (auto simp: parse_message_id_def Let_def split: option.splits if_splits)
    moreover from skip_space_and_comments_mono [OF s] have "s1 + 1 \<le> s" .
    moreover from scan_to_props [OF e] have "s \<le> e" by simp
    ultimately show ?thesis using ps0 s0s1 by simp
  qed
qed


section \<open>Claims about the parser\<close>

text \<open>
  On a block of at most \<open>2 ^ 31\<close> bytes whose last byte is the terminator, from any
  position inside it, the parser never reads outside the block:
  \<open>skip_space_and_comments\<close> (on a block of any size) and \<open>parse_message_id\<close> both return
  (the value \<open>None\<close> stands for an access outside the block), the positions they return
  stay inside the block, and an identifier that \<open>parse_message_id\<close> returns is not the
  empty string. Termination is part of the definitions: each loop is a total recursive
  function. Inputs that end in an unclosed comment or in a backslash are covered, the
  block being arbitrary.
\<close>

lemma parse_message_id_total_short:
  assumes "nul_terminated buf" and "p < length buf"
  shows "(\<exists>q. skip_space_and_comments buf p = Some q \<and> p \<le> q \<and> q < length buf) \<and>
         (length buf \<le> 2 ^ 31 \<longrightarrow>
            (\<exists>r n. parse_message_id buf p = Some (r, n) \<and> p \<le> n \<and> n < length buf \<and>
                r \<noteq> Some []))"
proof -
  from skip_space_and_comments_safe [OF assms] obtain q where
    q: "skip_space_and_comments buf p = Some q" "q < length buf" by blast
  from skip_space_and_comments_mono [OF q(1)] q
  have "\<exists>q. skip_space_and_comments buf p = Some q \<and> p \<le> q \<and> q < length buf" by blast
  moreover from parse_message_id_result [OF assms]
  have "length buf \<le> 2 ^ 31 \<longrightarrow>
    (\<exists>r n. parse_message_id buf p = Some (r, n) \<and> p \<le> n \<and> n < length buf \<and> r \<noteq> Some [])"
    by blast
  ultimately show ?thesis by blast
qed

text \<open>
  The lemma at a header that ends inside a comment, on a backslash: the three
  characters \<^verbatim>\<open>(\<close>, \<^verbatim>\<open>a\<close> and a backslash, followed by the terminator.
\<close>

lemma parse_message_id_total_short_example:
  "(\<exists>q. skip_space_and_comments (c_string [CHR ''('', CHR ''a'', CHR 0x5C]) 0 = Some q \<and>
        0 \<le> q \<and> q < length (c_string [CHR ''('', CHR ''a'', CHR 0x5C])) \<and>
   (\<exists>r n. parse_message_id (c_string [CHR ''('', CHR ''a'', CHR 0x5C]) 0 = Some (r, n) \<and>
        0 \<le> n \<and> n < length (c_string [CHR ''('', CHR ''a'', CHR 0x5C]) \<and> r \<noteq> Some [])"
proof -
  have h1: "nul_terminated (c_string [CHR ''('', CHR ''a'', CHR 0x5C])"
    by (simp add: nul_terminated_def c_string_def)
  have h2: "0 < length (c_string [CHR ''('', CHR ''a'', CHR 0x5C])"
    by (simp add: c_string_def)
  have h3: "length (c_string [CHR ''('', CHR ''a'', CHR 0x5C]) \<le> 2 ^ 31"
    by (simp add: c_string_def)
  from parse_message_id_total_short [OF h1 h2] h3 show ?thesis by blast
qed

text \<open>
  An identifier that has a blank as its second character, followed by \<open>2 ^ 31\<close> more
  characters. The duplicate has \<open>2 ^ 31 + 2\<close> characters, which \<^verbatim>\<open>int len\<close> holds as
  \<open>2 ^ 31 + 2 - 2 ^ 32\<close>. At the blank \<^verbatim>\<open>len\<close> is negative and \<^verbatim>\<open>memmove\<close> is asked to
  move \<open>2 ^ 64 - 2 ^ 31 + 1\<close> bytes, more than the block has.
\<close>

lemma parse_message_id_blank_fault:
  assumes chars: "\<forall>c\<in>set rest. c \<noteq> NUL \<and> c \<noteq> CHR ''>''"
    and big: "length rest = 2 ^ 31"
  shows "parse_message_id (c_string (''<a '' @ rest @ ''>'')) 0 = None"
proof -
  define ident where "ident = ''a '' @ rest"
  define buf where "buf = c_string (''<a '' @ rest @ ''>'')"
  have buf: "buf = CHR ''<'' # ident @ [CHR ''>'', NUL]"
    by (simp add: buf_def c_string_def ident_def)
  have lbuf: "length buf = length ident + 3" by (simp add: buf)
  have lid: "length ident = length rest + 2" by (simp add: ident_def)
  have ident: "ident = CHR ''a'' # CHR '' '' # rest" by (simp add: ident_def)
  have idchars: "\<forall>c\<in>set ident. c \<noteq> NUL \<and> c \<noteq> CHR ''>''"
    using chars by (simp add: ident)
  have nth_id: "\<And>i. i < length ident \<Longrightarrow> buf ! (i + 1) = ident ! i"
    by (simp add: buf nth_append)
  have r0: "rd buf 0 = Some (CHR ''<'')" by (simp add: rd_def buf)
  have r1: "rd buf 1 = Some (CHR ''a'')" by (simp add: rd_def buf ident)
  have sk0: "skip_space_and_comments buf 0 = Some 0"
    using r0 by (simp add: skip_space_and_comments.simps [of buf 0] isspace_def)
  have sc0: "scan_to (CHR ''<'') buf 0 = Some 0"
    using r0 by (simp add: scan_to.simps [of _ buf 0])
  have sk1: "skip_space_and_comments buf (Suc 0) = Some (Suc 0)"
    using r1 by (simp add: skip_space_and_comments.simps [of buf "Suc 0"] isspace_def)
  have e_at: "buf ! (length ident + 1) = CHR ''>''" by (simp add: buf nth_append)
  have "scan_to (CHR ''>'') buf 1 = Some (length ident + 1)"
  proof (rule scan_to_found)
    show "1 \<le> length ident + 1" by simp
    show "length ident + 1 < length buf" by (simp add: lbuf)
    show "buf ! (length ident + 1) = NUL \<or> buf ! (length ident + 1) = CHR ''>''"
      using e_at by simp
    show "\<forall>i. 1 \<le> i \<and> i < length ident + 1 \<longrightarrow> buf ! i \<noteq> NUL \<and> buf ! i \<noteq> CHR ''>''"
    proof (intro allI impI)
      fix i assume i: "1 \<le> i \<and> i < length ident + 1"
      then have "i - 1 < length ident" by arith
      from nth_id [OF this] i have eq: "buf ! i = ident ! (i - 1)" by simp
      from \<open>i - 1 < length ident\<close> have "ident ! (i - 1) \<in> set ident" by simp
      with idchars have "ident ! (i - 1) \<noteq> NUL \<and> ident ! (i - 1) \<noteq> CHR ''>''"
        by (rule bspec)
      then show "buf ! i \<noteq> NUL \<and> buf ! i \<noteq> CHR ''>''" by (simp add: eq)
    qed
  qed
  then have sc1: "scan_to (CHR ''>'') buf (Suc 0) = Some (Suc (length ident))" by simp
  have re: "rd buf (Suc (length ident)) = Some (CHR ''>'')"
    using e_at by (simp add: rd_def lbuf)
  have tk: "take (length ident) (drop (Suc 0) buf) = ident" by (simp add: buf)
  from idchars have nonul: "NUL \<notin> set ident" by blast
  then have tw: "takeWhile (\<lambda>c. c \<noteq> NUL) ident = ident" by (auto simp: takeWhile_eq_all_conv)
  have n: "Suc (length ident - Suc 0) = length ident" by (simp add: lid)
  have dup: "talloc_strndup buf (Suc 0) (length ident) = Some (ident @ [NUL])"
    by (simp add: talloc_strndup_def Let_def lbuf tk tw)
  have str: "str_at (ident @ [NUL]) 0 = ident"
    using str_at_terminated [OF nonul, of "[]"] by simp
  have c0: "rd (ident @ [NUL]) 0 = Some (CHR ''a'')" by (simp add: rd_def ident)
  have c1: "rd (ident @ [NUL]) (Suc 0) = Some (CHR '' '')" by (simp add: rd_def ident)
  have cnt: "size_t_of_int (int_of_size_t (length ident) - 1) = 2 ^ 64 - 2 ^ 31 + 1"
    by (simp add: lid big size_t_of_int_def int_of_size_t_def)
  have lres: "length (ident @ [NUL]) = 2 ^ 31 + 3" by (simp add: lid big)
  have mm: "memmove (ident @ [NUL]) (Suc 0) (Suc 0 + 1)
              (size_t_of_int (int_of_size_t (length ident) - 1)) = None"
    unfolding memmove_def cnt lres by simp
  have "collapse_loop (ident @ [NUL]) (Suc 0) (int_of_size_t (length ident) - 1) = None"
    using c1 mm
    by (simp add: collapse_loop.simps [of "ident @ [NUL]" "Suc 0"])
  with c0 have col: "collapse_loop (ident @ [NUL]) 0 (int_of_size_t (length ident)) = None"
    by (simp add: collapse_loop.simps [of "ident @ [NUL]" 0])
  have ne: "ident \<noteq> []" by (simp add: ident)
  have l2: "2 \<le> length ident" by (simp add: lid)
  have "parse_message_id buf 0 = None"
    using l2
    by (simp add: parse_message_id_def Let_def r0 sk0 sc0 sk1 sc1 re dup str col n ne)
  then show ?thesis by (simp only: buf_def)
qed

text \<open>
  Claim C10. The claim holds of the two scanning functions and of every header shorter
  than \<open>2 ^ 31\<close> bytes (lemma \<open>parse_message_id_total_short\<close>), and fails beyond: the
  whitespace loop keeps the length of the identifier in an \<^verbatim>\<open>int\<close>. On the header
  \<^verbatim>\<open><a \<close> followed by \<open>2 ^ 31\<close> letters \<^verbatim>\<open>b\<close> and \<^verbatim>\<open>>\<close>, which is terminated, the call of
  \<^verbatim>\<open>memmove\<close> at the blank leaves the block: \<open>parse_message_id\<close> does not return.
\<close>

theorem parse_message_id_int_len_overflow:
  "nul_terminated (c_string (''<a '' @ replicate (2 ^ 31) (CHR ''b'') @ ''>'')) \<and>
   parse_message_id (c_string (''<a '' @ replicate (2 ^ 31) (CHR ''b'') @ ''>'')) 0 = None"
proof
  show "nul_terminated (c_string (''<a '' @ replicate (2 ^ 31) (CHR ''b'') @ ''>''))"
    unfolding c_string_def by (rule nul_terminated_snoc)
  have "\<forall>c\<in>set (replicate (2 ^ 31) (CHR ''b'')). c \<noteq> NUL \<and> c \<noteq> CHR ''>''"
    by (simp only: set_replicate_conv_if) simp
  moreover have "length (replicate (2 ^ 31) (CHR ''b'')) = 2 ^ 31"
    by (simp only: length_replicate)
  ultimately show
    "parse_message_id (c_string (''<a '' @ replicate (2 ^ 31) (CHR ''b'') @ ''>'')) 0 = None"
    by (rule parse_message_id_blank_fault)
qed

text \<open>
  Claim C4, as the code has it. The identifier between \<^verbatim>\<open><\<close> and \<^verbatim>\<open>>\<close> is returned
  unchanged when it has at least two characters, none of them \<^verbatim>\<open><\<close>, \<^verbatim>\<open>>\<close>, a space, a
  tab or the terminator, and does not begin with white space or with \<^verbatim>\<open>(\<close>, which
  \<open>skip_space_and_comments\<close> would consume after the \<^verbatim>\<open><\<close>.
\<close>

theorem parse_message_id_roundtrip:
  assumes len: "2 \<le> length ident"
    and chars: "\<forall>c\<in>set ident. c \<noteq> NUL \<and> c \<noteq> CHR ''<'' \<and> c \<noteq> CHR ''>'' \<and> c \<noteq> CHR '' '' \<and> c \<noteq> CHR 0x09"
    and first: "\<not> isspace (hd ident)" "hd ident \<noteq> CHR ''(''"
  shows "parse_message_id (c_string (''<'' @ ident @ ''>'')) 0 = Some (Some ident, length ident + 2)"
proof -
  define buf where "buf = c_string (''<'' @ ident @ ''>'')"
  have buf: "buf = CHR ''<'' # ident @ [CHR ''>'', NUL]" by (simp add: buf_def c_string_def)
  have lbuf: "length buf = length ident + 3" by (simp add: buf)
  from len obtain x xs where ident: "ident = x # xs" by (cases ident) auto
  with first have x: "\<not> isspace x" "x \<noteq> CHR ''(''" by simp_all
  have nth_id: "\<And>i. i < length ident \<Longrightarrow> buf ! (i + 1) = ident ! i"
    by (simp add: buf nth_append)
  have r0: "rd buf 0 = Some (CHR ''<'')" by (simp add: rd_def buf)
  have r1: "rd buf 1 = Some x" by (simp add: rd_def buf ident)
  have sk0: "skip_space_and_comments buf 0 = Some 0"
    using r0 by (simp add: skip_space_and_comments.simps [of buf 0] isspace_def)
  have sc0: "scan_to (CHR ''<'') buf 0 = Some 0"
    using r0 by (simp add: scan_to.simps [of _ buf 0])
  have sk1: "skip_space_and_comments buf (Suc 0) = Some (Suc 0)"
    using r1 x by (simp add: skip_space_and_comments.simps [of buf "Suc 0"])
  have e_at: "buf ! (length ident + 1) = CHR ''>''" by (simp add: buf nth_append)
  have "scan_to (CHR ''>'') buf 1 = Some (length ident + 1)"
  proof (rule scan_to_found)
    show "1 \<le> length ident + 1" by simp
    show "length ident + 1 < length buf" by (simp add: lbuf)
    show "buf ! (length ident + 1) = NUL \<or> buf ! (length ident + 1) = CHR ''>''"
      using e_at by simp
    show "\<forall>i. 1 \<le> i \<and> i < length ident + 1 \<longrightarrow> buf ! i \<noteq> NUL \<and> buf ! i \<noteq> CHR ''>''"
    proof (intro allI impI)
      fix i assume i: "1 \<le> i \<and> i < length ident + 1"
      then have "i - 1 < length ident" by arith
      from nth_id [OF this] i have "buf ! i = ident ! (i - 1)" by simp
      moreover from \<open>i - 1 < length ident\<close> have "ident ! (i - 1) \<in> set ident" by simp
      ultimately show "buf ! i \<noteq> NUL \<and> buf ! i \<noteq> CHR ''>''" using chars by auto
    qed
  qed
  then have sc1: "scan_to (CHR ''>'') buf (Suc 0) = Some (Suc (length ident))" by simp
  have re: "rd buf (Suc (length ident)) = Some (CHR ''>'')"
    using e_at by (simp add: rd_def lbuf)
  have tk: "take (length ident) (drop (Suc 0) buf) = ident" by (simp add: buf)
  from chars have nonul: "NUL \<notin> set ident" by auto
  then have tw: "takeWhile (\<lambda>c. c \<noteq> NUL) ident = ident" by (auto simp: takeWhile_eq_all_conv)
  have n: "Suc (length ident - Suc 0) = length ident" using len by (cases ident) simp_all
  have dup: "talloc_strndup buf (Suc 0) (length ident) = Some (ident @ [NUL])"
    by (simp add: talloc_strndup_def Let_def lbuf tk tw)
  have str: "str_at (ident @ [NUL]) 0 = ident"
    using str_at_terminated [OF nonul, of "[]"] by simp
  have col: "collapse_loop (ident @ [NUL]) 0 (int_of_size_t (length ident)) = Some (ident @ [NUL])"
  proof (rule collapse_loop_plain)
    show "nul_terminated (ident @ [NUL])" by (rule nul_terminated_snoc)
    show "0 < length (ident @ [NUL])" by simp
    show "\<forall>i. 0 \<le> i \<and> i < length (ident @ [NUL]) \<longrightarrow>
            (ident @ [NUL]) ! i \<noteq> CHR '' '' \<and> (ident @ [NUL]) ! i \<noteq> CHR 0x09"
    proof (intro allI impI)
      fix i assume "0 \<le> i \<and> i < length (ident @ [NUL])"
      then have "(ident @ [NUL]) ! i \<in> set (ident @ [NUL])" by (intro nth_mem) simp
      moreover have "\<forall>c\<in>set (ident @ [NUL]). c \<noteq> CHR '' '' \<and> c \<noteq> CHR 0x09"
        using chars by simp
      ultimately show "(ident @ [NUL]) ! i \<noteq> CHR '' '' \<and> (ident @ [NUL]) ! i \<noteq> CHR 0x09"
        by blast
    qed
  qed
  have ne: "ident \<noteq> []" by (simp add: ident)
  have "parse_message_id buf 0 = Some (Some ident, length ident + 2)"
    using len
    by (simp add: parse_message_id_def Let_def r0 sk0 sc0 sk1 sc1 re dup str col n ne)
  then show ?thesis by (simp add: buf_def)
qed

theorem parse_message_id_roundtrip_witness:
  "2 \<le> length ''a@x'' \<and> \<not> isspace (hd ''a@x'') \<and> hd ''a@x'' \<noteq> CHR ''('' \<and>
   parse_message_id (c_string (''<'' @ ''a@x'' @ ''>'')) 0 = Some (Some ''a@x'', length ''a@x'' + 2)"
proof -
  have h1: "2 \<le> length ''a@x''" by simp
  have h2: "\<forall>c\<in>set ''a@x''. c \<noteq> NUL \<and> c \<noteq> CHR ''<'' \<and> c \<noteq> CHR ''>'' \<and> c \<noteq> CHR '' '' \<and> c \<noteq> CHR 0x09"
    by simp
  have h3: "\<not> isspace (hd ''a@x'')" by (simp add: isspace_def)
  have h4: "hd ''a@x'' \<noteq> CHR ''(''" by simp
  from parse_message_id_roundtrip [OF h1 h2 h3 h4] h1 h3 h4 show ?thesis by blast
qed

text \<open>
  Claim C4 as stated fails: the identifier \<^verbatim>\<open>(a)bc\<close> has no space, \<^verbatim>\<open><\<close> or \<^verbatim>\<open>>\<close>, and
  parsing \<^verbatim>\<open><(a)bc>\<close> yields \<^verbatim>\<open>bc\<close>, the comment \<^verbatim>\<open>(a)\<close> being skipped.
\<close>

theorem parse_message_id_roundtrip_counterexample:
  "parse_message_id (c_string (''<'' @ ''(a)bc'' @ ''>'')) 0 = Some (Some ''bc'', 7) \<and>
   ''bc'' \<noteq> ''(a)bc''"
  by code_simp

text \<open>
  A one-character identifier is not returned at all: after \<^verbatim>\<open>end--\<close> the test
  \<^verbatim>\<open>end <= s\<close> holds for it as it does for the empty body \<^verbatim>\<open><>\<close>.
\<close>

lemma parse_message_id_single_char:
  "parse_message_id (c_string ''<a>'') 0 = Some (None, 3)"
  by code_simp

lemma parse_message_id_empty_body:
  "parse_message_id (c_string ''<>'') 0 = Some (None, 2)"
  by code_simp

lemma parse_message_id_unterminated:
  "parse_message_id (c_string ''<a'') 0 = Some (Some ''a'', 2)"
  by code_simp


subsection \<open>parse_references\<close>

text \<open>
  The table \<^verbatim>\<open>GHashTable *hash\<close> is used as a set of strings. It is the list of its
  keys in the order of their first insertion; \<^verbatim>\<open>g_hash_table_add\<close> of a key already
  present replaces it by an equal string.
\<close>

definition g_hash_table_add :: "string \<Rightarrow> string list \<Rightarrow> string list" where
  "g_hash_table_add key hash = (if key \<in> set hash then hash else hash @ [key])"

text \<open>
  The loop \<^verbatim>\<open>while (*refs) { ref = _parse_message_id (ctx, refs, &refs); ... }\<close> of
  \<^verbatim>\<open>parse_references\<close>, with the table and \<^verbatim>\<open>last_ref\<close> as its state.
  \<^verbatim>\<open>strcmp (ref, message_id)\<close> is non-zero when the two strings differ.
\<close>

function parse_references_loop ::
  "cbuf \<Rightarrow> string \<Rightarrow> nat \<Rightarrow> string list \<Rightarrow> string option \<Rightarrow> (string list \<times> string option) option"
where
  "parse_references_loop buf self refs hash last_ref =
     (case rd buf refs of
        None \<Rightarrow> None
      | Some c \<Rightarrow>
          if c \<noteq> NUL then
            (case parse_message_id buf refs of
               None \<Rightarrow> None
             | Some res \<Rightarrow>
                 (case fst res of
                    Some ref \<Rightarrow>
                      if ref \<noteq> self
                      then parse_references_loop buf self (snd res) (g_hash_table_add ref hash) (Some ref)
                      else parse_references_loop buf self (snd res) hash last_ref
                  | None \<Rightarrow> parse_references_loop buf self (snd res) hash last_ref))
          else Some (hash, last_ref))"
  by pat_completeness auto
termination
proof (relation "measure (\<lambda>(buf, self, refs, hash, last_ref). length buf - refs)")
  show "wf (measure (\<lambda>(buf, self, refs, hash, last_ref). length buf - refs))" by simp
next
  fix buf :: cbuf and self :: string and refs :: nat and hash :: "string list"
    and last_ref :: "string option" and c res ref
  assume a: "rd buf refs = Some c" "c \<noteq> NUL" "parse_message_id buf refs = Some res"
  from a(3) have "parse_message_id buf refs = Some (fst res, snd res)" by simp
  from parse_message_id_advance [OF this a(1,2)] have "refs < snd res" .
  moreover from a(1) have "refs < length buf" by (simp add: rd_def split: if_splits)
  ultimately have m: "length buf - snd res < length buf - refs" by simp
  then show "((buf, self, snd res, g_hash_table_add ref hash, Some ref), buf, self, refs, hash, last_ref)
        \<in> measure (\<lambda>(buf, self, refs, hash, last_ref). length buf - refs)" by simp
  from m show "((buf, self, snd res, hash, last_ref), buf, self, refs, hash, last_ref)
        \<in> measure (\<lambda>(buf, self, refs, hash, last_ref). length buf - refs)" by simp
  from m show "((buf, self, snd res, hash, last_ref), buf, self, refs, hash, last_ref)
        \<in> measure (\<lambda>(buf, self, refs, hash, last_ref). length buf - refs)" by simp
qed

declare parse_references_loop.simps [simp del]

text \<open>
  \<^verbatim>\<open>parse_references (ctx, message_id, hash, refs)\<close>. The header value is \<open>None\<close> for
  the null pointer, and otherwise the string that the pointer designates. The result
  is the table after the call, with the returned string (\<open>None\<close> for null).
\<close>

definition parse_references ::
  "string \<Rightarrow> string list \<Rightarrow> string option \<Rightarrow> (string list \<times> string option) option"
where
  "parse_references self hash refs =
     (case refs of
        None \<Rightarrow> Some (hash, None)
      | Some h \<Rightarrow>
          (case rd (c_string h) 0 of
             None \<Rightarrow> None
           | Some c \<Rightarrow>
               if c = NUL then Some (hash, None)
               else parse_references_loop (c_string h) self 0 hash None))"

text \<open>
  The identifiers that repeated calls of \<open>parse_message_id\<close> find in a header, in the
  order in which they are found.
\<close>

function parsed_ids :: "cbuf \<Rightarrow> nat \<Rightarrow> string list" where
  "parsed_ids buf refs =
     (case rd buf refs of
        None \<Rightarrow> []
      | Some c \<Rightarrow>
          if c \<noteq> NUL then
            (case parse_message_id buf refs of
               None \<Rightarrow> []
             | Some res \<Rightarrow>
                 (case fst res of
                    Some ref \<Rightarrow> ref # parsed_ids buf (snd res)
                  | None \<Rightarrow> parsed_ids buf (snd res)))
          else [])"
  by pat_completeness auto
termination
proof (relation "measure (\<lambda>(buf, refs). length buf - refs)")
  show "wf (measure (\<lambda>(buf, refs). length buf - refs))" by simp
next
  fix buf :: cbuf and refs :: nat and c res ref
  assume a: "rd buf refs = Some c" "c \<noteq> NUL" "parse_message_id buf refs = Some res"
  from a(3) have "parse_message_id buf refs = Some (fst res, snd res)" by simp
  from parse_message_id_advance [OF this a(1,2)] have "refs < snd res" .
  moreover from a(1) have "refs < length buf" by (simp add: rd_def split: if_splits)
  ultimately have m: "length buf - snd res < length buf - refs" by simp
  then show "((buf, snd res), buf, refs) \<in> measure (\<lambda>(buf, refs). length buf - refs)" by simp
  from m show "((buf, snd res), buf, refs) \<in> measure (\<lambda>(buf, refs). length buf - refs)" by simp
qed

declare parsed_ids.simps [simp del]

definition header_ids :: "string option \<Rightarrow> string list" where
  "header_ids refs = (case refs of None \<Rightarrow> [] | Some h \<Rightarrow> parsed_ids (c_string h) 0)"


text \<open>
  What \<open>parse_references\<close> returns when it returns: the table with the identifiers of
  the header other than the message's own, and the last of them.
\<close>

lemma parse_references_loop_eq:
  "parse_references_loop buf self p hash last_ref = Some res \<Longrightarrow>
     res = (fold g_hash_table_add (filter (\<lambda>r. r \<noteq> self) (parsed_ids buf p)) hash,
            if filter (\<lambda>r. r \<noteq> self) (parsed_ids buf p) = [] then last_ref
            else Some (last (filter (\<lambda>r. r \<noteq> self) (parsed_ids buf p))))"
proof (induction buf self p hash last_ref rule: parse_references_loop.induct)
  case (1 buf self refs hash last_ref)
  note unf = parse_references_loop.simps [of buf self refs hash last_ref]
    and unf_ids = parsed_ids.simps [of buf refs]
  note ret = "1.prems"
  show ?case
  proof (cases "rd buf refs")
    case None
    with ret show ?thesis by (simp add: unf)
  next
    case (Some c)
    note c = this
    show ?thesis
    proof (cases "c \<noteq> NUL")
      case False
      with c ret show ?thesis by (simp add: unf unf_ids)
    next
      case True
      note go = this
      show ?thesis
      proof (cases "parse_message_id buf refs")
        case None
        with c go ret show ?thesis by (simp add: unf)
      next
        case (Some rn)
        obtain r n where rn: "rn = (r, n)" by (cases rn)
        with Some have res: "parse_message_id buf refs = Some (r, n)" by simp
        show ?thesis
        proof (cases r)
          case None
          then have f: "fst (r, n) = None" by simp
          from ret c go res None
          have "parse_references_loop buf self (snd (r, n)) hash last_ref = Some res"
            by (simp add: unf)
          from "1.IH"(1) [OF c go res f this] c go res None show ?thesis
            by (simp add: unf_ids)
        next
          case (Some ref)
          then have f: "fst (r, n) = Some ref" by simp
          show ?thesis
          proof (cases "ref \<noteq> self")
            case True
            from ret c go res Some True
            have "parse_references_loop buf self (snd (r, n)) (g_hash_table_add ref hash)
                    (Some ref) = Some res"
              by (simp add: unf)
            from "1.IH"(2) [OF c go res f True this] c go res Some True show ?thesis
              by (simp add: unf_ids)
          next
            case False
            from ret c go res Some False
            have "parse_references_loop buf self (snd (r, n)) hash last_ref = Some res"
              by (simp add: unf)
            from "1.IH"(3) [OF c go res f False this] c go res Some False show ?thesis
              by (simp add: unf_ids)
          qed
        qed
      qed
    qed
  qed
qed

lemma parse_references_eq:
  "parse_references self hash refs = Some res \<Longrightarrow>
     res = (fold g_hash_table_add (filter (\<lambda>r. r \<noteq> self) (header_ids refs)) hash,
            if filter (\<lambda>r. r \<noteq> self) (header_ids refs) = [] then None
            else Some (last (filter (\<lambda>r. r \<noteq> self) (header_ids refs))))"
proof (cases refs)
  case None
  assume "parse_references self hash refs = Some res"
  with None show ?thesis by (simp add: parse_references_def header_ids_def)
next
  case (Some h)
  assume ret: "parse_references self hash refs = Some res"
  have p: "0 < length (c_string h)" by (simp add: c_string_def)
  then have c: "rd (c_string h) 0 = Some (c_string h ! 0)" by (simp add: rd_def)
  show ?thesis
  proof (cases "c_string h ! 0 = NUL")
    case True
    with c Some ret show ?thesis
      by (simp add: parse_references_def header_ids_def parsed_ids.simps [of "c_string h" 0])
  next
    case False
    with c Some ret have "parse_references_loop (c_string h) self 0 hash None = Some res"
      by (simp add: parse_references_def)
    from parse_references_loop_eq [OF this] Some show ?thesis
      by (simp add: header_ids_def)
  qed
qed

text \<open>A header of less than \<open>2 ^ 31\<close> bytes is parsed to its end.\<close>

lemma parse_references_loop_short:
  "nul_terminated buf \<Longrightarrow> p < length buf \<Longrightarrow> length buf \<le> 2 ^ 31 \<Longrightarrow>
     \<exists>res. parse_references_loop buf self p hash last_ref = Some res"
proof (induction buf self p hash last_ref rule: parse_references_loop.induct)
  case (1 buf self refs hash last_ref)
  note unf = parse_references_loop.simps [of buf self refs hash last_ref]
  note nt = "1.prems"(1) and sh = "1.prems"(3)
  from "1.prems"(2) have c: "rd buf refs = Some (buf ! refs)" by (simp add: rd_def)
  show ?case
  proof (cases "buf ! refs \<noteq> NUL")
    case False
    with c show ?thesis by (simp add: unf)
  next
    case True
    note go = this
    from parse_message_id_result [OF nt "1.prems"(2) sh] obtain r n where
      res: "parse_message_id buf refs = Some (r, n)" "n < length buf" by blast
    from res(2) have l: "snd (r, n) < length buf" by simp
    show ?thesis
    proof (cases r)
      case None
      then have f: "fst (r, n) = None" by simp
      from "1.IH"(1) [OF c go res(1) f nt l sh] c go res(1) None show ?thesis
        by (simp add: unf)
    next
      case (Some ref)
      then have f: "fst (r, n) = Some ref" by simp
      show ?thesis
      proof (cases "ref \<noteq> self")
        case True
        from "1.IH"(2) [OF c go res(1) f True nt l sh] c go res(1) Some True show ?thesis
          by (simp add: unf)
      next
        case False
        from "1.IH"(3) [OF c go res(1) f False nt l sh] c go res(1) Some False show ?thesis
          by (simp add: unf)
      qed
    qed
  qed
qed

lemma parse_references_short:
  assumes "case refs of None \<Rightarrow> True | Some h \<Rightarrow> length h < 2 ^ 31"
  shows "\<exists>res. parse_references self hash refs = Some res"
proof (cases refs)
  case None
  then show ?thesis by (simp add: parse_references_def)
next
  case (Some h)
  have nt: "nul_terminated (c_string h)" by (simp add: c_string_def nul_terminated_snoc)
  have p: "0 < length (c_string h)" by (simp add: c_string_def)
  from assms Some have sh: "length (c_string h) \<le> 2 ^ 31" by (simp add: c_string_def)
  from p have c: "rd (c_string h) 0 = Some (c_string h ! 0)" by (simp add: rd_def)
  from parse_references_loop_short [OF nt p sh, of self hash None] c Some show ?thesis
    by (simp add: parse_references_def)
qed

lemma set_fold_g_hash_table_add:
  "set (fold g_hash_table_add xs hash) = set hash \<union> set xs"
  by (induction xs arbitrary: hash) (auto simp: g_hash_table_add_def)

lemma distinct_fold_g_hash_table_add:
  "distinct hash \<Longrightarrow> distinct (fold g_hash_table_add xs hash)"
  by (induction xs arbitrary: hash) (auto simp: g_hash_table_add_def)


section \<open>The index, its documents and the message handles\<close>

subsection \<open>Status values and results\<close>

text \<open>
  The values of \<^verbatim>\<open>notmuch_status_t\<close> that the file names or the index functions return.
  \<^verbatim>\<open>notmuch_private_status_t\<close> extends them by values that must not reach a caller of
  the library; \<^verbatim>\<open>COERCE_STATUS\<close> passes a public value through and stops the program
  on a private one.
\<close>

datatype notmuch_status =
    NOTMUCH_STATUS_SUCCESS
  | NOTMUCH_STATUS_OUT_OF_MEMORY
  | NOTMUCH_STATUS_READ_ONLY_DATABASE
  | NOTMUCH_STATUS_XAPIAN_EXCEPTION
  | NOTMUCH_STATUS_FILE_ERROR
  | NOTMUCH_STATUS_FILE_NOT_EMAIL
  | NOTMUCH_STATUS_DUPLICATE_MESSAGE_ID
  | NOTMUCH_STATUS_UNBALANCED_ATOMIC

datatype notmuch_private_status =
    Public notmuch_status
  | NOTMUCH_PRIVATE_STATUS_NO_DOCUMENT_FOUND

text \<open>
  A call either returns, or leaves by a C++ exception of the index
  (\<^verbatim>\<open>Xapian::Error\<close>), or stops the program (\<^verbatim>\<open>INTERNAL_ERROR\<close>, a read through a
  null pointer or outside a block). Both of the latter unwind the callers until
  something catches them; nothing catches the second.
\<close>

datatype exn = Xapian_Error | Internal_Error

datatype 'a result = Ret 'a | Throw exn

subsection \<open>Documents and the database\<close>

text \<open>
  Modelled from the spec: the document of a message (spec section 3, entity Message).
  It has a message-ID, terms (pairs of a field and a value, the fields being
  \<^verbatim>\<open>type\<close>, \<^verbatim>\<open>thread\<close>, \<^verbatim>\<open>reference\<close> and \<^verbatim>\<open>replyto\<close>), a list of filenames, the header
  values (Date, From, Subject) once they are set, and what the external indexer left.
\<close>

record document =
  doc_message_id :: string
  doc_terms :: "(string \<times> string) list"
  doc_filenames :: "string list"
  doc_header_values :: "(string option \<times> string option \<times> string option) option"
  doc_indexed :: bool

text \<open>
  Modelled from the spec: the index (spec section 6, index contract). Documents are
  held by document id, which is the position in \<open>docs\<close>; an id that is reserved for a
  message not yet written holds \<open>None\<close>. Metadata maps a key to a string, the empty
  string meaning absent. \<open>committed_docs\<close> and \<open>committed_metadata\<close> are the state as of
  the last commit. The index may raise an exception in any mutation: \<open>faults\<close> is the
  schedule of the mutations to come, \<open>True\<close> for one that raises; with the schedule
  used up none does.
\<close>

record database =
  docs :: "document option list"
  metadata :: "string \<Rightarrow> string"
  committed_docs :: "document option list"
  committed_metadata :: "string \<Rightarrow> string"
  last_thread_id :: "64 word"
  features_ghosts :: bool
  writable :: bool
  atomic_nesting :: nat
  exception_reported :: bool
  faults :: "bool list"

text \<open>A message handle (\<^verbatim>\<open>notmuch_message_t\<close>): a document id and its own copy of the document.\<close>

record message =
  msg_doc_id :: nat
  msg_doc :: document

text \<open>
  Modelled from the spec: a parsed message file (spec section 1, the header parser and
  the indexer are external). Its headers by lower-case name, \<open>None\<close> for the null
  pointer; the status of parsing it; the status the indexer returns for it.
\<close>

record message_file =
  mf_headers :: "string \<Rightarrow> string option"
  mf_parse_status :: notmuch_status
  mf_index_status :: notmuch_status

text \<open>
  What the file uses and does not define, as parameters: the ceiling
  \<^verbatim>\<open>NOTMUCH_MESSAGE_ID_MAX\<close>, the function \<^verbatim>\<open>_notmuch_message_id_compressed\<close>, the order in
  which \<^verbatim>\<open>g_hash_table_get_keys\<close> lists the keys of a table (given in their order of
  insertion), the files that can be opened, and \<^verbatim>\<open>_notmuch_sha1_of_file\<close>.
\<close>

record env =
  message_id_max :: nat
  message_id_compressed :: "string \<Rightarrow> string"
  hash_table_keys :: "string list \<Rightarrow> string list"
  message_files :: "string \<Rightarrow> message_file option"
  sha1_of_file :: "string \<Rightarrow> string option"

type_synonym 'a xm = "database \<Rightarrow> 'a result \<times> database"

definition xreturn :: "'a \<Rightarrow> 'a xm" where
  "xreturn x db = (Ret x, db)"

definition xthrow :: "exn \<Rightarrow> 'a xm" where
  "xthrow e db = (Throw e, db)"

definition xbind :: "'a xm \<Rightarrow> ('a \<Rightarrow> 'b xm) \<Rightarrow> 'b xm" where
  "xbind m f db = (case m db of (Ret x, db') \<Rightarrow> f x db' | (Throw e, db') \<Rightarrow> (Throw e, db'))"

definition coerce_status :: "notmuch_private_status \<Rightarrow> notmuch_status xm" where
  "coerce_status private_status =
     (case private_status of
        Public s \<Rightarrow> xreturn s
      | NOTMUCH_PRIVATE_STATUS_NO_DOCUMENT_FOUND \<Rightarrow> xthrow Internal_Error)"

subsection \<open>Index operations\<close>

text \<open>
  Modelled from the spec: the mutations of the index (spec section 6:
  \<^verbatim>\<open>set_metadata\<close>, sync document) consult the fault schedule; one that raises changes
  nothing else.
\<close>

definition xapian_write :: "(database \<Rightarrow> database) \<Rightarrow> unit xm" where
  "xapian_write f db =
     (if faults db \<noteq> [] \<and> hd (faults db)
      then (Throw Xapian_Error, db\<lparr>faults := tl (faults db)\<rparr>)
      else (Ret (), (f db)\<lparr>faults := tl (faults db)\<rparr>))"

definition set_metadata :: "string \<Rightarrow> string \<Rightarrow> unit xm" where
  "set_metadata key val = xapian_write (\<lambda>db. db\<lparr>metadata := (metadata db)(key := val)\<rparr>)"

definition get_metadata :: "database \<Rightarrow> string \<Rightarrow> string" where
  "get_metadata db key = metadata db key"

text \<open>
  Modelled from the spec: the term posting query (spec section 6), in the order of the
  document ids, taken when the query is made.
\<close>

definition has_term :: "document option \<Rightarrow> string \<Rightarrow> string \<Rightarrow> bool" where
  "has_term d prefix val =
     (case d of None \<Rightarrow> False | Some doc \<Rightarrow> (prefix, val) \<in> set (doc_terms doc))"

definition notmuch_database_find_doc_ids :: "database \<Rightarrow> string \<Rightarrow> string \<Rightarrow> nat list" where
  "notmuch_database_find_doc_ids db prefix val =
     filter (\<lambda>i. has_term (docs db ! i) prefix val) [0..<length (docs db)]"

definition has_message_id :: "document option \<Rightarrow> string \<Rightarrow> bool" where
  "has_message_id d mid = (case d of None \<Rightarrow> False | Some doc \<Rightarrow> doc_message_id doc = mid)"

definition find_doc_id_by_message_id :: "database \<Rightarrow> string \<Rightarrow> nat option" where
  "find_doc_id_by_message_id db mid =
     List.find (\<lambda>i. has_message_id (docs db ! i) mid) [0..<length (docs db)]"

subsection \<open>Message handles\<close>

text \<open>
  Modelled from the spec: the per-document mutations (spec section 6: add term, remove
  term, sync document) and the reads of a handle. Adding a term that is present and
  removing one that is absent change nothing. \<^verbatim>\<open>notmuch_message_get_thread_id\<close> stops
  the program on a document without a \<^verbatim>\<open>thread\<close> term.
\<close>

definition notmuch_message_add_term :: "message \<Rightarrow> string \<Rightarrow> string \<Rightarrow> message" where
  "notmuch_message_add_term m prefix val =
     m\<lparr>msg_doc := (msg_doc m)\<lparr>doc_terms :=
        (if (prefix, val) \<in> set (doc_terms (msg_doc m)) then doc_terms (msg_doc m)
         else doc_terms (msg_doc m) @ [(prefix, val)])\<rparr>\<rparr>"

definition notmuch_message_remove_term :: "message \<Rightarrow> string \<Rightarrow> string \<Rightarrow> message" where
  "notmuch_message_remove_term m prefix val =
     m\<lparr>msg_doc := (msg_doc m)\<lparr>doc_terms :=
        filter (\<lambda>t. t \<noteq> (prefix, val)) (doc_terms (msg_doc m))\<rparr>\<rparr>"

definition notmuch_message_sync :: "message \<Rightarrow> unit xm" where
  "notmuch_message_sync m =
     xapian_write (\<lambda>db. db\<lparr>docs := (docs db)[msg_doc_id m := Some (msg_doc m)]\<rparr>)"

definition thread_ids :: "document \<Rightarrow> string list" where
  "thread_ids d = map snd (filter (\<lambda>t. fst t = ''thread'') (doc_terms d))"

definition notmuch_message_get_thread_id :: "message \<Rightarrow> string xm" where
  "notmuch_message_get_thread_id m =
     (case thread_ids (msg_doc m) of
        [] \<Rightarrow> xthrow Internal_Error
      | t # ts \<Rightarrow> xreturn t)"

definition notmuch_message_get_message_id :: "message \<Rightarrow> string" where
  "notmuch_message_get_message_id m = doc_message_id (msg_doc m)"

definition notmuch_message_get_flag_ghost :: "message \<Rightarrow> bool" where
  "notmuch_message_get_flag_ghost m = ((''type'', ''ghost'') \<in> set (doc_terms (msg_doc m)))"

definition notmuch_message_add_filename :: "message \<Rightarrow> string \<Rightarrow> message" where
  "notmuch_message_add_filename m filename =
     m\<lparr>msg_doc := (msg_doc m)\<lparr>doc_filenames :=
        (if filename \<in> set (doc_filenames (msg_doc m)) then doc_filenames (msg_doc m)
         else doc_filenames (msg_doc m) @ [filename])\<rparr>\<rparr>"

definition notmuch_message_set_header_values ::
  "message \<Rightarrow> string option \<Rightarrow> string option \<Rightarrow> string option \<Rightarrow> message" where
  "notmuch_message_set_header_values m date from subject =
     m\<lparr>msg_doc := (msg_doc m)\<lparr>doc_header_values := Some (date, from, subject)\<rparr>\<rparr>"

definition notmuch_message_index_file :: "message \<Rightarrow> message_file \<Rightarrow> notmuch_status \<times> message" where
  "notmuch_message_index_file m mf =
     (if mf_index_status mf = NOTMUCH_STATUS_SUCCESS
      then (NOTMUCH_STATUS_SUCCESS, m\<lparr>msg_doc := (msg_doc m)\<lparr>doc_indexed := True\<rparr>\<rparr>)
      else (mf_index_status mf, m))"

text \<open>
  Modelled from the spec: \<^verbatim>\<open>_notmuch_message_create\<close> makes a handle for a document id,
  with a copy of the document as the index has it, and fails with
  \<^verbatim>\<open>NO_DOCUMENT_FOUND\<close> where the index holds none.
\<close>

definition notmuch_message_create :: "database \<Rightarrow> nat \<Rightarrow> message option \<times> notmuch_private_status" where
  "notmuch_message_create db doc_id =
     (if doc_id < length (docs db) then
        (case docs db ! doc_id of
           Some d \<Rightarrow> (Some \<lparr>msg_doc_id = doc_id, msg_doc = d\<rparr>, Public NOTMUCH_STATUS_SUCCESS)
         | None \<Rightarrow> (None, NOTMUCH_PRIVATE_STATUS_NO_DOCUMENT_FOUND))
      else (None, NOTMUCH_PRIVATE_STATUS_NO_DOCUMENT_FOUND))"

text \<open>
  Modelled from the spec: \<^verbatim>\<open>_notmuch_message_create_for_message_id\<close> is
  \<open>find_or_create\<close> of spec section 4.4. For a message-ID that has a document, real or
  ghost, it returns a handle on it with \<^verbatim>\<open>SUCCESS\<close>; otherwise a handle on a blank
  document, under a newly reserved document id, with \<^verbatim>\<open>NO_DOCUMENT_FOUND\<close>; the blank
  document reaches the index when the handle is synced.
\<close>

definition blank_document :: "string \<Rightarrow> document" where
  "blank_document mid =
     \<lparr>doc_message_id = mid, doc_terms = [], doc_filenames = [],
      doc_header_values = None, doc_indexed = False\<rparr>"

definition notmuch_message_create_for_message_id ::
  "string \<Rightarrow> (message option \<times> notmuch_private_status) xm" where
  "notmuch_message_create_for_message_id mid db =
     (case find_doc_id_by_message_id db mid of
        Some doc_id \<Rightarrow> (Ret (notmuch_message_create db doc_id), db)
      | None \<Rightarrow>
          (Ret (Some \<lparr>msg_doc_id = length (docs db), msg_doc = blank_document mid\<rparr>,
                NOTMUCH_PRIVATE_STATUS_NO_DOCUMENT_FOUND),
           db\<lparr>docs := docs db @ [None]\<rparr>))"

text \<open>
  Modelled from the spec: \<^verbatim>\<open>notmuch_database_find_message\<close> looks a message-ID up
  (spec section 4.5, step E, legacy format) and returns its handle or null.
\<close>

definition notmuch_database_find_message :: "database \<Rightarrow> string \<Rightarrow> notmuch_status \<times> message option" where
  "notmuch_database_find_message db mid =
     (case find_doc_id_by_message_id db mid of
        Some doc_id \<Rightarrow> (NOTMUCH_STATUS_SUCCESS, fst (notmuch_message_create db doc_id))
      | None \<Rightarrow> (NOTMUCH_STATUS_SUCCESS, None))"

text \<open>
  Modelled from the spec: \<^verbatim>\<open>_notmuch_message_initialize_ghost\<close> makes a blank document
  a ghost with the given thread-ID (spec section 4.4, \<open>materialise_ghost\<close>).
\<close>

definition notmuch_message_initialize_ghost :: "message \<Rightarrow> string \<Rightarrow> notmuch_private_status \<times> message" where
  "notmuch_message_initialize_ghost m thread_id =
     (Public NOTMUCH_STATUS_SUCCESS,
      notmuch_message_add_term (notmuch_message_add_term m ''type'' ''ghost'') ''thread'' thread_id)"


section \<open>Thread identifiers and linking (add-message.cc, lines 144 to 562)\<close>

text \<open>\<^verbatim>\<open>sprintf (thread_id, "%016" PRIx64, ...)\<close>: sixteen lower-case hexadecimal digits.\<close>

definition hex_digit :: "nat \<Rightarrow> char" where
  "hex_digit n = ''0123456789abcdef'' ! n"

definition hex16 :: "64 word \<Rightarrow> string" where
  "hex16 w = map (\<lambda>i. hex_digit (unat (take_bit 4 (drop_bit (4 * i) w)))) (rev [0..<16])"

definition notmuch_database_generate_thread_id :: "string xm" where
  "notmuch_database_generate_thread_id db =
     (let db1 = db\<lparr>last_thread_id := last_thread_id db + 1\<rparr>;
          thread_id = hex16 (last_thread_id db1)
      in xbind (set_metadata ''last_thread_id'' thread_id) (\<lambda>_. xreturn thread_id) db1)"

definition get_metadata_thread_id_key :: "env \<Rightarrow> string \<Rightarrow> string" where
  "get_metadata_thread_id_key e message_id =
     ''thread_id_'' @
       (if message_id_max e < length message_id then message_id_compressed e message_id
        else message_id)"

text \<open>\<^verbatim>\<open>_resolve_message_id_to_thread_id_old\<close>, lines 237 to 283.\<close>

definition resolve_message_id_to_thread_id_old :: "env \<Rightarrow> string \<Rightarrow> (notmuch_status \<times> string option) xm" where
  "resolve_message_id_to_thread_id_old e message_id db =
     (case notmuch_database_find_message db message_id of
        (status, message) \<Rightarrow>
          if status \<noteq> NOTMUCH_STATUS_SUCCESS then xreturn (status, None) db
          else
            (case message of
               Some m \<Rightarrow>
                 xbind (notmuch_message_get_thread_id m)
                   (\<lambda>t. xreturn (NOTMUCH_STATUS_SUCCESS, Some t)) db
             | None \<Rightarrow>
                 (let metadata_key = get_metadata_thread_id_key e message_id;
                      thread_id_string = get_metadata db metadata_key
                  in if thread_id_string = [] then
                       xbind notmuch_database_generate_thread_id
                         (\<lambda>t. xbind (set_metadata metadata_key t)
                            (\<lambda>_. xreturn (NOTMUCH_STATUS_SUCCESS, Some t))) db
                     else xreturn (NOTMUCH_STATUS_SUCCESS, Some thread_id_string) db)))"

text \<open>
  \<^verbatim>\<open>_resolve_message_id_to_thread_id\<close>, lines 193 to 233. The result pairs the status
  with \<^verbatim>\<open>*thread_id_ret\<close>. The two branches that use \<^verbatim>\<open>message\<close> dereference it.
\<close>

definition resolve_message_id_to_thread_id :: "env \<Rightarrow> string \<Rightarrow> (notmuch_status \<times> string option) xm" where
  "resolve_message_id_to_thread_id e message_id db =
     (if \<not> features_ghosts db then resolve_message_id_to_thread_id_old e message_id db
      else
        xbind (notmuch_message_create_for_message_id message_id)
          (\<lambda>(message, status).
             if status = Public NOTMUCH_STATUS_SUCCESS then
               (case message of
                  None \<Rightarrow> xthrow Internal_Error
                | Some m \<Rightarrow>
                    xbind (notmuch_message_get_thread_id m)
                      (\<lambda>t. xbind (coerce_status status) (\<lambda>st. xreturn (st, Some t))))
             else if status = NOTMUCH_PRIVATE_STATUS_NO_DOCUMENT_FOUND then
               xbind notmuch_database_generate_thread_id
                 (\<lambda>t. case message of
                     None \<Rightarrow> xthrow Internal_Error
                   | Some m \<Rightarrow>
                       (case notmuch_message_initialize_ghost m t of
                          (status', m') \<Rightarrow>
                            xbind (if status' = Public NOTMUCH_STATUS_SUCCESS
                                   then notmuch_message_sync m' else xreturn ())
                              (\<lambda>_. xbind (coerce_status status') (\<lambda>st. xreturn (st, Some t)))))
             else xbind (coerce_status status) (\<lambda>st. xreturn (st, None))) db)"

text \<open>
  \<^verbatim>\<open>_merge_threads\<close>, lines 285 to 319: the loop over the documents that carry the
  loser's \<^verbatim>\<open>thread\<close> term, and the function that makes the query and runs it.
\<close>

fun merge_threads_loop :: "string \<Rightarrow> string \<Rightarrow> nat list \<Rightarrow> notmuch_status xm" where
  "merge_threads_loop winner_thread_id loser_thread_id [] = xreturn NOTMUCH_STATUS_SUCCESS"
| "merge_threads_loop winner_thread_id loser_thread_id (loser # rest) =
     (\<lambda>db. case notmuch_message_create db loser of
        (None, private_status) \<Rightarrow> coerce_status private_status db
      | (Some message, private_status) \<Rightarrow>
          xbind (notmuch_message_sync
                   (notmuch_message_add_term
                      (notmuch_message_remove_term message ''thread'' loser_thread_id)
                      ''thread'' winner_thread_id))
            (\<lambda>_. merge_threads_loop winner_thread_id loser_thread_id rest) db)"

definition merge_threads :: "string \<Rightarrow> string \<Rightarrow> notmuch_status xm" where
  "merge_threads winner_thread_id loser_thread_id db =
     merge_threads_loop winner_thread_id loser_thread_id
       (notmuch_database_find_doc_ids db ''thread'' loser_thread_id) db"

text \<open>
  \<^verbatim>\<open>_notmuch_database_link_message_to_parents\<close>, lines 327 to 398. The loop over the keys
  of the table comes first; its result is the status, the handle and \<^verbatim>\<open>*thread_id\<close>.
\<close>

fun link_parents_loop ::
  "env \<Rightarrow> string list \<Rightarrow> message \<Rightarrow> string option \<Rightarrow> (notmuch_status \<times> message \<times> string option) xm"
where
  "link_parents_loop e [] message thread_id = xreturn (NOTMUCH_STATUS_SUCCESS, message, thread_id)"
| "link_parents_loop e (parent_message_id # l) message thread_id =
     (let message1 = notmuch_message_add_term message ''reference'' parent_message_id
      in xbind (resolve_message_id_to_thread_id e parent_message_id)
           (\<lambda>(ret, parent_thread_id).
              if ret \<noteq> NOTMUCH_STATUS_SUCCESS then xreturn (ret, message1, thread_id)
              else
                (case parent_thread_id of
                   None \<Rightarrow> xthrow Internal_Error
                 | Some ptid \<Rightarrow>
                     (case thread_id of
                        None \<Rightarrow>
                          link_parents_loop e l
                            (notmuch_message_add_term message1 ''thread'' ptid) (Some ptid)
                      | Some tid \<Rightarrow>
                          if tid \<noteq> ptid then
                            xbind (merge_threads tid ptid)
                              (\<lambda>ret. if ret \<noteq> NOTMUCH_STATUS_SUCCESS
                                      then xreturn (ret, message1, thread_id)
                                      else link_parents_loop e l message1 thread_id)
                          else link_parents_loop e l message1 thread_id))))"

definition link_message_to_parents ::
  "env \<Rightarrow> message \<Rightarrow> message_file \<Rightarrow> string option \<Rightarrow> (notmuch_status \<times> message \<times> string option) xm"
where
  "link_message_to_parents e message mf thread_id =
     (let this_message_id = notmuch_message_get_message_id message;
          refs = mf_headers mf ''references''
      in case parse_references this_message_id [] refs of
           None \<Rightarrow> xthrow Internal_Error
         | Some (parents1, last_ref_message_id) \<Rightarrow>
             (let in_reply_to = mf_headers mf ''in-reply-to''
              in case parse_references this_message_id parents1 in_reply_to of
                   None \<Rightarrow> xthrow Internal_Error
                 | Some (parents, in_reply_to_message_id) \<Rightarrow>
                     (let message1 =
                            (case last_ref_message_id of
                               Some r \<Rightarrow> notmuch_message_add_term message ''replyto'' r
                             | None \<Rightarrow>
                                 (case in_reply_to_message_id of
                                    Some r \<Rightarrow> notmuch_message_add_term message ''replyto'' r
                                  | None \<Rightarrow> message));
                          keys = hash_table_keys e parents
                      in link_parents_loop e keys message1 thread_id)))"

text \<open>\<^verbatim>\<open>_notmuch_database_link_message_to_children\<close>, lines 400 to 446.\<close>

fun link_children_loop ::
  "string \<Rightarrow> nat list \<Rightarrow> message \<Rightarrow> string option \<Rightarrow> (notmuch_status \<times> message \<times> string option) xm"
where
  "link_children_loop message_id [] message thread_id =
     xreturn (NOTMUCH_STATUS_SUCCESS, message, thread_id)"
| "link_children_loop message_id (child # rest) message thread_id =
     (\<lambda>db. case notmuch_message_create db child of
        (None, private_status) \<Rightarrow>
          xbind (coerce_status private_status) (\<lambda>ret. xreturn (ret, message, thread_id)) db
      | (Some child_message, private_status) \<Rightarrow>
          xbind (notmuch_message_get_thread_id child_message)
            (\<lambda>child_thread_id.
               case thread_id of
                 None \<Rightarrow>
                   link_children_loop message_id rest
                     (notmuch_message_add_term message ''thread'' child_thread_id)
                     (Some child_thread_id)
               | Some tid \<Rightarrow>
                   if tid \<noteq> child_thread_id then
                     xbind (notmuch_message_sync
                              (notmuch_message_remove_term child_message ''reference'' message_id))
                       (\<lambda>_. xbind (merge_threads tid child_thread_id)
                          (\<lambda>ret. if ret \<noteq> NOTMUCH_STATUS_SUCCESS
                                  then xreturn (ret, message, thread_id)
                                  else link_children_loop message_id rest message thread_id))
                   else link_children_loop message_id rest message thread_id) db)"

definition link_message_to_children ::
  "message \<Rightarrow> string option \<Rightarrow> (notmuch_status \<times> message \<times> string option) xm"
where
  "link_message_to_children message thread_id db =
     (let message_id = notmuch_message_get_message_id message
      in link_children_loop message_id
           (notmuch_database_find_doc_ids db ''reference'' message_id) message thread_id db)"

text \<open>\<^verbatim>\<open>_consume_metadata_thread_id\<close>, lines 449 to 477.\<close>

definition consume_metadata_thread_id :: "env \<Rightarrow> message \<Rightarrow> string option xm" where
  "consume_metadata_thread_id e message db =
     (let message_id = notmuch_message_get_message_id message;
          metadata_key = get_metadata_thread_id_key e message_id;
          stored_id = get_metadata db metadata_key
      in if stored_id = [] then xreturn None db
         else xbind (set_metadata metadata_key []) (\<lambda>_. xreturn (Some stored_id)) db)"

text \<open>
  \<^verbatim>\<open>_notmuch_database_link_message\<close>, lines 507 to 562. The result is the status and the
  handle with the terms that linking added.
\<close>

definition link_message ::
  "env \<Rightarrow> message \<Rightarrow> message_file \<Rightarrow> bool \<Rightarrow> (notmuch_status \<times> message) xm"
where
  "link_message e message mf is_ghost db =
     xbind
       (if features_ghosts db then
          (if is_ghost
           then xbind (notmuch_message_get_thread_id message) (\<lambda>t. xreturn (message, Some t))
           else xreturn (message, None))
        else
          xbind (consume_metadata_thread_id e message)
            (\<lambda>thread_id. case thread_id of
                 Some t \<Rightarrow> xreturn (notmuch_message_add_term message ''thread'' t, Some t)
               | None \<Rightarrow> xreturn (message, None)))
       (\<lambda>(message0, thread_id0).
          xbind (link_message_to_parents e message0 mf thread_id0)
            (\<lambda>(status, message1, thread_id1).
               if status \<noteq> NOTMUCH_STATUS_SUCCESS then xreturn (status, message1)
               else
                 xbind
                   (if \<not> features_ghosts db
                    then link_message_to_children message1 thread_id1
                    else xreturn (NOTMUCH_STATUS_SUCCESS, message1, thread_id1))
                   (\<lambda>(status, message2, thread_id2).
                      if status \<noteq> NOTMUCH_STATUS_SUCCESS then xreturn (status, message2)
                      else
                        (case thread_id2 of
                           None \<Rightarrow>
                             xbind notmuch_database_generate_thread_id
                               (\<lambda>t. xreturn (NOTMUCH_STATUS_SUCCESS,
                                              notmuch_message_add_term message2 ''thread'' t))
                         | Some t \<Rightarrow> xreturn (NOTMUCH_STATUS_SUCCESS, message2))))) db"


section \<open>Adding a message (add-message.cc, lines 564 to 721)\<close>

text \<open>
  Modelled from the spec: \<^verbatim>\<open>_notmuch_database_ensure_writable\<close>,
  \<^verbatim>\<open>notmuch_database_begin_atomic\<close> and \<^verbatim>\<open>notmuch_database_end_atomic\<close> (spec sections 5,
  6 and 9: a counting pair, of which the outermost commits and the inner ones do
  nothing; \<^verbatim>\<open>end_atomic\<close> can fail). Opening and committing the transaction of the
  index are mutations that consult the fault schedule; the two functions catch the
  exception themselves and report it as a status.
\<close>

definition notmuch_database_ensure_writable :: "database \<Rightarrow> notmuch_status" where
  "notmuch_database_ensure_writable db =
     (if writable db then NOTMUCH_STATUS_SUCCESS else NOTMUCH_STATUS_READ_ONLY_DATABASE)"

definition notmuch_database_begin_atomic :: "database \<Rightarrow> notmuch_status \<times> database" where
  "notmuch_database_begin_atomic db =
     (if \<not> writable db \<or> 0 < atomic_nesting db
      then (NOTMUCH_STATUS_SUCCESS, db\<lparr>atomic_nesting := atomic_nesting db + 1\<rparr>)
      else
        (case xapian_write (\<lambda>db. db) db of
           (Ret u, db') \<Rightarrow> (NOTMUCH_STATUS_SUCCESS, db'\<lparr>atomic_nesting := atomic_nesting db' + 1\<rparr>)
         | (Throw x, db') \<Rightarrow> (NOTMUCH_STATUS_XAPIAN_EXCEPTION, db'\<lparr>exception_reported := True\<rparr>)))"

definition notmuch_database_end_atomic :: "database \<Rightarrow> notmuch_status \<times> database" where
  "notmuch_database_end_atomic db =
     (if atomic_nesting db = 0 then (NOTMUCH_STATUS_UNBALANCED_ATOMIC, db)
      else if \<not> writable db \<or> 1 < atomic_nesting db
      then (NOTMUCH_STATUS_SUCCESS, db\<lparr>atomic_nesting := atomic_nesting db - 1\<rparr>)
      else
        (case xapian_write
                (\<lambda>db. db\<lparr>committed_docs := docs db, committed_metadata := metadata db\<rparr>) db of
           (Ret u, db') \<Rightarrow> (NOTMUCH_STATUS_SUCCESS, db'\<lparr>atomic_nesting := atomic_nesting db' - 1\<rparr>)
         | (Throw x, db') \<Rightarrow> (NOTMUCH_STATUS_XAPIAN_EXCEPTION, db'\<lparr>exception_reported := True\<rparr>)))"

text \<open>A header value that is the null pointer or the empty string.\<close>

definition null_or_empty :: "string option \<Rightarrow> bool" where
  "null_or_empty h = (case h of None \<Rightarrow> True | Some s \<Rightarrow> s = [])"

text \<open>
  Lines 620 to 645: the message-ID of the file. The result is \<open>None\<close> where the source
  gives up with \<^verbatim>\<open>NOTMUCH_STATUS_FILE_ERROR\<close>.
\<close>

definition find_message_id :: "env \<Rightarrow> string \<Rightarrow> message_file \<Rightarrow> string option xm" where
  "find_message_id e filename mf =
     (let header = mf_headers mf ''message-id''
      in xbind
           (if \<not> null_or_empty header then
              (case parse_message_id (c_string (the header)) 0 of
                 None \<Rightarrow> xthrow Internal_Error
               | Some (Some message_id, nxt) \<Rightarrow> xreturn (Some message_id)
               | Some (None, nxt) \<Rightarrow> xreturn header)
            else xreturn None)
           (\<lambda>message_id.
              case message_id of
                Some m \<Rightarrow> xreturn (Some m)
              | None \<Rightarrow>
                  (case sha1_of_file e filename of
                     None \<Rightarrow> xreturn None
                   | Some sha1 \<Rightarrow> xreturn (Some (''notmuch-sha1-'' @ sha1)))))"

text \<open>
  Lines 647 to 693: the body of the \<^verbatim>\<open>try\<close> block. The result is \<^verbatim>\<open>ret\<close> and the
  variable \<^verbatim>\<open>message\<close> as they are at the label \<^verbatim>\<open>DONE\<close>.
\<close>

definition add_message_try ::
  "env \<Rightarrow> string \<Rightarrow> message_file \<Rightarrow> string \<Rightarrow> string option \<Rightarrow> string option
     \<Rightarrow> (notmuch_status \<times> message option) xm"
where
  "add_message_try e filename mf message_id from subject =
     xbind (notmuch_message_create_for_message_id message_id)
       (\<lambda>(message, private_status).
          case message of
            None \<Rightarrow> xbind (coerce_status private_status) (\<lambda>ret. xreturn (ret, None))
          | Some m \<Rightarrow>
              (let m1 = notmuch_message_add_filename m filename;
                   is_ghost = (private_status \<noteq> NOTMUCH_PRIVATE_STATUS_NO_DOCUMENT_FOUND \<and>
                               notmuch_message_get_flag_ghost m1)
               in if private_status = NOTMUCH_PRIVATE_STATUS_NO_DOCUMENT_FOUND \<or> is_ghost then
                    (let m2 = notmuch_message_add_term m1 ''type'' ''mail'';
                         m3 = (if is_ghost then notmuch_message_remove_term m2 ''type'' ''ghost''
                               else m2)
                     in xbind (link_message e m3 mf is_ghost)
                          (\<lambda>(ret, m4).
                             if ret \<noteq> NOTMUCH_STATUS_SUCCESS then xreturn (ret, Some m4)
                             else
                               (let date = mf_headers mf ''date'';
                                    m5 = notmuch_message_set_header_values m4 date from subject
                                in case notmuch_message_index_file m5 mf of
                                     (ret, m6) \<Rightarrow>
                                       if ret \<noteq> NOTMUCH_STATUS_SUCCESS then xreturn (ret, Some m6)
                                       else xbind (notmuch_message_sync m6)
                                              (\<lambda>_. xreturn (NOTMUCH_STATUS_SUCCESS, Some m6)))))
                  else
                    xbind (notmuch_message_sync m1)
                      (\<lambda>_. xreturn (NOTMUCH_STATUS_DUPLICATE_MESSAGE_ID, Some m1))))"

text \<open>
  Lines 592 to 700, from \<^verbatim>\<open>notmuch_database_begin_atomic\<close> to the label \<^verbatim>\<open>DONE\<close>, with
  the \<^verbatim>\<open>catch\<close> clause: an exception of the index becomes
  \<^verbatim>\<open>NOTMUCH_STATUS_XAPIAN_EXCEPTION\<close> and sets \<^verbatim>\<open>exception_reported\<close>.
\<close>

definition add_message_to_done ::
  "env \<Rightarrow> string \<Rightarrow> message_file \<Rightarrow> (notmuch_status \<times> message option) xm"
where
  "add_message_to_done e filename mf db =
     (case notmuch_database_begin_atomic db of
        (ret, db1) \<Rightarrow>
          if ret \<noteq> NOTMUCH_STATUS_SUCCESS then (Ret (ret, None), db1)
          else if mf_parse_status mf \<noteq> NOTMUCH_STATUS_SUCCESS
          then (Ret (mf_parse_status mf, None), db1)
          else
            (let from = mf_headers mf ''from'';
                 subject = mf_headers mf ''subject'';
                 to = mf_headers mf ''to''
             in if null_or_empty from \<and> null_or_empty subject \<and> null_or_empty to
                then (Ret (NOTMUCH_STATUS_FILE_NOT_EMAIL, None), db1)
                else
                  (case find_message_id e filename mf db1 of
                     (Throw x, db2) \<Rightarrow> (Throw x, db2)
                   | (Ret None, db2) \<Rightarrow> (Ret (NOTMUCH_STATUS_FILE_ERROR, None), db2)
                   | (Ret (Some message_id), db2) \<Rightarrow>
                       (case add_message_try e filename mf message_id from subject db2 of
                          (Throw Xapian_Error, db3) \<Rightarrow>
                            (Ret (NOTMUCH_STATUS_XAPIAN_EXCEPTION, None),
                             db3\<lparr>exception_reported := True\<rparr>)
                        | (Throw Internal_Error, db3) \<Rightarrow> (Throw Internal_Error, db3)
                        | (Ret r, db3) \<Rightarrow> (Ret r, db3)))))"

text \<open>
  \<^verbatim>\<open>notmuch_database_add_message\<close>. The result is the status returned and the handle
  stored through \<^verbatim>\<open>message_ret\<close>.
\<close>

definition notmuch_database_add_message ::
  "env \<Rightarrow> string \<Rightarrow> (notmuch_status \<times> message option) xm"
where
  "notmuch_database_add_message e filename db =
     (let ret = notmuch_database_ensure_writable db
      in if ret \<noteq> NOTMUCH_STATUS_SUCCESS then (Ret (ret, None), db)
         else
           (case message_files e filename of
              None \<Rightarrow> (Ret (NOTMUCH_STATUS_FILE_ERROR, None), db)
            | Some mf \<Rightarrow>
                (case add_message_to_done e filename mf db of
                   (Throw x, db1) \<Rightarrow> (Throw x, db1)
                 | (Ret (ret, message), db1) \<Rightarrow>
                     (let message_ret =
                            (if ret = NOTMUCH_STATUS_SUCCESS \<or>
                                ret = NOTMUCH_STATUS_DUPLICATE_MESSAGE_ID
                             then message else None)
                      in case notmuch_database_end_atomic db1 of
                           (ret2, db2) \<Rightarrow>
                             (Ret (if (ret = NOTMUCH_STATUS_SUCCESS \<or>
                                       ret = NOTMUCH_STATUS_DUPLICATE_MESSAGE_ID) \<and>
                                      ret2 \<noteq> NOTMUCH_STATUS_SUCCESS
                                   then ret2 else ret, message_ret), db2)))))"


section \<open>Reasoning about calls\<close>

lemma xreturn_apply [simp]: "xreturn x db = (Ret x, db)"
  by (simp add: xreturn_def)

lemma xthrow_apply [simp]: "xthrow x db = (Throw x, db)"
  by (simp add: xthrow_def)

lemma xbind_Ret: "m db = (Ret x, db') \<Longrightarrow> xbind m f db = f x db'"
  by (simp add: xbind_def)

lemma xbind_Throw: "m db = (Throw x, db') \<Longrightarrow> xbind m f db = (Throw x, db')"
  by (simp add: xbind_def)

lemma xbind_xreturn [simp]: "xbind (xreturn x) f = f x"
  by (rule ext) (simp add: xbind_def)

lemma xbind_xthrow [simp]: "xbind (xthrow x) f = xthrow x"
  by (rule ext) (simp add: xbind_def)

lemma xbind_RetE:
  assumes "xbind m f db = (Ret y, db2)"
  obtains x db1 where "m db = (Ret x, db1)" and "f x db1 = (Ret y, db2)"
proof (cases "m db")
  case (Pair r db1)
  with assms show ?thesis
    by (cases r) (auto simp: xbind_def intro: that)
qed

lemma xbind_ThrowE:
  assumes "xbind m f db = (Throw z, db2)"
  obtains (first) "m db = (Throw z, db2)"
    | (second) x db1 where "m db = (Ret x, db1)" and "f x db1 = (Throw z, db2)"
proof (cases "m db")
  case (Pair r db1)
  with assms show ?thesis
    by (cases r) (auto simp: xbind_def intro: first second)
qed

text \<open>A mutation either raises, changing only the schedule, or happens.\<close>

lemma xapian_write_Ret:
  "xapian_write f db = (Ret u, db') \<Longrightarrow> db' = (f db)\<lparr>faults := tl (faults db)\<rparr>"
  by (simp add: xapian_write_def split: if_splits)

lemma xapian_write_Throw:
  "xapian_write f db = (Throw x, db') \<Longrightarrow> x = Xapian_Error \<and> db' = db\<lparr>faults := tl (faults db)\<rparr>"
  by (simp add: xapian_write_def split: if_splits)

lemma xapian_write_quiet:
  "faults db = [] \<or> \<not> hd (faults db) \<Longrightarrow>
     xapian_write f db = (Ret (), (f db)\<lparr>faults := tl (faults db)\<rparr>)"
  by (auto simp: xapian_write_def)

lemma end_atomic_keeps:
  assumes "notmuch_database_end_atomic db = (ret2, db2)"
  shows "docs db2 = docs db \<and> metadata db2 = metadata db \<and>
         last_thread_id db2 = last_thread_id db \<and>
         features_ghosts db2 = features_ghosts db \<and> writable db2 = writable db \<and>
         (exception_reported db \<longrightarrow> exception_reported db2)"
proof (cases "atomic_nesting db = 0 \<or> \<not> writable db \<or> 1 < atomic_nesting db")
  case True
  with assms show ?thesis by (auto simp: notmuch_database_end_atomic_def split: if_splits)
next
  case False
  let ?f = "\<lambda>db. db\<lparr>committed_docs := docs db, committed_metadata := metadata db\<rparr>"
  obtain r db' where w: "xapian_write ?f db = (r, db')" by (cases "xapian_write ?f db")
  show ?thesis
  proof (cases r)
    case (Ret u)
    with w have "db' = (?f db)\<lparr>faults := tl (faults db)\<rparr>"
      using xapian_write_Ret [of ?f db u db'] by simp
    with assms False w Ret show ?thesis by (auto simp: notmuch_database_end_atomic_def)
  next
    case (Throw x)
    with w have "db' = db\<lparr>faults := tl (faults db)\<rparr>"
      using xapian_write_Throw [of ?f db x db'] by simp
    with assms False w Throw show ?thesis by (auto simp: notmuch_database_end_atomic_def)
  qed
qed

text \<open>
  Claim C8. Where \<^verbatim>\<open>add\<close> reaches the label \<^verbatim>\<open>DONE\<close> with the status \<open>ret\<close> and
  \<^verbatim>\<open>notmuch_database_end_atomic\<close> then returns \<open>ret2\<close>, it returns \<open>ret2\<close> when \<open>ret\<close> is
  \<^verbatim>\<open>SUCCESS\<close> or \<^verbatim>\<open>DUPLICATE_MESSAGE_ID\<close> and \<open>ret2\<close> is a failure, and \<open>ret\<close> otherwise.
\<close>

theorem add_message_end_atomic_status:
  assumes "notmuch_database_ensure_writable db = NOTMUCH_STATUS_SUCCESS"
    and "message_files e filename = Some mf"
    and "add_message_to_done e filename mf db = (Ret (ret, message), db1)"
    and "notmuch_database_end_atomic db1 = (ret2, db2)"
  shows "\<exists>message_ret. notmuch_database_add_message e filename db =
           (Ret (if ret = NOTMUCH_STATUS_SUCCESS \<or> ret = NOTMUCH_STATUS_DUPLICATE_MESSAGE_ID
                 then (if ret2 \<noteq> NOTMUCH_STATUS_SUCCESS then ret2 else ret)
                 else ret, message_ret), db2)"
  using assms by (simp add: notmuch_database_add_message_def Let_def)

text \<open>The calls that return before the transaction is opened do not call \<^verbatim>\<open>end_atomic\<close>.\<close>

lemma add_message_early_return:
  "notmuch_database_ensure_writable db \<noteq> NOTMUCH_STATUS_SUCCESS \<Longrightarrow>
     notmuch_database_add_message e filename db =
       (Ret (notmuch_database_ensure_writable db, None), db)"
  "notmuch_database_ensure_writable db = NOTMUCH_STATUS_SUCCESS \<Longrightarrow>
     message_files e filename = None \<Longrightarrow>
     notmuch_database_add_message e filename db = (Ret (NOTMUCH_STATUS_FILE_ERROR, None), db)"
  by (simp_all add: notmuch_database_add_message_def Let_def)


section \<open>Scenarios\<close>

text \<open>
  A well-formed message file with the given headers, an empty writable database in
  the current format (with ghost messages) or in the legacy one, and an environment
  that lists the keys of a table in their order of insertion.
\<close>

definition mail :: "(string \<times> string) list \<Rightarrow> message_file" where
  "mail hs = \<lparr>mf_headers = map_of hs, mf_parse_status = NOTMUCH_STATUS_SUCCESS,
              mf_index_status = NOTMUCH_STATUS_SUCCESS\<rparr>"

definition empty_database :: "bool \<Rightarrow> database" where
  "empty_database ghosts =
     \<lparr>docs = [], metadata = (\<lambda>k. []), committed_docs = [], committed_metadata = (\<lambda>k. []),
      last_thread_id = 0, features_ghosts = ghosts, writable = True, atomic_nesting = 0,
      exception_reported = False, faults = []\<rparr>"

definition test_env :: "(string \<times> message_file) list \<Rightarrow> env" where
  "test_env fs =
     \<lparr>message_id_max = 234, message_id_compressed = (\<lambda>s. ''notmuch-sha1-'' @ s),
      hash_table_keys = (\<lambda>ks. ks), message_files = map_of fs,
      sha1_of_file = (\<lambda>f. None)\<rparr>"

definition file_A :: message_file where
  "file_A = mail [(''message-id'', ''<a@x>''), (''from'', ''u@x'')]"

definition file_B :: message_file where
  "file_B = mail [(''message-id'', ''<b@x>''), (''from'', ''u@x''), (''references'', ''<a@x>'')]"

text \<open>
  \<^verbatim>\<open>A2\<close> is a second copy of \<^verbatim>\<open>A\<close>; \<^verbatim>\<open>N\<close> has the message-ID of \<^verbatim>\<open>A\<close> and none of
  From, Subject and To; \<^verbatim>\<open>M\<close> names itself as its parent.
\<close>

definition file_N :: message_file where
  "file_N = mail [(''message-id'', ''<a@x>'')]"

definition file_M :: message_file where
  "file_M = mail [(''message-id'', ''<m@x>''), (''from'', ''u@x''), (''in-reply-to'', ''<m@x>'')]"

definition file_C :: message_file where
  "file_C = mail [(''message-id'', ''<c@x>''), (''from'', ''u@x''), (''references'', ''<m@x>'')]"

definition test_files :: "(string \<times> message_file) list" where
  "test_files = [(''A'', file_A), (''B'', file_B), (''A2'', file_A), (''N'', file_N),
                 (''M'', file_M), (''C'', file_C)]"

text \<open>
  A writable database, outside any atomic section and with no fault scheduled, that
  holds the given documents, all of them committed, after the given number of
  thread-IDs has been allocated.
\<close>

definition database_of :: "bool \<Rightarrow> document option list \<Rightarrow> 64 word \<Rightarrow> database" where
  "database_of ghosts ds n =
     \<lparr>docs = ds, metadata = (\<lambda>k. [])(''last_thread_id'' := hex16 n),
      committed_docs = ds, committed_metadata = (\<lambda>k. [])(''last_thread_id'' := hex16 n),
      last_thread_id = n, features_ghosts = ghosts, writable = True, atomic_nesting = 0,
      exception_reported = False, faults = []\<rparr>"

definition mail_document :: "string \<Rightarrow> (string \<times> string) list \<Rightarrow> string \<Rightarrow> document" where
  "mail_document mid ts filename =
     \<lparr>doc_message_id = mid, doc_terms = ts, doc_filenames = [filename],
      doc_header_values = Some (None, Some ''u@x'', None), doc_indexed = True\<rparr>"

definition doc_A :: document where
  "doc_A = mail_document ''a@x'' [(''type'', ''mail''), (''thread'', ''0000000000000001'')] ''A''"

definition doc_M :: document where
  "doc_M = mail_document ''m@x'' [(''type'', ''mail''), (''thread'', ''0000000000000002'')] ''M''"

text \<open>The database after adding \<^verbatim>\<open>A\<close> to an empty one.\<close>

definition database_with_A :: database where
  "database_with_A = database_of True [Some doc_A] 1"

lemma scenario_add_A:
  "fst (notmuch_database_add_message (test_env test_files) ''A'' (empty_database True)) =
     Ret (NOTMUCH_STATUS_SUCCESS, Some \<lparr>msg_doc_id = 0, msg_doc = doc_A\<rparr>) \<and>
   docs (snd (notmuch_database_add_message (test_env test_files) ''A'' (empty_database True))) =
     docs database_with_A \<and>
   last_thread_id (snd (notmuch_database_add_message (test_env test_files) ''A''
     (empty_database True))) = last_thread_id database_with_A"
  by code_simp


theorem add_message_end_atomic_status_witness:
  "\<exists>message db1 db2 message_ret.
      add_message_to_done (test_env test_files) ''A'' file_A
        ((empty_database True)\<lparr>faults := [False, False, False, True]\<rparr>) =
          (Ret (NOTMUCH_STATUS_SUCCESS, message), db1) \<and>
      notmuch_database_end_atomic db1 = (NOTMUCH_STATUS_XAPIAN_EXCEPTION, db2) \<and>
      notmuch_database_add_message (test_env test_files) ''A''
        ((empty_database True)\<lparr>faults := [False, False, False, True]\<rparr>) =
          (Ret (NOTMUCH_STATUS_XAPIAN_EXCEPTION, message_ret), db2)"
proof -
  let ?e = "test_env test_files"
  let ?db = "(empty_database True)\<lparr>faults := [False, False, False, True]\<rparr>"
  have "(case add_message_to_done ?e ''A'' file_A ?db of
      (Ret (ret, m), db1) \<Rightarrow>
        ret = NOTMUCH_STATUS_SUCCESS \<and>
        fst (notmuch_database_end_atomic db1) = NOTMUCH_STATUS_XAPIAN_EXCEPTION
    | (Throw x, db1) \<Rightarrow> False)"
    by code_simp
  then obtain message db1 where
    h3: "add_message_to_done ?e ''A'' file_A ?db = (Ret (NOTMUCH_STATUS_SUCCESS, message), db1)"
    and "fst (notmuch_database_end_atomic db1) = NOTMUCH_STATUS_XAPIAN_EXCEPTION"
    by (auto split: prod.splits result.splits)
  then obtain db2 where
    h4: "notmuch_database_end_atomic db1 = (NOTMUCH_STATUS_XAPIAN_EXCEPTION, db2)"
    by (cases "notmuch_database_end_atomic db1") auto
  have h1: "notmuch_database_ensure_writable ?db = NOTMUCH_STATUS_SUCCESS" by code_simp
  have h2: "message_files ?e ''A'' = Some file_A" by (simp add: test_env_def test_files_def)
  from add_message_end_atomic_status [OF h1 h2 h3 h4] h3 h4 show ?thesis by auto
qed

section \<open>Claims about exceptions of the index and duplicate message-IDs\<close>

lemma begin_atomic_keeps:
  assumes "notmuch_database_begin_atomic db = (ret, db1)"
  shows "docs db1 = docs db \<and> metadata db1 = metadata db \<and>
         last_thread_id db1 = last_thread_id db \<and>
         features_ghosts db1 = features_ghosts db \<and> writable db1 = writable db"
proof (cases "\<not> writable db \<or> 0 < atomic_nesting db")
  case True
  with assms show ?thesis by (auto simp: notmuch_database_begin_atomic_def split: if_splits)
next
  case False
  let ?f = "\<lambda>db::database. db"
  obtain r db' where w: "xapian_write ?f db = (r, db')" by (cases "xapian_write ?f db")
  show ?thesis
  proof (cases r)
    case (Ret u)
    with w have "db' = (?f db)\<lparr>faults := tl (faults db)\<rparr>"
      using xapian_write_Ret [of ?f db u db'] by simp
    with assms False w Ret show ?thesis by (auto simp: notmuch_database_begin_atomic_def)
  next
    case (Throw x)
    with w have "db' = db\<lparr>faults := tl (faults db)\<rparr>"
      using xapian_write_Throw [of ?f db x db'] by simp
    with assms False w Throw show ?thesis by (auto simp: notmuch_database_begin_atomic_def)
  qed
qed

text \<open>
  Claim C7, as the code has it. When the index raises an exception inside the
  \<^verbatim>\<open>try\<close> block, \<^verbatim>\<open>add\<close> returns \<^verbatim>\<open>NOTMUCH_STATUS_XAPIAN_EXCEPTION\<close> and sets
  \<^verbatim>\<open>exception_reported\<close>. It aborts nothing: it ends the atomic section as on every
  other path, and the documents and metadata it leaves are those at the moment of the
  exception.
\<close>

theorem add_message_xapian_exception:
  assumes "notmuch_database_ensure_writable db = NOTMUCH_STATUS_SUCCESS"
    and "message_files e filename = Some mf"
    and "notmuch_database_begin_atomic db = (NOTMUCH_STATUS_SUCCESS, db1)"
    and "mf_parse_status mf = NOTMUCH_STATUS_SUCCESS"
    and "\<not> (null_or_empty (mf_headers mf ''from'') \<and> null_or_empty (mf_headers mf ''subject'') \<and>
            null_or_empty (mf_headers mf ''to''))"
    and "find_message_id e filename mf db1 = (Ret (Some message_id), db2)"
    and "add_message_try e filename mf message_id (mf_headers mf ''from'')
           (mf_headers mf ''subject'') db2 = (Throw Xapian_Error, db3)"
  shows "\<exists>ret2 db'.
           notmuch_database_end_atomic (db3\<lparr>exception_reported := True\<rparr>) = (ret2, db') \<and>
           notmuch_database_add_message e filename db =
             (Ret (NOTMUCH_STATUS_XAPIAN_EXCEPTION, None), db') \<and>
           exception_reported db' \<and> docs db' = docs db3 \<and> metadata db' = metadata db3"
proof -
  obtain ret2 db' where
    ea: "notmuch_database_end_atomic (db3\<lparr>exception_reported := True\<rparr>) = (ret2, db')"
    by (cases "notmuch_database_end_atomic (db3\<lparr>exception_reported := True\<rparr>)")
  from assms have
    "add_message_to_done e filename mf db =
       (Ret (NOTMUCH_STATUS_XAPIAN_EXCEPTION, None), db3\<lparr>exception_reported := True\<rparr>)"
    by (simp add: add_message_to_done_def Let_def)
  with assms(1,2) ea have
    "notmuch_database_add_message e filename db =
       (Ret (NOTMUCH_STATUS_XAPIAN_EXCEPTION, None), db')"
    by (simp add: notmuch_database_add_message_def Let_def)
  moreover from end_atomic_keeps [OF ea]
  have "exception_reported db' \<and> docs db' = docs db3 \<and> metadata db' = metadata db3" by simp
  ultimately show ?thesis using ea by blast
qed

definition ghost_a :: document where
  "ghost_a = \<lparr>doc_message_id = ''a@x'',
              doc_terms = [(''type'', ''ghost''), (''thread'', ''0000000000000001'')],
              doc_filenames = [], doc_header_values = None, doc_indexed = False\<rparr>"

text \<open>
  The file \<^verbatim>\<open>B\<close>, which refers to \<^verbatim>\<open>a@x\<close>, is added to an empty database whose index
  raises an exception in its fourth mutation, the sync of \<^verbatim>\<open>B\<close>; the ghost of \<^verbatim>\<open>a@x\<close>
  had been written by then.
\<close>

theorem add_message_xapian_exception_witness:
  "\<exists>db1 db3 ret2 db'.
     notmuch_database_begin_atomic ((empty_database True)\<lparr>faults := [False, False, False, True]\<rparr>)
       = (NOTMUCH_STATUS_SUCCESS, db1) \<and>
     add_message_try (test_env test_files) ''B'' file_B ''b@x'' (mf_headers file_B ''from'')
       (mf_headers file_B ''subject'') db1 = (Throw Xapian_Error, db3) \<and>
     notmuch_database_end_atomic (db3\<lparr>exception_reported := True\<rparr>) = (ret2, db') \<and>
     notmuch_database_add_message (test_env test_files) ''B''
       ((empty_database True)\<lparr>faults := [False, False, False, True]\<rparr>) =
         (Ret (NOTMUCH_STATUS_XAPIAN_EXCEPTION, None), db') \<and>
     exception_reported db' \<and> docs db' = docs db3 \<and> metadata db' = metadata db3"
proof -
  let ?e = "test_env test_files"
  let ?db = "(empty_database True)\<lparr>faults := [False, False, False, True]\<rparr>"
  have h1: "notmuch_database_ensure_writable ?db = NOTMUCH_STATUS_SUCCESS" by code_simp
  have h2: "message_files ?e ''B'' = Some file_B" by (simp add: test_env_def test_files_def)
  have "fst (notmuch_database_begin_atomic ?db) = NOTMUCH_STATUS_SUCCESS" by code_simp
  then obtain db1 where h3: "notmuch_database_begin_atomic ?db = (NOTMUCH_STATUS_SUCCESS, db1)"
    by (cases "notmuch_database_begin_atomic ?db") auto
  have h4: "mf_parse_status file_B = NOTMUCH_STATUS_SUCCESS" by code_simp
  have h5: "\<not> (null_or_empty (mf_headers file_B ''from'') \<and>
      null_or_empty (mf_headers file_B ''subject'') \<and> null_or_empty (mf_headers file_B ''to''))"
    by code_simp
  have "fst (find_message_id ?e ''B'' file_B (snd (notmuch_database_begin_atomic ?db))) =
          Ret (Some ''b@x'')" by code_simp
  moreover have "snd (find_message_id ?e ''B'' file_B db1) = db1"
    by (auto simp: find_message_id_def Let_def xbind_def split: option.splits prod.splits)
  ultimately have h6: "find_message_id ?e ''B'' file_B db1 = (Ret (Some ''b@x''), db1)"
    using h3 by (cases "find_message_id ?e ''B'' file_B db1") auto
  have "fst (add_message_try ?e ''B'' file_B ''b@x'' (mf_headers file_B ''from'')
           (mf_headers file_B ''subject'') (snd (notmuch_database_begin_atomic ?db))) =
        Throw Xapian_Error" by code_simp
  with h3 obtain db3 where h7: "add_message_try ?e ''B'' file_B ''b@x'' (mf_headers file_B ''from'')
           (mf_headers file_B ''subject'') db1 = (Throw Xapian_Error, db3)"
    by (cases "add_message_try ?e ''B'' file_B ''b@x'' (mf_headers file_B ''from'')
           (mf_headers file_B ''subject'') db1") auto
  from add_message_xapian_exception [OF h1 h2 h3 h4 h5 h6 h7] h3 h7 show ?thesis by blast
qed

text \<open>
  Claim C7 as stated fails there: the call returns the status and sets the flag, yet
  the ghost of \<^verbatim>\<open>a@x\<close> that it made is in the index afterwards, and committed.
\<close>

theorem add_message_xapian_exception_counterexample:
  "fst (notmuch_database_add_message (test_env test_files) ''B''
          ((empty_database True)\<lparr>faults := [False, False, False, True]\<rparr>)) =
     Ret (NOTMUCH_STATUS_XAPIAN_EXCEPTION, None) \<and>
   exception_reported (snd (notmuch_database_add_message (test_env test_files) ''B''
          ((empty_database True)\<lparr>faults := [False, False, False, True]\<rparr>))) \<and>
   docs ((empty_database True)\<lparr>faults := [False, False, False, True]\<rparr>) = [] \<and>
   docs (snd (notmuch_database_add_message (test_env test_files) ''B''
          ((empty_database True)\<lparr>faults := [False, False, False, True]\<rparr>))) =
     [None, Some ghost_a] \<and>
   committed_docs (snd (notmuch_database_add_message (test_env test_files) ''B''
          ((empty_database True)\<lparr>faults := [False, False, False, True]\<rparr>))) =
     [None, Some ghost_a]"
  by code_simp


lemma not_in_tl: "x \<notin> set xs \<Longrightarrow> x \<notin> set (tl xs)"
  by (cases xs) auto

lemma quiet_head: "True \<notin> set fs \<Longrightarrow> fs = [] \<or> \<not> hd fs"
  by (cases fs) auto

lemma xapian_write_no_fault:
  "True \<notin> set (faults db) \<Longrightarrow>
     xapian_write f db = (Ret (), (f db)\<lparr>faults := tl (faults db)\<rparr>)"
  by (rule xapian_write_quiet) (rule quiet_head)

lemma begin_atomic_no_fault:
  assumes "True \<notin> set (faults db)"
  shows "\<exists>db1. notmuch_database_begin_atomic db = (NOTMUCH_STATUS_SUCCESS, db1) \<and>
           docs db1 = docs db \<and> metadata db1 = metadata db \<and>
           last_thread_id db1 = last_thread_id db \<and>
           features_ghosts db1 = features_ghosts db \<and> writable db1 = writable db \<and>
           atomic_nesting db1 = atomic_nesting db + 1 \<and> True \<notin> set (faults db1)"
proof (cases "\<not> writable db \<or> 0 < atomic_nesting db")
  case True
  with assms show ?thesis by (auto simp: notmuch_database_begin_atomic_def)
next
  case False
  with xapian_write_no_fault [OF assms, of "\<lambda>db. db"] not_in_tl [OF assms]
  show ?thesis by (auto simp: notmuch_database_begin_atomic_def)
qed

lemma end_atomic_no_fault:
  assumes "True \<notin> set (faults db)" and "0 < atomic_nesting db"
  shows "\<exists>db2. notmuch_database_end_atomic db = (NOTMUCH_STATUS_SUCCESS, db2) \<and>
           docs db2 = docs db \<and> metadata db2 = metadata db \<and>
           last_thread_id db2 = last_thread_id db \<and>
           atomic_nesting db2 = atomic_nesting db - 1 \<and> True \<notin> set (faults db2)"
proof (cases "\<not> writable db \<or> 1 < atomic_nesting db")
  case True
  with assms show ?thesis by (auto simp: notmuch_database_end_atomic_def)
next
  case False
  with assms xapian_write_no_fault [OF assms(1),
      of "\<lambda>db. db\<lparr>committed_docs := docs db, committed_metadata := metadata db\<rparr>"]
    not_in_tl [OF assms(1)]
  show ?thesis by (auto simp: notmuch_database_end_atomic_def)
qed

lemma find_message_id_pure: "snd (find_message_id e filename mf db) = db"
  by (auto simp: find_message_id_def Let_def xbind_def split: option.splits prod.splits)

lemma find_message_id_state:
  "fst (find_message_id e filename mf db) = fst (find_message_id e filename mf db')"
  by (auto simp: find_message_id_def Let_def xbind_def split: option.splits prod.splits)

lemma find_message_id_eq:
  "fst (find_message_id e filename mf db) = r \<Longrightarrow> find_message_id e filename mf db' = (r, db')"
  using find_message_id_pure [of e filename mf db'] find_message_id_state [of e filename mf db db']
  by (cases "find_message_id e filename mf db'") simp

lemma find_doc_id_by_message_id_Some:
  assumes "find_doc_id_by_message_id db mid = Some i"
  shows "i < length (docs db) \<and> (\<exists>d. docs db ! i = Some d \<and> doc_message_id d = mid)"
proof -
  from assms have "i \<in> set [0..<length (docs db)] \<and> has_message_id (docs db ! i) mid"
    unfolding find_doc_id_by_message_id_def find_Some_iff by (metis nth_mem)
  then show ?thesis by (auto simp: has_message_id_def split: option.splits)
qed

lemma find_doc_id_by_message_id_docs:
  "docs db' = docs db \<Longrightarrow> find_doc_id_by_message_id db' mid = find_doc_id_by_message_id db mid"
  by (simp add: find_doc_id_by_message_id_def)

text \<open>
  Claim C3, as the code has it. The file must pass the checks that come before the
  lookup: the database is writable, the file opens and parses, and one of From,
  Subject and To is not empty. With its message-ID indexed as a real message, and
  with no exception of the index, \<^verbatim>\<open>add\<close> returns \<^verbatim>\<open>DUPLICATE_MESSAGE_ID\<close>; the
  message's document afterwards is the one before with the filename added to its
  list; no other document, no metadata and no thread counter changes.
\<close>

theorem add_message_duplicate:
  assumes "writable db" and "True \<notin> set (faults db)"
    and "message_files e filename = Some mf"
    and "mf_parse_status mf = NOTMUCH_STATUS_SUCCESS"
    and "\<not> (null_or_empty (mf_headers mf ''from'') \<and> null_or_empty (mf_headers mf ''subject'') \<and>
            null_or_empty (mf_headers mf ''to''))"
    and "fst (find_message_id e filename mf db) = Ret (Some message_id)"
    and "find_doc_id_by_message_id db message_id = Some i"
    and "\<not> has_term (docs db ! i) ''type'' ''ghost''"
  shows "\<exists>d db'. docs db ! i = Some d \<and>
           notmuch_database_add_message e filename db =
             (Ret (NOTMUCH_STATUS_DUPLICATE_MESSAGE_ID,
                   Some \<lparr>msg_doc_id = i, msg_doc = d\<lparr>doc_filenames :=
                      (if filename \<in> set (doc_filenames d) then doc_filenames d
                       else doc_filenames d @ [filename])\<rparr>\<rparr>), db') \<and>
           docs db' = (docs db)[i := Some (d\<lparr>doc_filenames :=
                      (if filename \<in> set (doc_filenames d) then doc_filenames d
                       else doc_filenames d @ [filename])\<rparr>)] \<and>
           metadata db' = metadata db \<and> last_thread_id db' = last_thread_id db"
proof -
  from find_doc_id_by_message_id_Some [OF assms(7)] obtain d where
    i: "i < length (docs db)" and d: "docs db ! i = Some d" by blast
  from assms(8) d have real: "(''type'', ''ghost'') \<notin> set (doc_terms d)"
    by (simp add: has_term_def)
  define d' where "d' = d\<lparr>doc_filenames :=
      (if filename \<in> set (doc_filenames d) then doc_filenames d else doc_filenames d @ [filename])\<rparr>"
  define m1 where "m1 = \<lparr>msg_doc_id = i, msg_doc = d'\<rparr>"
  from begin_atomic_no_fault [OF assms(2)] obtain db1 where
    b: "notmuch_database_begin_atomic db = (NOTMUCH_STATUS_SUCCESS, db1)"
    and db1: "docs db1 = docs db" "metadata db1 = metadata db"
      "last_thread_id db1 = last_thread_id db" "atomic_nesting db1 = atomic_nesting db + 1"
      "True \<notin> set (faults db1)" by blast
  have fm: "find_message_id e filename mf db1 = (Ret (Some message_id), db1)"
    using assms(6) by (rule find_message_id_eq)
  have fd: "find_doc_id_by_message_id db1 message_id = Some i"
    using find_doc_id_by_message_id_docs [OF db1(1), of message_id] assms(7) by simp
  have cr: "notmuch_message_create_for_message_id message_id db1 =
      (Ret (Some \<lparr>msg_doc_id = i, msg_doc = d\<rparr>, Public NOTMUCH_STATUS_SUCCESS), db1)"
    using fd i d db1(1)
    by (simp add: notmuch_message_create_for_message_id_def notmuch_message_create_def)
  have af: "notmuch_message_add_filename \<lparr>msg_doc_id = i, msg_doc = d\<rparr> filename = m1"
    by (simp add: notmuch_message_add_filename_def m1_def d'_def)
  have ng: "\<not> notmuch_message_get_flag_ghost m1"
    using real by (simp add: notmuch_message_get_flag_ghost_def m1_def d'_def)
  define db2 where "db2 = db1\<lparr>docs := (docs db1)[i := Some d'], faults := tl (faults db1)\<rparr>"
  have sy: "notmuch_message_sync m1 db1 = (Ret (), db2)"
    using xapian_write_no_fault [OF db1(5)]
    by (simp add: notmuch_message_sync_def m1_def db2_def)
  have tr: "add_message_try e filename mf message_id (mf_headers mf ''from'')
      (mf_headers mf ''subject'') db1 = (Ret (NOTMUCH_STATUS_DUPLICATE_MESSAGE_ID, Some m1), db2)"
    using ng
    by (simp add: add_message_try_def
        xbind_Ret [of "notmuch_message_create_for_message_id message_id" db1, OF cr] af Let_def
        xbind_Ret [of "notmuch_message_sync m1" db1, OF sy])
  have td: "add_message_to_done e filename mf db =
      (Ret (NOTMUCH_STATUS_DUPLICATE_MESSAGE_ID, Some m1), db2)"
    using assms(4,5) by (simp add: add_message_to_done_def b Let_def fm tr)
  have q2: "True \<notin> set (faults db2)" using not_in_tl [OF db1(5)] by (simp add: db2_def)
  have n2: "0 < atomic_nesting db2" using db1(4) by (simp add: db2_def)
  from end_atomic_no_fault [OF q2 n2] obtain db3 where
    ea: "notmuch_database_end_atomic db2 = (NOTMUCH_STATUS_SUCCESS, db3)"
    and db3: "docs db3 = docs db2" "metadata db3 = metadata db2"
      "last_thread_id db3 = last_thread_id db2" by blast
  have "notmuch_database_add_message e filename db =
      (Ret (NOTMUCH_STATUS_DUPLICATE_MESSAGE_ID, Some m1), db3)"
    using assms(1,3)
    by (simp add: notmuch_database_add_message_def notmuch_database_ensure_writable_def td ea)
  moreover have "docs db3 = (docs db)[i := Some d']" using db3(1) db1(1) by (simp add: db2_def)
  moreover have "metadata db3 = metadata db" using db3(2) db1(2) by (simp add: db2_def)
  moreover have "last_thread_id db3 = last_thread_id db" using db3(3) db1(3) by (simp add: db2_def)
  ultimately show ?thesis using d unfolding m1_def d'_def by blast
qed


theorem add_message_duplicate_witness:
  "\<exists>d db'. docs database_with_A ! 0 = Some d \<and>
     \<not> has_term (docs database_with_A ! 0) ''type'' ''ghost'' \<and>
     notmuch_database_add_message (test_env test_files) ''A2'' database_with_A =
       (Ret (NOTMUCH_STATUS_DUPLICATE_MESSAGE_ID,
             Some \<lparr>msg_doc_id = 0, msg_doc = d\<lparr>doc_filenames :=
                (if ''A2'' \<in> set (doc_filenames d) then doc_filenames d
                 else doc_filenames d @ [''A2''])\<rparr>\<rparr>), db') \<and>
     docs db' = (docs database_with_A)[0 := Some (d\<lparr>doc_filenames :=
                (if ''A2'' \<in> set (doc_filenames d) then doc_filenames d
                 else doc_filenames d @ [''A2''])\<rparr>)] \<and>
     metadata db' = metadata database_with_A \<and>
     last_thread_id db' = last_thread_id database_with_A"
proof -
  let ?e = "test_env test_files"
  have h1: "writable database_with_A" by code_simp
  have h2: "True \<notin> set (faults database_with_A)" by code_simp
  have h3: "message_files ?e ''A2'' = Some file_A" by (simp add: test_env_def test_files_def)
  have h4: "mf_parse_status file_A = NOTMUCH_STATUS_SUCCESS" by code_simp
  have h5: "\<not> (null_or_empty (mf_headers file_A ''from'') \<and>
      null_or_empty (mf_headers file_A ''subject'') \<and> null_or_empty (mf_headers file_A ''to''))"
    by code_simp
  have h6: "fst (find_message_id ?e ''A2'' file_A database_with_A) = Ret (Some ''a@x'')"
    by code_simp
  have h7: "find_doc_id_by_message_id database_with_A ''a@x'' = Some 0" by code_simp
  have h8: "\<not> has_term (docs database_with_A ! 0) ''type'' ''ghost''" by code_simp
  from add_message_duplicate [OF h1 h2 h3 h4 h5 h6 h7 h8] h8 show ?thesis by blast
qed

text \<open>
  Claim C3 as stated fails: the message-ID of the file \<^verbatim>\<open>N\<close> is indexed as a real
  message, yet \<^verbatim>\<open>add\<close> returns \<^verbatim>\<open>FILE_NOT_EMAIL\<close> for it, since the test of From, Subject
  and To (lines 606 to 615) comes before the message-ID is looked at, and the
  filename is not added.
\<close>

theorem add_message_duplicate_counterexample:
  "fst (find_message_id (test_env test_files) ''N'' file_N database_with_A) = Ret (Some ''a@x'') \<and>
   find_doc_id_by_message_id database_with_A ''a@x'' = Some 0 \<and>
   \<not> has_term (docs database_with_A ! 0) ''type'' ''ghost'' \<and>
   fst (notmuch_database_add_message (test_env test_files) ''N'' database_with_A) =
     Ret (NOTMUCH_STATUS_FILE_NOT_EMAIL, None) \<and>
   docs (snd (notmuch_database_add_message (test_env test_files) ''N'' database_with_A)) =
     docs database_with_A"
  by code_simp


section \<open>Merging threads\<close>

text \<open>
  What \<^verbatim>\<open>_merge_threads\<close> does to one document: the loser's \<^verbatim>\<open>thread\<close> term is removed
  and the winner's added.
\<close>

definition rethread :: "string \<Rightarrow> string \<Rightarrow> document \<Rightarrow> document" where
  "rethread winner loser d =
     msg_doc (notmuch_message_add_term
                (notmuch_message_remove_term \<lparr>msg_doc_id = 0, msg_doc = d\<rparr> ''thread'' loser)
                ''thread'' winner)"

text \<open>All of a database but its documents and its fault schedule.\<close>

definition same_settings :: "database \<Rightarrow> database \<Rightarrow> bool" where
  "same_settings db db' =
     (metadata db' = metadata db \<and> committed_docs db' = committed_docs db \<and>
      committed_metadata db' = committed_metadata db \<and>
      last_thread_id db' = last_thread_id db \<and> features_ghosts db' = features_ghosts db \<and>
      writable db' = writable db \<and> atomic_nesting db' = atomic_nesting db \<and>
      exception_reported db' = exception_reported db)"

lemma same_settings_refl [simp]: "same_settings db db"
  by (simp add: same_settings_def)

lemma same_settings_trans:
  "same_settings db db1 \<Longrightarrow> same_settings db1 db2 \<Longrightarrow> same_settings db db2"
  by (simp add: same_settings_def)

lemma sync_Ret:
  assumes "notmuch_message_sync m db = (Ret u, db')"
  shows "docs db' = (docs db)[msg_doc_id m := Some (msg_doc m)] \<and> same_settings db db' \<and>
         faults db' = tl (faults db)"
  using xapian_write_Ret [OF assms [unfolded notmuch_message_sync_def]]
  by (simp add: same_settings_def)

lemma rethread_terms:
  "set (doc_terms (rethread w l d)) = insert (''thread'', w) (set (doc_terms d) - {(''thread'', l)})"
  by (auto simp: rethread_def notmuch_message_add_term_def notmuch_message_remove_term_def)

lemma merge_threads_loop_Ret:
  assumes "merge_threads_loop w l ids db = (Ret st, db')"
    and "distinct ids" and "\<forall>i\<in>set ids. i < length (docs db) \<and> docs db ! i \<noteq> None"
  shows "st = NOTMUCH_STATUS_SUCCESS \<and> same_settings db db' \<and>
         length (docs db') = length (docs db) \<and>
         (\<forall>j<length (docs db). docs db' ! j =
            (if j \<in> set ids then map_option (rethread w l) (docs db ! j) else docs db ! j))"
  using assms
proof (induction ids arbitrary: db)
  case Nil
  then show ?case by simp
next
  case (Cons i rest)
  from Cons.prems(3) obtain d where i: "i < length (docs db)" and d: "docs db ! i = Some d"
    by auto
  let ?m = "notmuch_message_add_term
              (notmuch_message_remove_term \<lparr>msg_doc_id = i, msg_doc = d\<rparr> ''thread'' l) ''thread'' w"
  have cr: "notmuch_message_create db i =
      (Some \<lparr>msg_doc_id = i, msg_doc = d\<rparr>, Public NOTMUCH_STATUS_SUCCESS)"
    using i d by (simp add: notmuch_message_create_def)
  with Cons.prems(1) have run: "xbind (notmuch_message_sync ?m) (\<lambda>_. merge_threads_loop w l rest) db
      = (Ret st, db')" by simp
  from run obtain u db1 where sy: "notmuch_message_sync ?m db = (Ret u, db1)"
    and rest: "merge_threads_loop w l rest db1 = (Ret st, db')"
    by (rule xbind_RetE)
  have m_id: "msg_doc_id ?m = i" and m_doc: "msg_doc ?m = rethread w l d"
    by (simp_all add: notmuch_message_add_term_def notmuch_message_remove_term_def rethread_def)
  from sync_Ret [OF sy] m_id m_doc have db1: "docs db1 = (docs db)[i := Some (rethread w l d)]"
    "same_settings db db1" by simp_all
  from Cons.prems(2) have dist: "distinct rest" and inotin: "i \<notin> set rest" by simp_all
  have pre: "\<forall>j\<in>set rest. j < length (docs db1) \<and> docs db1 ! j \<noteq> None"
  proof
    fix j assume j: "j \<in> set rest"
    with inotin have "j \<noteq> i" by auto
    with Cons.prems(3) j db1(1) show "j < length (docs db1) \<and> docs db1 ! j \<noteq> None" by simp
  qed
  from Cons.IH [OF rest dist pre] have ih: "st = NOTMUCH_STATUS_SUCCESS" "same_settings db1 db'"
    "length (docs db') = length (docs db1)"
    "\<forall>j<length (docs db1). docs db' ! j =
        (if j \<in> set rest then map_option (rethread w l) (docs db1 ! j) else docs db1 ! j)"
    by simp_all
  have "\<forall>j<length (docs db). docs db' ! j =
      (if j \<in> set (i # rest) then map_option (rethread w l) (docs db ! j) else docs db ! j)"
  proof (intro allI impI)
    fix j assume j: "j < length (docs db)"
    show "docs db' ! j =
      (if j \<in> set (i # rest) then map_option (rethread w l) (docs db ! j) else docs db ! j)"
    proof (cases "j = i")
      case True
      with ih(4) j db1(1) inotin d show ?thesis by simp
    next
      case False
      with ih(4) j db1(1) show ?thesis by simp
    qed
  qed
  with ih(1,3) db1 same_settings_trans [OF db1(2) ih(2)] show ?case by simp
qed

lemma find_doc_ids_set:
  "set (notmuch_database_find_doc_ids db prefix val) =
     {i. i < length (docs db) \<and> has_term (docs db ! i) prefix val}"
  by (auto simp: notmuch_database_find_doc_ids_def)

lemma find_doc_ids_distinct: "distinct (notmuch_database_find_doc_ids db prefix val)"
  by (simp add: notmuch_database_find_doc_ids_def)

lemma has_term_Some: "has_term d prefix val \<Longrightarrow> d \<noteq> None"
  by (cases d) (auto simp: has_term_def)

lemma merge_threads_Ret:
  assumes "merge_threads w l db = (Ret st, db')"
  shows "st = NOTMUCH_STATUS_SUCCESS \<and> same_settings db db' \<and>
         length (docs db') = length (docs db) \<and>
         (\<forall>j<length (docs db). docs db' ! j =
            (if has_term (docs db ! j) ''thread'' l
             then map_option (rethread w l) (docs db ! j) else docs db ! j))"
proof -
  let ?ids = "notmuch_database_find_doc_ids db ''thread'' l"
  have pre: "\<forall>i\<in>set ?ids. i < length (docs db) \<and> docs db ! i \<noteq> None"
    by (auto simp: find_doc_ids_set dest: has_term_Some)
  from assms have "merge_threads_loop w l ?ids db = (Ret st, db')" by (simp add: merge_threads_def)
  from merge_threads_loop_Ret [OF this find_doc_ids_distinct pre] show ?thesis
    by (simp add: find_doc_ids_set)
qed

lemma has_term_rethread:
  "has_term (map_option (rethread w l) d) prefix val =
     (d \<noteq> None \<and> ((prefix, val) = (''thread'', w) \<or>
        (has_term d prefix val \<and> (prefix, val) \<noteq> (''thread'', l))))"
  by (cases d) (auto simp: has_term_def rethread_terms)

text \<open>
  Claim C2. \<^verbatim>\<open>_merge_threads\<close> is a static function with two calls (lines 385 and 429),
  both made under \<^verbatim>\<open>strcmp (*thread_id, ...)\<close> being non-zero: the tests
  \<open>tid \<noteq> ptid\<close> of \<open>link_parents_loop\<close> and \<open>tid \<noteq> child_thread_id\<close> of
  \<open>link_children_loop\<close>. For every winner and loser that it can so receive, after
  \<^verbatim>\<open>_merge_threads\<close> has returned every document that carried the loser's term carries
  the winner's and is otherwise as before, none carries the loser's, the others are
  unchanged, and a second call changes nothing.
\<close>

theorem merge_threads_rewrites:
  assumes "merge_threads winner loser db = (Ret NOTMUCH_STATUS_SUCCESS, db')"
    and "winner \<noteq> loser"
  shows "length (docs db') = length (docs db) \<and>
         (\<forall>i<length (docs db).
            (has_term (docs db ! i) ''thread'' loser \<longrightarrow>
               has_term (docs db' ! i) ''thread'' winner \<and>
               docs db' ! i = map_option (rethread winner loser) (docs db ! i)) \<and>
            \<not> has_term (docs db' ! i) ''thread'' loser \<and>
            (\<not> has_term (docs db ! i) ''thread'' loser \<longrightarrow> docs db' ! i = docs db ! i)) \<and>
         merge_threads winner loser db' = (Ret NOTMUCH_STATUS_SUCCESS, db')"
proof -
  from merge_threads_Ret [OF assms(1)] have len: "length (docs db') = length (docs db)"
    and each: "\<forall>j<length (docs db). docs db' ! j =
            (if has_term (docs db ! j) ''thread'' loser
             then map_option (rethread winner loser) (docs db ! j) else docs db ! j)"
    by simp_all
  have per: "\<forall>i<length (docs db).
            (has_term (docs db ! i) ''thread'' loser \<longrightarrow>
               has_term (docs db' ! i) ''thread'' winner \<and>
               docs db' ! i = map_option (rethread winner loser) (docs db ! i)) \<and>
            \<not> has_term (docs db' ! i) ''thread'' loser \<and>
            (\<not> has_term (docs db ! i) ''thread'' loser \<longrightarrow> docs db' ! i = docs db ! i)"
  proof (intro allI impI)
    fix i assume i: "i < length (docs db)"
    with each have e: "docs db' ! i =
            (if has_term (docs db ! i) ''thread'' loser
             then map_option (rethread winner loser) (docs db ! i) else docs db ! i)" by simp
    show "(has_term (docs db ! i) ''thread'' loser \<longrightarrow>
               has_term (docs db' ! i) ''thread'' winner \<and>
               docs db' ! i = map_option (rethread winner loser) (docs db ! i)) \<and>
            \<not> has_term (docs db' ! i) ''thread'' loser \<and>
            (\<not> has_term (docs db ! i) ''thread'' loser \<longrightarrow> docs db' ! i = docs db ! i)"
      using e assms(2) by (auto simp: has_term_rethread dest: has_term_Some)
  qed
  from per len have "notmuch_database_find_doc_ids db' ''thread'' loser = []"
    by (auto simp: notmuch_database_find_doc_ids_def filter_empty_conv)
  then have "merge_threads winner loser db' = (Ret NOTMUCH_STATUS_SUCCESS, db')"
    by (simp add: merge_threads_def)
  with len per show ?thesis by blast
qed


text \<open>
  The database after adding \<^verbatim>\<open>A\<close> and then \<^verbatim>\<open>M\<close>, which are unrelated: two documents in
  two threads.
\<close>

definition database_with_A_M :: database where
  "database_with_A_M = database_of True [Some doc_A, Some doc_M] 2"

lemma scenario_add_M:
  "fst (notmuch_database_add_message (test_env test_files) ''M'' database_with_A) =
     Ret (NOTMUCH_STATUS_SUCCESS, Some \<lparr>msg_doc_id = 1, msg_doc = doc_M\<rparr>) \<and>
   docs (snd (notmuch_database_add_message (test_env test_files) ''M'' database_with_A)) =
     docs database_with_A_M \<and>
   last_thread_id (snd (notmuch_database_add_message (test_env test_files) ''M''
     database_with_A)) = last_thread_id database_with_A_M"
  by code_simp

theorem merge_threads_rewrites_witness:
  "has_term (docs database_with_A_M ! 1) ''thread'' ''0000000000000002'' \<and>
   \<not> has_term (docs database_with_A_M ! 0) ''thread'' ''0000000000000002'' \<and>
   has_term (docs (snd (merge_threads ''0000000000000001'' ''0000000000000002''
      database_with_A_M)) ! 1) ''thread'' ''0000000000000001'' \<and>
   \<not> has_term (docs (snd (merge_threads ''0000000000000001'' ''0000000000000002''
      database_with_A_M)) ! 1) ''thread'' ''0000000000000002'' \<and>
   docs (snd (merge_threads ''0000000000000001'' ''0000000000000002'' database_with_A_M)) ! 0 =
     docs database_with_A_M ! 0 \<and>
   merge_threads ''0000000000000001'' ''0000000000000002''
     (snd (merge_threads ''0000000000000001'' ''0000000000000002'' database_with_A_M)) =
     (Ret NOTMUCH_STATUS_SUCCESS,
      snd (merge_threads ''0000000000000001'' ''0000000000000002'' database_with_A_M))"
proof -
  let ?w = "''0000000000000001''" and ?l = "''0000000000000002''"
  let ?db' = "snd (merge_threads ?w ?l database_with_A_M)"
  have "fst (merge_threads ?w ?l database_with_A_M) = Ret NOTMUCH_STATUS_SUCCESS" by code_simp
  then have h1: "merge_threads ?w ?l database_with_A_M = (Ret NOTMUCH_STATUS_SUCCESS, ?db')"
    by (cases "merge_threads ?w ?l database_with_A_M") simp
  have h2: "?w \<noteq> ?l" by simp
  have l: "length (docs database_with_A_M) = 2" by code_simp
  have a: "has_term (docs database_with_A_M ! 1) ''thread'' ?l" by code_simp
  have b: "\<not> has_term (docs database_with_A_M ! 0) ''thread'' ?l" by code_simp
  note t = merge_threads_rewrites [OF h1 h2]
  have i0: "0 < length (docs database_with_A_M)" and i1: "1 < length (docs database_with_A_M)"
    using l by simp_all
  from t i1 a have "has_term (docs ?db' ! 1) ''thread'' ?w" by blast
  moreover from t i1 have "\<not> has_term (docs ?db' ! 1) ''thread'' ?l" by blast
  moreover from t i0 b have "docs ?db' ! 0 = docs database_with_A_M ! 0" by blast
  moreover from t have "merge_threads ?w ?l ?db' = (Ret NOTMUCH_STATUS_SUCCESS, ?db')" by blast
  ultimately show ?thesis using a b by blast
qed

section \<open>What the calls do when they return\<close>

subsection \<open>Terms of a handle\<close>

definition terms_of :: "message \<Rightarrow> (string \<times> string) set" where
  "terms_of m = set (doc_terms (msg_doc m))"

text \<open>Two handles that differ in their terms only.\<close>

definition same_but_terms :: "message \<Rightarrow> message \<Rightarrow> bool" where
  "same_but_terms m m' =
     (msg_doc_id m' = msg_doc_id m \<and>
      doc_message_id (msg_doc m') = doc_message_id (msg_doc m) \<and>
      doc_filenames (msg_doc m') = doc_filenames (msg_doc m) \<and>
      doc_header_values (msg_doc m') = doc_header_values (msg_doc m) \<and>
      doc_indexed (msg_doc m') = doc_indexed (msg_doc m))"

lemma same_but_terms_refl [simp]: "same_but_terms m m"
  by (simp add: same_but_terms_def)

lemma same_but_terms_trans:
  "same_but_terms m m1 \<Longrightarrow> same_but_terms m1 m2 \<Longrightarrow> same_but_terms m m2"
  by (simp add: same_but_terms_def)

lemma terms_of_add_term [simp]:
  "terms_of (notmuch_message_add_term m prefix val) = insert (prefix, val) (terms_of m)"
  by (auto simp: terms_of_def notmuch_message_add_term_def)

lemma terms_of_remove_term [simp]:
  "terms_of (notmuch_message_remove_term m prefix val) = terms_of m - {(prefix, val)}"
  by (auto simp: terms_of_def notmuch_message_remove_term_def)

lemma same_but_terms_add_term [simp]:
  "same_but_terms m (notmuch_message_add_term m prefix val)"
  by (simp add: same_but_terms_def notmuch_message_add_term_def)

lemma same_but_terms_remove_term [simp]:
  "same_but_terms m (notmuch_message_remove_term m prefix val)"
  by (simp add: same_but_terms_def notmuch_message_remove_term_def)

lemma message_id_add_term [simp]:
  "notmuch_message_get_message_id (notmuch_message_add_term m prefix val) =
     notmuch_message_get_message_id m"
  by (simp add: notmuch_message_get_message_id_def notmuch_message_add_term_def)

lemma thread_ids_terms: "set (thread_ids d) = {t. (''thread'', t) \<in> set (doc_terms d)}"
  by (auto simp: thread_ids_def image_iff)

lemma get_thread_id_Ret:
  "notmuch_message_get_thread_id m db = (Ret t, db') \<Longrightarrow>
     db' = db \<and> (\<exists>ts. thread_ids (msg_doc m) = t # ts)"
  by (auto simp: notmuch_message_get_thread_id_def split: list.splits)

subsection \<open>Mutations\<close>

lemma set_metadata_Ret:
  assumes "set_metadata key val db = (Ret u, db')"
  shows "db' = db\<lparr>metadata := (metadata db)(key := val), faults := tl (faults db)\<rparr>"
  using xapian_write_Ret [OF assms [unfolded set_metadata_def]] by simp

lemma sync_Ret_eq:
  assumes "notmuch_message_sync m db = (Ret u, db')"
  shows "db' = db\<lparr>docs := (docs db)[msg_doc_id m := Some (msg_doc m)], faults := tl (faults db)\<rparr>"
  using xapian_write_Ret [OF assms [unfolded notmuch_message_sync_def]] by simp

lemma generate_thread_id_Ret:
  assumes "notmuch_database_generate_thread_id db = (Ret t, db')"
  shows "t = hex16 (last_thread_id db + 1) \<and>
         db' = db\<lparr>last_thread_id := last_thread_id db + 1,
                  metadata := (metadata db)(''last_thread_id'' := t),
                  faults := tl (faults db)\<rparr>"
proof -
  let ?db1 = "db\<lparr>last_thread_id := last_thread_id db + 1\<rparr>"
  let ?t = "hex16 (last_thread_id db + 1)"
  from assms have "xbind (set_metadata ''last_thread_id'' ?t) (\<lambda>_. xreturn ?t) ?db1 = (Ret t, db')"
    by (simp add: notmuch_database_generate_thread_id_def Let_def)
  then obtain u db2 where s: "set_metadata ''last_thread_id'' ?t ?db1 = (Ret u, db2)"
    and r: "xreturn ?t db2 = (Ret t, db')" by (rule xbind_RetE)
  from r have "t = ?t" and "db' = db2" by simp_all
  with set_metadata_Ret [OF s] show ?thesis by simp
qed


subsection \<open>The handle through the linking loops\<close>

text \<open>
  What \<open>link_parents_loop\<close> does to the handle and to \<^verbatim>\<open>*thread_id\<close>, whatever it does to
  the index: it adds \<^verbatim>\<open>reference\<close> terms for keys and at most one \<^verbatim>\<open>thread\<close> term, the
  latter only when no thread-ID was known; a known thread-ID stays.
\<close>

lemma link_parents_loop_message:
  "link_parents_loop e keys m tid db = (Ret (st, m', tid'), db') \<Longrightarrow>
     same_but_terms m m' \<and> terms_of m \<subseteq> terms_of m' \<and>
     (\<forall>p v. (p, v) \<in> terms_of m' \<longrightarrow> (p, v) \<in> terms_of m \<or>
        (p = ''reference'' \<and> v \<in> set keys) \<or>
        (p = ''thread'' \<and> tid = None \<and> tid' = Some v)) \<and>
     (tid \<noteq> None \<longrightarrow> tid' = tid) \<and>
     (\<forall>t. tid' = Some t \<longrightarrow> tid = Some t \<or> (''thread'', t) \<in> terms_of m') \<and>
     (st = NOTMUCH_STATUS_SUCCESS \<longrightarrow>
        (\<forall>k\<in>set keys. (''reference'', k) \<in> terms_of m') \<and> (keys \<noteq> [] \<longrightarrow> tid' \<noteq> None))"
proof (induction keys arbitrary: m tid db)
  case Nil
  then show ?case by simp
next
  case (Cons k l)
  let ?m1 = "notmuch_message_add_term m ''reference'' k"
  from Cons.prems obtain r db1 where
    res: "resolve_message_id_to_thread_id e k db = (Ret r, db1)"
    and cont: "(case r of (ret, parent_thread_id) \<Rightarrow>
              if ret \<noteq> NOTMUCH_STATUS_SUCCESS then xreturn (ret, ?m1, tid)
              else
                (case parent_thread_id of
                   None \<Rightarrow> xthrow Internal_Error
                 | Some ptid \<Rightarrow>
                     (case tid of
                        None \<Rightarrow>
                          link_parents_loop e l
                            (notmuch_message_add_term ?m1 ''thread'' ptid) (Some ptid)
                      | Some t \<Rightarrow>
                          if t \<noteq> ptid then
                            xbind (merge_threads t ptid)
                              (\<lambda>ret. if ret \<noteq> NOTMUCH_STATUS_SUCCESS
                                      then xreturn (ret, ?m1, tid)
                                      else link_parents_loop e l ?m1 tid)
                          else link_parents_loop e l ?m1 tid))) db1 = (Ret (st, m', tid'), db')"
    by (auto simp: Let_def elim!: xbind_RetE)
  obtain ret parent_thread_id where r: "r = (ret, parent_thread_id)" by (cases r)
  show ?case
  proof (cases "ret \<noteq> NOTMUCH_STATUS_SUCCESS")
    case True
    with cont r show ?thesis by auto
  next
    case False
    note ok = this
    with cont r obtain ptid where p: "parent_thread_id = Some ptid"
      by (cases parent_thread_id) auto
    show ?thesis
    proof (cases tid)
      case None
      with cont r ok p have
        "link_parents_loop e l (notmuch_message_add_term ?m1 ''thread'' ptid) (Some ptid) db1 =
           (Ret (st, m', tid'), db')" by simp
      from Cons.IH [OF this] None show ?thesis
        by (auto intro: same_but_terms_trans [OF same_but_terms_trans
              [OF same_but_terms_add_term same_but_terms_add_term]])
    next
      case (Some t)
      show ?thesis
      proof (cases "t \<noteq> ptid")
        case False
        with cont r ok p Some have "link_parents_loop e l ?m1 tid db1 = (Ret (st, m', tid'), db')"
          by simp
        from Cons.IH [OF this] Some show ?thesis
          by (auto intro: same_but_terms_trans [OF same_but_terms_add_term])
      next
        case True
        with cont r ok p Some obtain ret2 db2 where
          mt: "merge_threads t ptid db1 = (Ret ret2, db2)"
          and cont2: "(if ret2 \<noteq> NOTMUCH_STATUS_SUCCESS then xreturn (ret2, ?m1, tid)
                       else link_parents_loop e l ?m1 tid) db2 = (Ret (st, m', tid'), db')"
          by (auto elim!: xbind_RetE)
        show ?thesis
        proof (cases "ret2 \<noteq> NOTMUCH_STATUS_SUCCESS")
          case True
          with cont2 show ?thesis by auto
        next
          case False
          with cont2 have "link_parents_loop e l ?m1 tid db2 = (Ret (st, m', tid'), db')" by simp
          from Cons.IH [OF this] Some show ?thesis
            by (auto intro: same_but_terms_trans [OF same_but_terms_add_term])
        qed
      qed
    qed
  qed
qed


text \<open>
  The parents of a message file: the identifiers of its References header and then of
  its In-Reply-To header that differ from the message's own, each once. This is the
  table that \<open>link_message_to_parents\<close> builds.
\<close>

definition parent_ids :: "string \<Rightarrow> message_file \<Rightarrow> string list" where
  "parent_ids self mf =
     fold g_hash_table_add
       (filter (\<lambda>r. r \<noteq> self) (header_ids (mf_headers mf ''in-reply-to'')))
       (fold g_hash_table_add
          (filter (\<lambda>r. r \<noteq> self) (header_ids (mf_headers mf ''references''))) [])"

text \<open>
  The designated parent in the words of the spec (section 4.5, step D): the last
  identifier of References that is not the message itself, if there is one; otherwise
  the last such of In-Reply-To; otherwise none.
\<close>

definition designated_parent :: "string \<Rightarrow> message_file \<Rightarrow> string option" where
  "designated_parent self mf =
     (let refs = filter (\<lambda>r. r \<noteq> self) (header_ids (mf_headers mf ''references''));
          irt = filter (\<lambda>r. r \<noteq> self) (header_ids (mf_headers mf ''in-reply-to''))
      in if refs \<noteq> [] then Some (last refs)
         else if irt \<noteq> [] then Some (last irt) else None)"

text \<open>
  What is assumed of \<^verbatim>\<open>g_hash_table_get_keys\<close>: it lists the keys of the table, each
  once, in some order.
\<close>

definition keys_permuted :: "env \<Rightarrow> bool" where
  "keys_permuted e =
     (\<forall>ks. distinct ks \<longrightarrow> set (hash_table_keys e ks) = set ks \<and> distinct (hash_table_keys e ks))"

lemma set_parent_ids:
  "set (parent_ids self mf) =
     {r \<in> set (header_ids (mf_headers mf ''references'')). r \<noteq> self} \<union>
     {r \<in> set (header_ids (mf_headers mf ''in-reply-to'')). r \<noteq> self}"
  by (auto simp: parent_ids_def set_fold_g_hash_table_add)

lemma distinct_parent_ids: "distinct (parent_ids self mf)"
  by (simp add: parent_ids_def distinct_fold_g_hash_table_add)

lemma self_not_parent: "self \<notin> set (parent_ids self mf)"
  by (simp add: set_parent_ids)

lemma designated_parent_in_parent_ids:
  "designated_parent self mf = Some r \<Longrightarrow> r \<in> set (parent_ids self mf)"
proof -
  assume a: "designated_parent self mf = Some r"
  let ?refs = "filter (\<lambda>r. r \<noteq> self) (header_ids (mf_headers mf ''references''))"
  let ?irt = "filter (\<lambda>r. r \<noteq> self) (header_ids (mf_headers mf ''in-reply-to''))"
  from a have "(?refs \<noteq> [] \<and> r = last ?refs) \<or> (?irt \<noteq> [] \<and> r = last ?irt)"
    by (auto simp: designated_parent_def Let_def split: if_splits)
  then have "r \<in> set ?refs \<or> r \<in> set ?irt" using last_in_set by metis
  then show ?thesis by (auto simp: set_parent_ids)
qed

text \<open>\<open>link_message_to_parents\<close>, when it returns, in terms of the two.\<close>

lemma link_message_to_parents_eq:
  assumes "link_message_to_parents e m mf tid db = (Ret x, db')"
  shows "link_parents_loop e (hash_table_keys e (parent_ids (notmuch_message_get_message_id m) mf))
       (case designated_parent (notmuch_message_get_message_id m) mf of
          Some r \<Rightarrow> notmuch_message_add_term m ''replyto'' r
        | None \<Rightarrow> m) tid db = (Ret x, db')"
proof -
  let ?self = "notmuch_message_get_message_id m"
  from assms obtain res1 where
    r1: "parse_references ?self [] (mf_headers mf ''references'') = Some res1"
    by (cases "parse_references ?self [] (mf_headers mf ''references'')")
      (simp_all add: link_message_to_parents_def Let_def)
  note e1 = parse_references_eq [OF r1]
  from assms r1 obtain res2 where
    r2: "parse_references ?self (fst res1) (mf_headers mf ''in-reply-to'') = Some res2"
    by (cases "parse_references ?self (fst res1) (mf_headers mf ''in-reply-to'')")
      (simp_all add: link_message_to_parents_def Let_def split_beta)
  note e2 = parse_references_eq [OF r2]
  from e1 have f1: "fst res1 = fold g_hash_table_add
      (filter (\<lambda>r. r \<noteq> ?self) (header_ids (mf_headers mf ''references''))) []"
    and s1: "snd res1 = (if filter (\<lambda>r. r \<noteq> ?self) (header_ids (mf_headers mf ''references'')) = []
       then None
       else Some (last (filter (\<lambda>r. r \<noteq> ?self) (header_ids (mf_headers mf ''references'')))))"
    by simp_all
  from e2 have f2: "fst res2 = parent_ids ?self mf"
    and s2: "snd res2 = (if filter (\<lambda>r. r \<noteq> ?self) (header_ids (mf_headers mf ''in-reply-to'')) = []
       then None
       else Some (last (filter (\<lambda>r. r \<noteq> ?self) (header_ids (mf_headers mf ''in-reply-to'')))))"
    by (simp_all add: parent_ids_def f1)
  have "link_message_to_parents e m mf tid db =
    link_parents_loop e (hash_table_keys e (fst res2))
       (case snd res1 of
          Some r \<Rightarrow> notmuch_message_add_term m ''replyto'' r
        | None \<Rightarrow>
            (case snd res2 of
               Some r \<Rightarrow> notmuch_message_add_term m ''replyto'' r
             | None \<Rightarrow> m)) tid db"
    by (simp add: link_message_to_parents_def Let_def r1 r2 split_beta)
  also have "(case snd res1 of
          Some r \<Rightarrow> notmuch_message_add_term m ''replyto'' r
        | None \<Rightarrow>
            (case snd res2 of
               Some r \<Rightarrow> notmuch_message_add_term m ''replyto'' r
             | None \<Rightarrow> m)) =
       (case designated_parent ?self mf of
          Some r \<Rightarrow> notmuch_message_add_term m ''replyto'' r
        | None \<Rightarrow> m)"
    by (simp add: s1 s2 designated_parent_def Let_def)
  finally show ?thesis using assms by (simp add: f2)
qed


lemma link_children_loop_message:
  "link_children_loop self children m tid db = (Ret (st, m', tid'), db') \<Longrightarrow>
     same_but_terms m m' \<and> terms_of m \<subseteq> terms_of m' \<and>
     (\<forall>p v. (p, v) \<in> terms_of m' \<longrightarrow> (p, v) \<in> terms_of m \<or>
        (p = ''thread'' \<and> tid = None \<and> tid' = Some v)) \<and>
     (tid \<noteq> None \<longrightarrow> tid' = tid) \<and>
     (\<forall>t. tid' = Some t \<longrightarrow> tid = Some t \<or> (''thread'', t) \<in> terms_of m')"
proof (induction children arbitrary: m tid db)
  case Nil
  then show ?case by simp
next
  case (Cons c rest)
  show ?case
  proof (cases "notmuch_message_create db c")
    case (Pair mo ps)
    show ?thesis
    proof (cases mo)
      case None
      with Pair Cons.prems show ?thesis by (auto elim!: xbind_RetE)
    next
      case (Some cm)
      with Pair Cons.prems obtain ct db1 where
        gt: "notmuch_message_get_thread_id cm db = (Ret ct, db1)"
        and cont: "(case tid of
                 None \<Rightarrow>
                   link_children_loop self rest
                     (notmuch_message_add_term m ''thread'' ct) (Some ct)
               | Some t \<Rightarrow>
                   if t \<noteq> ct then
                     xbind (notmuch_message_sync
                              (notmuch_message_remove_term cm ''reference'' self))
                       (\<lambda>_. xbind (merge_threads t ct)
                          (\<lambda>ret. if ret \<noteq> NOTMUCH_STATUS_SUCCESS
                                  then xreturn (ret, m, tid)
                                  else link_children_loop self rest m tid))
                   else link_children_loop self rest m tid) db1 = (Ret (st, m', tid'), db')"
        by (auto elim!: xbind_RetE)
      show ?thesis
      proof (cases tid)
        case None
        with cont have "link_children_loop self rest
            (notmuch_message_add_term m ''thread'' ct) (Some ct) db1 = (Ret (st, m', tid'), db')"
          by simp
        from Cons.IH [OF this] None show ?thesis
          by (auto intro: same_but_terms_trans [OF same_but_terms_add_term])
      next
        case (Some t)
        note tid = this
        show ?thesis
        proof (cases "t \<noteq> ct")
          case False
          with cont tid have "link_children_loop self rest m tid db1 = (Ret (st, m', tid'), db')"
            by simp
          from Cons.IH [OF this] tid show ?thesis by auto
        next
          case True
          with cont tid obtain u db2 ret2 db3 where
            "notmuch_message_sync (notmuch_message_remove_term cm ''reference'' self) db1 =
               (Ret u, db2)"
            and "merge_threads t ct db2 = (Ret ret2, db3)"
            and cont2: "(if ret2 \<noteq> NOTMUCH_STATUS_SUCCESS then xreturn (ret2, m, tid)
                         else link_children_loop self rest m tid) db3 = (Ret (st, m', tid'), db')"
            by (auto elim!: xbind_RetE)
          show ?thesis
          proof (cases "ret2 \<noteq> NOTMUCH_STATUS_SUCCESS")
            case True
            with cont2 show ?thesis by auto
          next
            case False
            with cont2 have "link_children_loop self rest m tid db3 = (Ret (st, m', tid'), db')"
              by simp
            from Cons.IH [OF this] tid show ?thesis by auto
          qed
        qed
      qed
    qed
  qed
qed

text \<open>
  What \<open>link_message\<close> does to the handle: it adds the \<^verbatim>\<open>replyto\<close> term of the designated
  parent, \<^verbatim>\<open>reference\<close> terms of parents, and \<^verbatim>\<open>thread\<close> terms.
\<close>

lemma link_message_message:
  assumes "link_message e m mf is_ghost db = (Ret (st, m'), db')"
  shows "same_but_terms m m' \<and> terms_of m \<subseteq> terms_of m' \<and>
     (\<forall>p v. (p, v) \<in> terms_of m' \<longrightarrow> (p, v) \<in> terms_of m \<or>
        (p = ''replyto'' \<and> designated_parent (notmuch_message_get_message_id m) mf = Some v) \<or>
        (p = ''reference'' \<and>
           v \<in> set (hash_table_keys e (parent_ids (notmuch_message_get_message_id m) mf))) \<or>
        p = ''thread'') \<and>
     (\<forall>r. designated_parent (notmuch_message_get_message_id m) mf = Some r \<longrightarrow>
        (''replyto'', r) \<in> terms_of m')"
proof -
  let ?self = "notmuch_message_get_message_id m"
  let ?first = "if features_ghosts db then
          (if is_ghost
           then xbind (notmuch_message_get_thread_id m) (\<lambda>t. xreturn (m, Some t))
           else xreturn (m, None))
        else
          xbind (consume_metadata_thread_id e m)
            (\<lambda>thread_id. case thread_id of
                 Some t \<Rightarrow> xreturn (notmuch_message_add_term m ''thread'' t, Some t)
               | None \<Rightarrow> xreturn (m, None))"
  from assms obtain x db0 where
    first0: "?first db = (Ret x, db0)"
    and rest: "(case x of (message0, thread_id0) \<Rightarrow>
          xbind (link_message_to_parents e message0 mf thread_id0)
            (\<lambda>(status, message1, thread_id1).
               if status \<noteq> NOTMUCH_STATUS_SUCCESS then xreturn (status, message1)
               else
                 xbind
                   (if \<not> features_ghosts db
                    then link_message_to_children message1 thread_id1
                    else xreturn (NOTMUCH_STATUS_SUCCESS, message1, thread_id1))
                   (\<lambda>(status, message2, thread_id2).
                      if status \<noteq> NOTMUCH_STATUS_SUCCESS then xreturn (status, message2)
                      else
                        (case thread_id2 of
                           None \<Rightarrow>
                             xbind notmuch_database_generate_thread_id
                               (\<lambda>t. xreturn (NOTMUCH_STATUS_SUCCESS,
                                              notmuch_message_add_term message2 ''thread'' t))
                         | Some t \<Rightarrow> xreturn (NOTMUCH_STATUS_SUCCESS, message2))))) db0
            = (Ret (st, m'), db')"
    unfolding link_message_def by (rule xbind_RetE)
  obtain m0 tid0 where x: "x = (m0, tid0)" by (cases x)
  from first0 x have first: "?first db = (Ret (m0, tid0), db0)" by simp
  from rest x obtain r1 db1 where
    par: "link_message_to_parents e m0 mf tid0 db0 = (Ret r1, db1)"
    and cont: "(case r1 of (status, message1, thread_id1) \<Rightarrow>
               if status \<noteq> NOTMUCH_STATUS_SUCCESS then xreturn (status, message1)
               else
                 xbind
                   (if \<not> features_ghosts db
                    then link_message_to_children message1 thread_id1
                    else xreturn (NOTMUCH_STATUS_SUCCESS, message1, thread_id1))
                   (\<lambda>(status, message2, thread_id2).
                      if status \<noteq> NOTMUCH_STATUS_SUCCESS then xreturn (status, message2)
                      else
                        (case thread_id2 of
                           None \<Rightarrow>
                             xbind notmuch_database_generate_thread_id
                               (\<lambda>t. xreturn (NOTMUCH_STATUS_SUCCESS,
                                              notmuch_message_add_term message2 ''thread'' t))
                         | Some t \<Rightarrow> xreturn (NOTMUCH_STATUS_SUCCESS, message2)))) db1
            = (Ret (st, m'), db')"
    by (auto elim!: xbind_RetE)
  have m0: "same_but_terms m m0 \<and> terms_of m \<subseteq> terms_of m0 \<and>
            (\<forall>p v. (p, v) \<in> terms_of m0 \<longrightarrow> (p, v) \<in> terms_of m \<or> p = ''thread'')"
    using first by (auto split: if_splits option.splits elim!: xbind_RetE)
  then have self0: "notmuch_message_get_message_id m0 = ?self"
    by (simp add: same_but_terms_def notmuch_message_get_message_id_def)
  define m0r where "m0r = (case designated_parent ?self mf of
                Some r \<Rightarrow> notmuch_message_add_term m0 ''replyto'' r | None \<Rightarrow> m0)"
  obtain st1 m1 tid1 where r1: "r1 = (st1, m1, tid1)" by (cases r1)
  from link_message_to_parents_eq [OF par] r1
  have "link_parents_loop e (hash_table_keys e (parent_ids ?self mf)) m0r tid0 db0 =
      (Ret (st1, m1, tid1), db1)" by (simp add: self0 m0r_def)
  note lp = link_parents_loop_message [OF this]
  have m0r: "same_but_terms m0 m0r \<and> terms_of m0 \<subseteq> terms_of m0r \<and>
     (\<forall>p v. (p, v) \<in> terms_of m0r \<longrightarrow> (p, v) \<in> terms_of m0 \<or>
        (p = ''replyto'' \<and> designated_parent ?self mf = Some v)) \<and>
     (\<forall>r. designated_parent ?self mf = Some r \<longrightarrow> (''replyto'', r) \<in> terms_of m0r)"
    unfolding m0r_def by (cases "designated_parent ?self mf") auto
  have s1: "same_but_terms m m1"
  proof -
    have a: "same_but_terms m m0" using m0 by simp
    have b: "same_but_terms m0 m0r" using m0r by simp
    have c: "same_but_terms m0r m1" using lp by simp
    from same_but_terms_trans [OF same_but_terms_trans [OF a b] c] show ?thesis .
  qed
  from lp have lp_sub: "terms_of m0r \<subseteq> terms_of m1"
    and lp_new: "\<And>p v. (p, v) \<in> terms_of m1 \<Longrightarrow> (p, v) \<in> terms_of m0r \<or>
        (p = ''reference'' \<and> v \<in> set (hash_table_keys e (parent_ids ?self mf))) \<or>
        p = ''thread''"
    by blast+
  from m0r have m0r_sub: "terms_of m0 \<subseteq> terms_of m0r"
    and m0r_new: "\<And>p v. (p, v) \<in> terms_of m0r \<Longrightarrow> (p, v) \<in> terms_of m0 \<or>
        (p = ''replyto'' \<and> designated_parent ?self mf = Some v)"
    and m0r_des: "\<And>r. designated_parent ?self mf = Some r \<Longrightarrow> (''replyto'', r) \<in> terms_of m0r"
    by blast+
  from m0 have m0_sub: "terms_of m \<subseteq> terms_of m0"
    and m0_new: "\<And>p v. (p, v) \<in> terms_of m0 \<Longrightarrow> (p, v) \<in> terms_of m \<or> p = ''thread''"
    by blast+
  have m1: "same_but_terms m m1 \<and> terms_of m \<subseteq> terms_of m1 \<and>
     (\<forall>p v. (p, v) \<in> terms_of m1 \<longrightarrow> (p, v) \<in> terms_of m \<or>
        (p = ''replyto'' \<and> designated_parent ?self mf = Some v) \<or>
        (p = ''reference'' \<and> v \<in> set (hash_table_keys e (parent_ids ?self mf))) \<or>
        p = ''thread'') \<and>
     (\<forall>r. designated_parent ?self mf = Some r \<longrightarrow> (''replyto'', r) \<in> terms_of m1)"
  proof (intro conjI allI impI)
    show "same_but_terms m m1" by (rule s1)
    show "terms_of m \<subseteq> terms_of m1" using m0_sub m0r_sub lp_sub by blast
    show "\<And>r. designated_parent ?self mf = Some r \<Longrightarrow> (''replyto'', r) \<in> terms_of m1"
      using m0r_des lp_sub by blast
    fix p v assume "(p, v) \<in> terms_of m1"
    from lp_new [OF this] m0r_new [of p v] m0_new [of p v]
    show "(p, v) \<in> terms_of m \<or>
        (p = ''replyto'' \<and> designated_parent ?self mf = Some v) \<or>
        (p = ''reference'' \<and> v \<in> set (hash_table_keys e (parent_ids ?self mf))) \<or>
        p = ''thread''" by blast
  qed
  have last_step: "same_but_terms m1 m' \<and> terms_of m1 \<subseteq> terms_of m' \<and>
     (\<forall>p v. (p, v) \<in> terms_of m' \<longrightarrow> (p, v) \<in> terms_of m1 \<or> p = ''thread'')"
  proof (cases "st1 \<noteq> NOTMUCH_STATUS_SUCCESS")
    case True
    with cont r1 show ?thesis by auto
  next
    case False
    with cont r1 obtain st2 m2 tid2 db2 where
      ch: "(if \<not> features_ghosts db then link_message_to_children m1 tid1
            else xreturn (NOTMUCH_STATUS_SUCCESS, m1, tid1)) db1 = (Ret (st2, m2, tid2), db2)"
      and cont2: "(if st2 \<noteq> NOTMUCH_STATUS_SUCCESS then xreturn (st2, m2)
                   else (case tid2 of
                           None \<Rightarrow>
                             xbind notmuch_database_generate_thread_id
                               (\<lambda>t. xreturn (NOTMUCH_STATUS_SUCCESS,
                                              notmuch_message_add_term m2 ''thread'' t))
                         | Some t \<Rightarrow> xreturn (NOTMUCH_STATUS_SUCCESS, m2))) db2
                  = (Ret (st, m'), db')"
      by (auto elim!: xbind_RetE)
    have m2: "same_but_terms m1 m2 \<and> terms_of m1 \<subseteq> terms_of m2 \<and>
       (\<forall>p v. (p, v) \<in> terms_of m2 \<longrightarrow> (p, v) \<in> terms_of m1 \<or> p = ''thread'')"
    proof (cases "features_ghosts db")
      case True
      with ch show ?thesis by auto
    next
      case False
      with ch have "link_children_loop (notmuch_message_get_message_id m1)
           (notmuch_database_find_doc_ids db1 ''reference'' (notmuch_message_get_message_id m1))
           m1 tid1 db1 = (Ret (st2, m2, tid2), db2)"
        by (simp add: link_message_to_children_def Let_def)
      from link_children_loop_message [OF this] show ?thesis by blast
    qed
    have "same_but_terms m2 m' \<and> terms_of m2 \<subseteq> terms_of m' \<and>
       (\<forall>p v. (p, v) \<in> terms_of m' \<longrightarrow> (p, v) \<in> terms_of m2 \<or> p = ''thread'')"
      using cont2 by (auto split: if_splits option.splits elim!: xbind_RetE)
    moreover from this m2 have "same_but_terms m1 m'"
      using same_but_terms_trans [of m1 m2 m'] by simp
    ultimately show ?thesis using m2 by blast
  qed
  show ?thesis
  proof (intro conjI allI impI)
    show "same_but_terms m m'" using m1 last_step same_but_terms_trans [of m m1 m'] by simp
    show "terms_of m \<subseteq> terms_of m'" using m1 last_step by blast
    show "\<And>r. designated_parent ?self mf = Some r \<Longrightarrow> (''replyto'', r) \<in> terms_of m'"
      using m1 last_step by blast
    fix p v assume "(p, v) \<in> terms_of m'"
    with last_step have "(p, v) \<in> terms_of m1 \<or> p = ''thread''" by blast
    with m1 show "(p, v) \<in> terms_of m \<or>
        (p = ''replyto'' \<and> designated_parent ?self mf = Some v) \<or>
        (p = ''reference'' \<and> v \<in> set (hash_table_keys e (parent_ids ?self mf))) \<or>
        p = ''thread''" by blast
  qed
qed


subsection \<open>A successful add, step by step\<close>

text \<open>
  The handle that \<open>add_message_try\<close> passes to \<open>link_message\<close> (lines 664 to 676), and the
  one that it syncs (lines 683 to 693).
\<close>

definition prepared_message :: "message \<Rightarrow> string \<Rightarrow> bool \<Rightarrow> message" where
  "prepared_message m filename is_ghost =
     (let m2 = notmuch_message_add_term (notmuch_message_add_filename m filename) ''type'' ''mail''
      in if is_ghost then notmuch_message_remove_term m2 ''type'' ''ghost'' else m2)"

definition finished_message :: "message \<Rightarrow> message_file \<Rightarrow> message" where
  "finished_message m4 mf =
     snd (notmuch_message_index_file
            (notmuch_message_set_header_values m4 (mf_headers mf ''date'')
               (mf_headers mf ''from'') (mf_headers mf ''subject'')) mf)"

lemma create_for_message_id_cases:
  obtains (found) i d where "find_doc_id_by_message_id db mid = Some i"
      and "i < length (docs db)" and "docs db ! i = Some d" and "doc_message_id d = mid"
      and "notmuch_message_create_for_message_id mid db =
             (Ret (Some \<lparr>msg_doc_id = i, msg_doc = d\<rparr>, Public NOTMUCH_STATUS_SUCCESS), db)"
    | (blank) "find_doc_id_by_message_id db mid = None"
      and "notmuch_message_create_for_message_id mid db =
             (Ret (Some \<lparr>msg_doc_id = length (docs db), msg_doc = blank_document mid\<rparr>,
                   NOTMUCH_PRIVATE_STATUS_NO_DOCUMENT_FOUND), db\<lparr>docs := docs db @ [None]\<rparr>)"
proof (cases "find_doc_id_by_message_id db mid")
  case None
  then show ?thesis by (intro blank) (simp_all add: notmuch_message_create_for_message_id_def)
next
  case (Some i)
  from find_doc_id_by_message_id_Some [OF Some] obtain d where
    "i < length (docs db)" "docs db ! i = Some d" "doc_message_id d = mid" by blast
  with Some show ?thesis
    by (intro found [of i d])
      (simp_all add: notmuch_message_create_for_message_id_def notmuch_message_create_def)
qed

lemma add_message_try_SUCCESS:
  assumes "add_message_try e filename mf mid (mf_headers mf ''from'') (mf_headers mf ''subject'') db
             = (Ret (NOTMUCH_STATUS_SUCCESS, mo), db')"
  obtains m ps db1 m4 db2 where
    "notmuch_message_create_for_message_id mid db = (Ret (Some m, ps), db1)"
    and "ps = NOTMUCH_PRIVATE_STATUS_NO_DOCUMENT_FOUND \<or>
         notmuch_message_get_flag_ghost (notmuch_message_add_filename m filename)"
    and "link_message e
           (prepared_message m filename
              (ps \<noteq> NOTMUCH_PRIVATE_STATUS_NO_DOCUMENT_FOUND \<and>
               notmuch_message_get_flag_ghost (notmuch_message_add_filename m filename)))
           mf
           (ps \<noteq> NOTMUCH_PRIVATE_STATUS_NO_DOCUMENT_FOUND \<and>
            notmuch_message_get_flag_ghost (notmuch_message_add_filename m filename)) db1
         = (Ret (NOTMUCH_STATUS_SUCCESS, m4), db2)"
    and "mf_index_status mf = NOTMUCH_STATUS_SUCCESS"
    and "notmuch_message_sync (finished_message m4 mf) db2 = (Ret (), db')"
    and "mo = Some (finished_message m4 mf)"
proof -
  from assms obtain x db1 where
    cr0: "notmuch_message_create_for_message_id mid db = (Ret x, db1)"
    and rest: "(case x of (message, private_status) \<Rightarrow>
          case message of
            None \<Rightarrow> xbind (coerce_status private_status) (\<lambda>ret. xreturn (ret, None))
          | Some m \<Rightarrow>
              (let m1 = notmuch_message_add_filename m filename;
                   is_ghost = (private_status \<noteq> NOTMUCH_PRIVATE_STATUS_NO_DOCUMENT_FOUND \<and>
                               notmuch_message_get_flag_ghost m1)
               in if private_status = NOTMUCH_PRIVATE_STATUS_NO_DOCUMENT_FOUND \<or> is_ghost then
                    (let m2 = notmuch_message_add_term m1 ''type'' ''mail'';
                         m3 = (if is_ghost then notmuch_message_remove_term m2 ''type'' ''ghost''
                               else m2)
                     in xbind (link_message e m3 mf is_ghost)
                          (\<lambda>(ret, m4).
                             if ret \<noteq> NOTMUCH_STATUS_SUCCESS then xreturn (ret, Some m4)
                             else
                               (let date = mf_headers mf ''date'';
                                    m5 = notmuch_message_set_header_values m4 date
                                           (mf_headers mf ''from'') (mf_headers mf ''subject'')
                                in case notmuch_message_index_file m5 mf of
                                     (ret, m6) \<Rightarrow>
                                       if ret \<noteq> NOTMUCH_STATUS_SUCCESS then xreturn (ret, Some m6)
                                       else xbind (notmuch_message_sync m6)
                                              (\<lambda>_. xreturn (NOTMUCH_STATUS_SUCCESS, Some m6)))))
                  else
                    xbind (notmuch_message_sync m1)
                      (\<lambda>_. xreturn (NOTMUCH_STATUS_DUPLICATE_MESSAGE_ID, Some m1)))) db1
        = (Ret (NOTMUCH_STATUS_SUCCESS, mo), db')"
    unfolding add_message_try_def by (rule xbind_RetE)
  obtain message ps where x: "x = (message, ps)" by (cases x)
  from cr0 x have "message \<noteq> None"
    by (cases rule: create_for_message_id_cases [of db mid]) auto
  then obtain m where m: "message = Some m" by auto
  let ?g = "ps \<noteq> NOTMUCH_PRIVATE_STATUS_NO_DOCUMENT_FOUND \<and>
            notmuch_message_get_flag_ghost (notmuch_message_add_filename m filename)"
  have go: "ps = NOTMUCH_PRIVATE_STATUS_NO_DOCUMENT_FOUND \<or>
            notmuch_message_get_flag_ghost (notmuch_message_add_filename m filename)"
  proof (rule ccontr)
    assume "\<not> ?thesis"
    with rest x m show False by (auto simp: Let_def elim!: xbind_RetE)
  qed
  then have go': "ps = NOTMUCH_PRIVATE_STATUS_NO_DOCUMENT_FOUND \<or> ?g" by blast
  from rest x m go' obtain y db2 where
    lm0: "link_message e (prepared_message m filename ?g) mf ?g db1 = (Ret y, db2)"
    and rest2: "(case y of (ret, m4) \<Rightarrow>
                  if ret \<noteq> NOTMUCH_STATUS_SUCCESS then xreturn (ret, Some m4)
                  else
                    (let date = mf_headers mf ''date'';
                         m5 = notmuch_message_set_header_values m4 date
                                (mf_headers mf ''from'') (mf_headers mf ''subject'')
                     in case notmuch_message_index_file m5 mf of
                          (ret, m6) \<Rightarrow>
                            if ret \<noteq> NOTMUCH_STATUS_SUCCESS then xreturn (ret, Some m6)
                            else xbind (notmuch_message_sync m6)
                                   (\<lambda>_. xreturn (NOTMUCH_STATUS_SUCCESS, Some m6)))) db2
               = (Ret (NOTMUCH_STATUS_SUCCESS, mo), db')"
    by (simp add: Let_def prepared_message_def) (erule xbind_RetE, simp)
  obtain ret m4 where y: "y = (ret, m4)" by (cases y)
  from rest2 y have ret: "ret = NOTMUCH_STATUS_SUCCESS" by (auto split: if_splits)
  let ?m5 = "notmuch_message_set_header_values m4 (mf_headers mf ''date'')
               (mf_headers mf ''from'') (mf_headers mf ''subject'')"
  obtain ret6 m6 where ix: "notmuch_message_index_file ?m5 mf = (ret6, m6)"
    by (cases "notmuch_message_index_file ?m5 mf")
  from rest2 y ret ix have ret6: "ret6 = NOTMUCH_STATUS_SUCCESS"
    by (auto simp: Let_def split: if_splits)
  with ix have ok: "mf_index_status mf = NOTMUCH_STATUS_SUCCESS"
    by (auto simp: notmuch_message_index_file_def split: if_splits)
  from ix have m6: "m6 = finished_message m4 mf" by (simp add: finished_message_def)
  from rest2 y ret ix ret6 obtain u where
    sy: "notmuch_message_sync m6 db2 = (Ret u, db')" and mo: "mo = Some m6"
    by (auto simp: Let_def elim!: xbind_RetE)
  show ?thesis
    using that [of m ps db1 m4 db2] cr0 x m go lm0 y ret ok sy mo m6 by simp
qed


lemma add_message_to_done_SUCCESS:
  assumes "add_message_to_done e filename mf db = (Ret (NOTMUCH_STATUS_SUCCESS, mo), db2)"
  obtains db1 mid where
    "notmuch_database_begin_atomic db = (NOTMUCH_STATUS_SUCCESS, db1)"
    and "mf_parse_status mf = NOTMUCH_STATUS_SUCCESS"
    and "fst (find_message_id e filename mf db) = Ret (Some mid)"
    and "add_message_try e filename mf mid (mf_headers mf ''from'') (mf_headers mf ''subject'') db1
           = (Ret (NOTMUCH_STATUS_SUCCESS, mo), db2)"
proof -
  obtain ret db1 where b: "notmuch_database_begin_atomic db = (ret, db1)"
    by (cases "notmuch_database_begin_atomic db")
  with assms have ret: "ret = NOTMUCH_STATUS_SUCCESS"
    by (auto simp: add_message_to_done_def split: if_splits)
  from assms b ret have ps: "mf_parse_status mf = NOTMUCH_STATUS_SUCCESS"
    by (auto simp: add_message_to_done_def split: if_splits)
  obtain r where fm: "find_message_id e filename mf db1 = (r, db1)"
    using find_message_id_eq [of e filename mf db1 _ db1] by blast
  from assms b ret ps fm obtain mid where r: "r = Ret (Some mid)"
    and tr: "(case add_message_try e filename mf mid (mf_headers mf ''from'')
                (mf_headers mf ''subject'') db1 of
                          (Throw Xapian_Error, db3) \<Rightarrow>
                            (Ret (NOTMUCH_STATUS_XAPIAN_EXCEPTION, None),
                             db3\<lparr>exception_reported := True\<rparr>)
                        | (Throw Internal_Error, db3) \<Rightarrow> (Throw Internal_Error, db3)
                        | (Ret r, db3) \<Rightarrow> (Ret r, db3)) = (Ret (NOTMUCH_STATUS_SUCCESS, mo), db2)"
    by (auto simp: add_message_to_done_def Let_def split: if_splits result.splits option.splits)
  from tr have "add_message_try e filename mf mid (mf_headers mf ''from'')
      (mf_headers mf ''subject'') db1 = (Ret (NOTMUCH_STATUS_SUCCESS, mo), db2)"
    by (auto split: prod.splits result.splits exn.splits)
  moreover from fm r have "fst (find_message_id e filename mf db) = Ret (Some mid)"
    using find_message_id_state [of e filename mf db db1] by simp
  ultimately show ?thesis using that [of db1 mid] b ret ps by simp
qed

lemma add_message_SUCCESS:
  assumes "notmuch_database_add_message e filename db = (Ret (NOTMUCH_STATUS_SUCCESS, mr), db')"
  obtains mf db2 where
    "writable db" and "message_files e filename = Some mf"
    and "add_message_to_done e filename mf db = (Ret (NOTMUCH_STATUS_SUCCESS, mr), db2)"
    and "notmuch_database_end_atomic db2 = (NOTMUCH_STATUS_SUCCESS, db')"
proof -
  from assms have w: "writable db"
    by (auto simp: notmuch_database_add_message_def notmuch_database_ensure_writable_def Let_def
        split: if_splits)
  with assms obtain mf where mf: "message_files e filename = Some mf"
    by (cases "message_files e filename")
      (auto simp: notmuch_database_add_message_def notmuch_database_ensure_writable_def Let_def)
  obtain r db2 where td: "add_message_to_done e filename mf db = (r, db2)"
    by (cases "add_message_to_done e filename mf db")
  obtain ret2 db3 where ea: "notmuch_database_end_atomic db2 = (ret2, db3)"
    by (cases "notmuch_database_end_atomic db2")
  from assms w mf td obtain ret mo where r: "r = Ret (ret, mo)"
    by (cases r)
      (auto simp: notmuch_database_add_message_def notmuch_database_ensure_writable_def Let_def)
  from assms w mf td r ea have "ret = NOTMUCH_STATUS_SUCCESS \<and> ret2 = NOTMUCH_STATUS_SUCCESS \<and>
      mr = mo \<and> db3 = db'"
    by (auto simp: notmuch_database_add_message_def notmuch_database_ensure_writable_def Let_def
        split: if_splits)
  with td r ea w mf show ?thesis using that [of mf db2] by simp
qed


text \<open>The document that the index holds for a message-ID, if any.\<close>

definition lookup_document :: "database \<Rightarrow> string \<Rightarrow> document option" where
  "lookup_document db mid =
     (case find_doc_id_by_message_id db mid of None \<Rightarrow> None | Some i \<Rightarrow> docs db ! i)"

lemma terms_of_finished_message [simp]: "terms_of (finished_message m mf) = terms_of m"
  by (simp add: finished_message_def notmuch_message_index_file_def
      notmuch_message_set_header_values_def terms_of_def)

lemma message_id_finished_message [simp]:
  "notmuch_message_get_message_id (finished_message m mf) = notmuch_message_get_message_id m"
  by (simp add: finished_message_def notmuch_message_index_file_def
      notmuch_message_set_header_values_def notmuch_message_get_message_id_def)

lemma doc_id_finished_message [simp]: "msg_doc_id (finished_message m mf) = msg_doc_id m"
  by (simp add: finished_message_def notmuch_message_index_file_def
      notmuch_message_set_header_values_def)

lemma terms_of_prepared_message:
  "terms_of (prepared_message m filename g) =
     (if g then insert (''type'', ''mail'') (terms_of m) - {(''type'', ''ghost'')}
      else insert (''type'', ''mail'') (terms_of m))"
  by (auto simp: prepared_message_def Let_def terms_of_def notmuch_message_add_term_def
      notmuch_message_remove_term_def notmuch_message_add_filename_def)

lemma message_id_prepared_message [simp]:
  "notmuch_message_get_message_id (prepared_message m filename g) =
     notmuch_message_get_message_id m"
  by (simp add: prepared_message_def Let_def notmuch_message_get_message_id_def
      notmuch_message_add_term_def notmuch_message_remove_term_def notmuch_message_add_filename_def)

lemma doc_id_prepared_message [simp]: "msg_doc_id (prepared_message m filename g) = msg_doc_id m"
  by (simp add: prepared_message_def Let_def
      notmuch_message_add_term_def notmuch_message_remove_term_def notmuch_message_add_filename_def)

lemma same_but_terms_message_id:
  "same_but_terms m m' \<Longrightarrow> notmuch_message_get_message_id m' = notmuch_message_get_message_id m"
  by (simp add: same_but_terms_def notmuch_message_get_message_id_def)

text \<open>
  The handle that a successful add returns, in terms of the document that the index
  held for the message-ID before: its message-ID is that of step A, and its terms are
  those of that document together with what linking added.
\<close>

lemma add_message_SUCCESS_terms:
  assumes "notmuch_database_add_message e filename db = (Ret (NOTMUCH_STATUS_SUCCESS, mr), db')"
    and "message_files e filename = Some mf"
  obtains m' mid where "mr = Some m'"
    and "fst (find_message_id e filename mf db) = Ret (Some mid)"
    and "notmuch_message_get_message_id m' = mid"
    and "\<forall>p v. has_term (lookup_document db mid) p v \<longrightarrow> (p, v) \<noteq> (''type'', ''ghost'') \<longrightarrow>
           (p, v) \<in> terms_of m'"
    and "\<forall>p v. (p, v) \<in> terms_of m' \<longrightarrow>
           has_term (lookup_document db mid) p v \<or> (p, v) = (''type'', ''mail'') \<or>
           (p = ''replyto'' \<and> designated_parent mid mf = Some v) \<or>
           (p = ''reference'' \<and> v \<in> set (hash_table_keys e (parent_ids mid mf))) \<or>
           p = ''thread''"
    and "\<forall>r. designated_parent mid mf = Some r \<longrightarrow> (''replyto'', r) \<in> terms_of m'"
proof -
  from assms(1) obtain mf' db2 where
    "message_files e filename = Some mf'"
    and td: "add_message_to_done e filename mf' db = (Ret (NOTMUCH_STATUS_SUCCESS, mr), db2)"
    by (rule add_message_SUCCESS)
  with assms(2) have td: "add_message_to_done e filename mf db =
      (Ret (NOTMUCH_STATUS_SUCCESS, mr), db2)" by simp
  from td obtain db1 mid where
    b: "notmuch_database_begin_atomic db = (NOTMUCH_STATUS_SUCCESS, db1)"
    and fm: "fst (find_message_id e filename mf db) = Ret (Some mid)"
    and tr: "add_message_try e filename mf mid (mf_headers mf ''from'') (mf_headers mf ''subject'')
               db1 = (Ret (NOTMUCH_STATUS_SUCCESS, mr), db2)"
    by (rule add_message_to_done_SUCCESS)
  from tr obtain m ps db1' m4 db3 where
    cr: "notmuch_message_create_for_message_id mid db1 = (Ret (Some m, ps), db1')"
    and lm: "link_message e
           (prepared_message m filename
              (ps \<noteq> NOTMUCH_PRIVATE_STATUS_NO_DOCUMENT_FOUND \<and>
               notmuch_message_get_flag_ghost (notmuch_message_add_filename m filename)))
           mf
           (ps \<noteq> NOTMUCH_PRIVATE_STATUS_NO_DOCUMENT_FOUND \<and>
            notmuch_message_get_flag_ghost (notmuch_message_add_filename m filename)) db1'
         = (Ret (NOTMUCH_STATUS_SUCCESS, m4), db3)"
    and mr: "mr = Some (finished_message m4 mf)"
    by (rule add_message_try_SUCCESS)
  define g where "g = (ps \<noteq> NOTMUCH_PRIVATE_STATUS_NO_DOCUMENT_FOUND \<and>
               notmuch_message_get_flag_ghost (notmuch_message_add_filename m filename))"
  from begin_atomic_keeps [OF b] have d1: "docs db1 = docs db" by simp
  have lk: "lookup_document db1 mid = lookup_document db mid"
    using find_doc_id_by_message_id_docs [OF d1, of mid] d1
    by (simp add: lookup_document_def cong: option.case_cong)
  have m: "notmuch_message_get_message_id m = mid \<and>
           (\<forall>p v. (p, v) \<in> terms_of m \<longleftrightarrow> has_term (lookup_document db mid) p v)"
  proof (cases rule: create_for_message_id_cases [of db1 mid])
    case (found i d)
    then have "lookup_document db1 mid = Some d" by (simp add: lookup_document_def)
    with lk have ld: "lookup_document db mid = Some d" by simp
    from found(5) cr have "m = \<lparr>msg_doc_id = i, msg_doc = d\<rparr>" by simp
    with found(4) show ?thesis
      by (simp add: ld notmuch_message_get_message_id_def terms_of_def has_term_def)
  next
    case blank
    then have "lookup_document db1 mid = None" by (simp add: lookup_document_def)
    with lk have ld: "lookup_document db mid = None" by simp
    from blank(2) cr have
      "m = \<lparr>msg_doc_id = length (docs db1), msg_doc = blank_document mid\<rparr>" by simp
    then show ?thesis
      by (simp add: ld notmuch_message_get_message_id_def terms_of_def has_term_def
          blank_document_def)
  qed
  note l = link_message_message [OF lm [folded g_def]]
  from l have l_same: "same_but_terms (prepared_message m filename g) m4"
    and l_sub: "terms_of (prepared_message m filename g) \<subseteq> terms_of m4"
    and l_new: "\<And>p v. (p, v) \<in> terms_of m4 \<Longrightarrow>
        (p, v) \<in> terms_of (prepared_message m filename g) \<or>
        (p = ''replyto'' \<and> designated_parent mid mf = Some v) \<or>
        (p = ''reference'' \<and> v \<in> set (hash_table_keys e (parent_ids mid mf))) \<or>
        p = ''thread''"
    and l_des: "\<And>r. designated_parent mid mf = Some r \<Longrightarrow> (''replyto'', r) \<in> terms_of m4"
    using m by (simp_all add: subset_iff)
  show ?thesis
  proof (rule that [of "finished_message m4 mf" mid])
    show "mr = Some (finished_message m4 mf)" by (rule mr)
    show "fst (find_message_id e filename mf db) = Ret (Some mid)" by (rule fm)
    show "notmuch_message_get_message_id (finished_message m4 mf) = mid"
      using same_but_terms_message_id [OF l_same] m by simp
    show "\<forall>r. designated_parent mid mf = Some r \<longrightarrow>
        (''replyto'', r) \<in> terms_of (finished_message m4 mf)"
      using l_des by simp
    show "\<forall>p v. has_term (lookup_document db mid) p v \<longrightarrow> (p, v) \<noteq> (''type'', ''ghost'') \<longrightarrow>
           (p, v) \<in> terms_of (finished_message m4 mf)"
    proof (intro allI impI)
      fix p v assume "has_term (lookup_document db mid) p v" and "(p, v) \<noteq> (''type'', ''ghost'')"
      with m have "(p, v) \<in> terms_of (prepared_message m filename g)"
        by (auto simp: terms_of_prepared_message)
      with l_sub show "(p, v) \<in> terms_of (finished_message m4 mf)" by auto
    qed
    show "\<forall>p v. (p, v) \<in> terms_of (finished_message m4 mf) \<longrightarrow>
           has_term (lookup_document db mid) p v \<or> (p, v) = (''type'', ''mail'') \<or>
           (p = ''replyto'' \<and> designated_parent mid mf = Some v) \<or>
           (p = ''reference'' \<and> v \<in> set (hash_table_keys e (parent_ids mid mf))) \<or>
           p = ''thread''"
    proof (intro allI impI)
      fix p v assume "(p, v) \<in> terms_of (finished_message m4 mf)"
      then have "(p, v) \<in> terms_of m4" by simp
      from l_new [OF this] m
      show "has_term (lookup_document db mid) p v \<or> (p, v) = (''type'', ''mail'') \<or>
           (p = ''replyto'' \<and> designated_parent mid mf = Some v) \<or>
           (p = ''reference'' \<and> v \<in> set (hash_table_keys e (parent_ids mid mf))) \<or>
           p = ''thread''"
        by (auto simp: terms_of_prepared_message split: if_splits)
    qed
  qed
qed


section \<open>What linking does to the index\<close>

text \<open>
  Linking never removes a document, never fills a document id that was reserved
  before, and never changes the message-ID of a document: the documents of \<open>db\<close> are
  in \<open>db'\<close> under the same ids with the same message-IDs.
\<close>

definition ids_kept :: "database \<Rightarrow> database \<Rightarrow> bool" where
  "ids_kept db db' =
     (length (docs db) \<le> length (docs db') \<and>
      (\<forall>j<length (docs db).
         map_option doc_message_id (docs db' ! j) = map_option doc_message_id (docs db ! j)))"

lemma ids_kept_refl [simp]: "ids_kept db db"
  by (simp add: ids_kept_def)

lemma ids_kept_docs: "docs db' = docs db \<Longrightarrow> ids_kept db db'"
  by (simp add: ids_kept_def)

lemma ids_kept_trans: "ids_kept db db1 \<Longrightarrow> ids_kept db1 db2 \<Longrightarrow> ids_kept db db2"
  by (auto simp: ids_kept_def)

lemma ids_kept_length: "ids_kept db db' \<Longrightarrow> i < length (docs db) \<Longrightarrow> i < length (docs db')"
  by (simp add: ids_kept_def)

lemma ids_kept_has_message_id:
  "ids_kept db db' \<Longrightarrow> j < length (docs db) \<Longrightarrow>
     has_message_id (docs db' ! j) mid = has_message_id (docs db ! j) mid"
proof -
  assume k: "ids_kept db db'" and j: "j < length (docs db)"
  then have "map_option doc_message_id (docs db' ! j) = map_option doc_message_id (docs db ! j)"
    by (simp add: ids_kept_def)
  then show ?thesis
    by (cases "docs db ! j"; cases "docs db' ! j") (simp_all add: has_message_id_def)
qed

lemma sync_ids_kept:
  assumes "notmuch_message_sync m db = (Ret u, db')"
    and "msg_doc_id m < length (docs db)"
    and "map_option doc_message_id (docs db ! msg_doc_id m) = Some (doc_message_id (msg_doc m))"
  shows "ids_kept db db'"
proof -
  from sync_Ret [OF assms(1)]
  have d: "docs db' = (docs db)[msg_doc_id m := Some (msg_doc m)]" by simp
  show ?thesis
    unfolding ids_kept_def d using assms(2,3) by (auto simp: nth_list_update)
qed

lemma doc_message_id_rethread [simp]: "doc_message_id (rethread w l d) = doc_message_id d"
  by (simp add: rethread_def notmuch_message_add_term_def notmuch_message_remove_term_def)

lemma merge_threads_ids_kept:
  assumes "merge_threads w l db = (Ret st, db')"
  shows "ids_kept db db'"
proof -
  from merge_threads_Ret [OF assms] have len: "length (docs db') = length (docs db)"
    and each: "\<forall>j<length (docs db). docs db' ! j =
            (if has_term (docs db ! j) ''thread'' l
             then map_option (rethread w l) (docs db ! j) else docs db ! j)"
    by simp_all
  show ?thesis
    unfolding ids_kept_def
  proof (intro conjI allI impI)
    show "length (docs db) \<le> length (docs db')" using len by simp
    fix j assume "j < length (docs db)"
    with each have "docs db' ! j =
            (if has_term (docs db ! j) ''thread'' l
             then map_option (rethread w l) (docs db ! j) else docs db ! j)" by simp
    then show "map_option doc_message_id (docs db' ! j) = map_option doc_message_id (docs db ! j)"
      by (cases "docs db ! j") (simp_all split: if_splits)
  qed
qed

lemma generate_thread_id_docs:
  "notmuch_database_generate_thread_id db = (Ret t, db') \<Longrightarrow> docs db' = docs db"
  using generate_thread_id_Ret [of db t db'] by simp

lemma set_metadata_docs:
  "set_metadata key val db = (Ret u, db') \<Longrightarrow> docs db' = docs db"
  using set_metadata_Ret [of key val db u db'] by simp

lemma find_message_cases:
  obtains (found) i d where "find_doc_id_by_message_id db mid = Some i"
      and "notmuch_database_find_message db mid =
             (NOTMUCH_STATUS_SUCCESS, Some \<lparr>msg_doc_id = i, msg_doc = d\<rparr>)"
    | (absent) "find_doc_id_by_message_id db mid = None"
      and "notmuch_database_find_message db mid = (NOTMUCH_STATUS_SUCCESS, None)"
proof (cases "find_doc_id_by_message_id db mid")
  case None
  then show ?thesis by (intro absent) (simp_all add: notmuch_database_find_message_def)
next
  case (Some i)
  from find_doc_id_by_message_id_Some [OF Some] obtain d where
    "i < length (docs db)" "docs db ! i = Some d" "doc_message_id d = mid" by blast
  with Some show ?thesis
    by (intro found [of i d])
      (simp_all add: notmuch_database_find_message_def notmuch_message_create_def)
qed

lemma resolve_old_docs:
  assumes "resolve_message_id_to_thread_id_old e k db = (Ret r, db')"
  shows "docs db' = docs db"
proof (cases rule: find_message_cases [of db k])
  case (found i d)
  with assms show ?thesis
    by (auto simp: resolve_message_id_to_thread_id_old_def elim!: xbind_RetE
        dest: get_thread_id_Ret)
next
  case absent
  show ?thesis
  proof (cases "get_metadata db (get_metadata_thread_id_key e k) = []")
    case False
    with assms absent show ?thesis
      by (simp add: resolve_message_id_to_thread_id_old_def Let_def)
  next
    case True
    with assms absent obtain t db1 u db2 where
      g: "notmuch_database_generate_thread_id db = (Ret t, db1)"
      and s: "set_metadata (get_metadata_thread_id_key e k) t db1 = (Ret u, db2)"
      and "db' = db2"
      by (auto simp: resolve_message_id_to_thread_id_old_def Let_def elim!: xbind_RetE)
    with generate_thread_id_docs [OF g] set_metadata_docs [OF s] show ?thesis by simp
  qed
qed

lemma coerce_status_state: "coerce_status s db = (Ret x, db') \<Longrightarrow> db' = db"
  by (cases s) (auto simp: coerce_status_def split: if_splits)

lemma resolve_ids_kept:
  assumes "resolve_message_id_to_thread_id e k db = (Ret r, db')"
  shows "ids_kept db db'"
proof (cases "features_ghosts db")
  case False
  with assms have "resolve_message_id_to_thread_id_old e k db = (Ret r, db')"
    by (simp add: resolve_message_id_to_thread_id_def)
  from resolve_old_docs [OF this] show ?thesis by (rule ids_kept_docs)
next
  case True
  note fg = this
  show ?thesis
  proof (cases rule: create_for_message_id_cases [of db k])
    case (found i d)
    from assms fg obtain t db1 st where
      gt: "notmuch_message_get_thread_id \<lparr>msg_doc_id = i, msg_doc = d\<rparr> db = (Ret t, db1)"
      and cs: "coerce_status (Public NOTMUCH_STATUS_SUCCESS) db1 = (Ret st, db')"
      by (auto simp: resolve_message_id_to_thread_id_def
          xbind_Ret [of "notmuch_message_create_for_message_id k" db, OF found(5)]
          elim!: xbind_RetE)
    from get_thread_id_Ret [OF gt] coerce_status_state [OF cs] have "db' = db" by simp
    then show ?thesis by simp
  next
    case blank
    let ?db0 = "db\<lparr>docs := docs db @ [None]\<rparr>"
    let ?m = "\<lparr>msg_doc_id = length (docs db), msg_doc = blank_document k\<rparr>"
    from assms fg obtain t db1 u db2 st where
      g: "notmuch_database_generate_thread_id ?db0 = (Ret t, db1)"
      and s: "notmuch_message_sync
          (notmuch_message_add_term (notmuch_message_add_term ?m ''type'' ''ghost'') ''thread'' t)
          db1 = (Ret u, db2)"
      and cs: "coerce_status (Public NOTMUCH_STATUS_SUCCESS) db2 = (Ret st, db')"
      by (auto simp: resolve_message_id_to_thread_id_def
          xbind_Ret [of "notmuch_message_create_for_message_id k" db, OF blank(2)]
          notmuch_message_initialize_ghost_def elim!: xbind_RetE)
    from coerce_status_state [OF cs] have "db' = db2" .
    moreover from generate_thread_id_docs [OF g] have d1: "docs db1 = docs db @ [None]" by simp
    moreover from sync_Ret [OF s]
    have "docs db2 = (docs db1)[length (docs db) :=
        Some (msg_doc (notmuch_message_add_term
          (notmuch_message_add_term ?m ''type'' ''ghost'') ''thread'' t))]"
      by (simp add: notmuch_message_add_term_def)
    ultimately show ?thesis
      by (auto simp: ids_kept_def nth_append nth_list_update)
  qed
qed

lemma link_parents_loop_ids_kept:
  "link_parents_loop e keys m tid db = (Ret x, db') \<Longrightarrow> ids_kept db db'"
proof (induction keys arbitrary: m tid db)
  case Nil
  then show ?case by simp
next
  case (Cons k l)
  let ?m1 = "notmuch_message_add_term m ''reference'' k"
  from Cons.prems obtain r db1 where
    res: "resolve_message_id_to_thread_id e k db = (Ret r, db1)"
    and cont: "(case r of (ret, parent_thread_id) \<Rightarrow>
              if ret \<noteq> NOTMUCH_STATUS_SUCCESS then xreturn (ret, ?m1, tid)
              else
                (case parent_thread_id of
                   None \<Rightarrow> xthrow Internal_Error
                 | Some ptid \<Rightarrow>
                     (case tid of
                        None \<Rightarrow>
                          link_parents_loop e l
                            (notmuch_message_add_term ?m1 ''thread'' ptid) (Some ptid)
                      | Some t \<Rightarrow>
                          if t \<noteq> ptid then
                            xbind (merge_threads t ptid)
                              (\<lambda>ret. if ret \<noteq> NOTMUCH_STATUS_SUCCESS
                                      then xreturn (ret, ?m1, tid)
                                      else link_parents_loop e l ?m1 tid)
                          else link_parents_loop e l ?m1 tid))) db1 = (Ret x, db')"
    by (auto simp: Let_def elim!: xbind_RetE)
  note k1 = resolve_ids_kept [OF res]
  obtain ret parent_thread_id where r: "r = (ret, parent_thread_id)" by (cases r)
  show ?case
  proof (cases "ret \<noteq> NOTMUCH_STATUS_SUCCESS")
    case True
    with cont r k1 show ?thesis by auto
  next
    case False
    note ok = this
    with cont r obtain ptid where p: "parent_thread_id = Some ptid"
      by (cases parent_thread_id) auto
    show ?thesis
    proof (cases tid)
      case None
      with cont r ok p have
        "link_parents_loop e l (notmuch_message_add_term ?m1 ''thread'' ptid) (Some ptid) db1 =
           (Ret x, db')" by simp
      from ids_kept_trans [OF k1 Cons.IH [OF this]] show ?thesis .
    next
      case (Some t)
      show ?thesis
      proof (cases "t \<noteq> ptid")
        case False
        with cont r ok p Some have "link_parents_loop e l ?m1 tid db1 = (Ret x, db')"
          by simp
        from ids_kept_trans [OF k1 Cons.IH [OF this]] show ?thesis .
      next
        case True
        with cont r ok p Some obtain ret2 db2 where
          mt: "merge_threads t ptid db1 = (Ret ret2, db2)"
          and cont2: "(if ret2 \<noteq> NOTMUCH_STATUS_SUCCESS then xreturn (ret2, ?m1, tid)
                       else link_parents_loop e l ?m1 tid) db2 = (Ret x, db')"
          by (auto elim!: xbind_RetE)
        note k2 = ids_kept_trans [OF k1 merge_threads_ids_kept [OF mt]]
        show ?thesis
        proof (cases "ret2 \<noteq> NOTMUCH_STATUS_SUCCESS")
          case True
          with cont2 k2 show ?thesis by auto
        next
          case False
          with cont2 have "link_parents_loop e l ?m1 tid db2 = (Ret x, db')" by simp
          from ids_kept_trans [OF k2 Cons.IH [OF this]] show ?thesis .
        qed
      qed
    qed
  qed
qed

lemma message_create_Some:
  "notmuch_message_create db c = (Some cm, ps) \<Longrightarrow>
     c < length (docs db) \<and> docs db ! c = Some (msg_doc cm) \<and> msg_doc_id cm = c"
  by (auto simp: notmuch_message_create_def split: if_splits option.splits)

lemma link_children_loop_ids_kept:
  "link_children_loop self children m tid db = (Ret x, db') \<Longrightarrow> ids_kept db db'"
proof (induction children arbitrary: m tid db)
  case Nil
  then show ?case by simp
next
  case (Cons c rest)
  show ?case
  proof (cases "notmuch_message_create db c")
    case (Pair mo ps)
    show ?thesis
    proof (cases mo)
      case None
      with Pair Cons.prems show ?thesis
        by (auto elim!: xbind_RetE dest: coerce_status_state)
    next
      case (Some cm)
      with Pair have cr: "notmuch_message_create db c = (Some cm, ps)" by simp
      note cm = message_create_Some [OF cr]
      from Some Pair Cons.prems obtain ct db1 where
        gt: "notmuch_message_get_thread_id cm db = (Ret ct, db1)"
        and cont: "(case tid of
                 None \<Rightarrow>
                   link_children_loop self rest
                     (notmuch_message_add_term m ''thread'' ct) (Some ct)
               | Some t \<Rightarrow>
                   if t \<noteq> ct then
                     xbind (notmuch_message_sync
                              (notmuch_message_remove_term cm ''reference'' self))
                       (\<lambda>_. xbind (merge_threads t ct)
                          (\<lambda>ret. if ret \<noteq> NOTMUCH_STATUS_SUCCESS
                                  then xreturn (ret, m, tid)
                                  else link_children_loop self rest m tid))
                   else link_children_loop self rest m tid) db1 = (Ret x, db')"
        by (auto elim!: xbind_RetE)
      from get_thread_id_Ret [OF gt] have db1: "db1 = db" by simp
      show ?thesis
      proof (cases tid)
        case None
        with cont have "link_children_loop self rest
            (notmuch_message_add_term m ''thread'' ct) (Some ct) db1 = (Ret x, db')"
          by simp
        from Cons.IH [OF this] db1 show ?thesis by simp
      next
        case (Some t)
        note tid = this
        show ?thesis
        proof (cases "t \<noteq> ct")
          case False
          with cont tid have "link_children_loop self rest m tid db1 = (Ret x, db')"
            by simp
          from Cons.IH [OF this] db1 show ?thesis by simp
        next
          case True
          with cont tid obtain u db2 ret2 db3 where
            sy: "notmuch_message_sync (notmuch_message_remove_term cm ''reference'' self) db1 =
               (Ret u, db2)"
            and mt: "merge_threads t ct db2 = (Ret ret2, db3)"
            and cont2: "(if ret2 \<noteq> NOTMUCH_STATUS_SUCCESS then xreturn (ret2, m, tid)
                         else link_children_loop self rest m tid) db3 = (Ret x, db')"
            by (auto elim!: xbind_RetE)
          have "ids_kept db1 db2"
            by (rule sync_ids_kept [OF sy])
              (use cm db1 in \<open>simp_all add: notmuch_message_remove_term_def\<close>)
          with db1 have k2: "ids_kept db db2" by simp
          note k3 = ids_kept_trans [OF k2 merge_threads_ids_kept [OF mt]]
          show ?thesis
          proof (cases "ret2 \<noteq> NOTMUCH_STATUS_SUCCESS")
            case True
            with cont2 k3 show ?thesis by auto
          next
            case False
            with cont2 have "link_children_loop self rest m tid db3 = (Ret x, db')"
              by simp
            from ids_kept_trans [OF k3 Cons.IH [OF this]] show ?thesis .
          qed
        qed
      qed
    qed
  qed
qed

lemma consume_metadata_docs:
  "consume_metadata_thread_id e m db = (Ret x, db') \<Longrightarrow> docs db' = docs db"
  by (auto simp: consume_metadata_thread_id_def Let_def split: if_splits
      elim!: xbind_RetE dest: set_metadata_docs)

lemma link_message_ids_kept:
  assumes "link_message e m mf is_ghost db = (Ret (st, m'), db')"
  shows "ids_kept db db'"
proof -
  let ?self = "notmuch_message_get_message_id m"
  let ?first = "if features_ghosts db then
          (if is_ghost
           then xbind (notmuch_message_get_thread_id m) (\<lambda>t. xreturn (m, Some t))
           else xreturn (m, None))
        else
          xbind (consume_metadata_thread_id e m)
            (\<lambda>thread_id. case thread_id of
                 Some t \<Rightarrow> xreturn (notmuch_message_add_term m ''thread'' t, Some t)
               | None \<Rightarrow> xreturn (m, None))"
  from assms obtain x db0 where
    first0: "?first db = (Ret x, db0)"
    and rest: "(case x of (message0, thread_id0) \<Rightarrow>
          xbind (link_message_to_parents e message0 mf thread_id0)
            (\<lambda>(status, message1, thread_id1).
               if status \<noteq> NOTMUCH_STATUS_SUCCESS then xreturn (status, message1)
               else
                 xbind
                   (if \<not> features_ghosts db
                    then link_message_to_children message1 thread_id1
                    else xreturn (NOTMUCH_STATUS_SUCCESS, message1, thread_id1))
                   (\<lambda>(status, message2, thread_id2).
                      if status \<noteq> NOTMUCH_STATUS_SUCCESS then xreturn (status, message2)
                      else
                        (case thread_id2 of
                           None \<Rightarrow>
                             xbind notmuch_database_generate_thread_id
                               (\<lambda>t. xreturn (NOTMUCH_STATUS_SUCCESS,
                                              notmuch_message_add_term message2 ''thread'' t))
                         | Some t \<Rightarrow> xreturn (NOTMUCH_STATUS_SUCCESS, message2))))) db0
            = (Ret (st, m'), db')"
    unfolding link_message_def by (rule xbind_RetE)
  obtain m0 tid0 where x: "x = (m0, tid0)" by (cases x)
  from rest x obtain r1 db1 where
    par: "link_message_to_parents e m0 mf tid0 db0 = (Ret r1, db1)"
    and cont: "(case r1 of (status, message1, thread_id1) \<Rightarrow>
               if status \<noteq> NOTMUCH_STATUS_SUCCESS then xreturn (status, message1)
               else
                 xbind
                   (if \<not> features_ghosts db
                    then link_message_to_children message1 thread_id1
                    else xreturn (NOTMUCH_STATUS_SUCCESS, message1, thread_id1))
                   (\<lambda>(status, message2, thread_id2).
                      if status \<noteq> NOTMUCH_STATUS_SUCCESS then xreturn (status, message2)
                      else
                        (case thread_id2 of
                           None \<Rightarrow>
                             xbind notmuch_database_generate_thread_id
                               (\<lambda>t. xreturn (NOTMUCH_STATUS_SUCCESS,
                                              notmuch_message_add_term message2 ''thread'' t))
                         | Some t \<Rightarrow> xreturn (NOTMUCH_STATUS_SUCCESS, message2)))) db1
            = (Ret (st, m'), db')"
    by (auto elim!: xbind_RetE)
  have d0: "docs db0 = docs db"
    using first0
    by (auto split: if_splits option.splits elim!: xbind_RetE
        dest: get_thread_id_Ret consume_metadata_docs)
  then have k0: "ids_kept db db0" by (rule ids_kept_docs)
  from link_parents_loop_ids_kept [OF link_message_to_parents_eq [OF par]]
  have k1: "ids_kept db0 db1" .
  obtain st1 m1 tid1 where r1: "r1 = (st1, m1, tid1)" by (cases r1)
  show ?thesis
  proof (cases "st1 \<noteq> NOTMUCH_STATUS_SUCCESS")
    case True
    with cont r1 have "db' = db1" by simp
    with k0 k1 show ?thesis by (auto intro: ids_kept_trans)
  next
    case False
    with cont r1 obtain r2 db2 where
      ch: "(if \<not> features_ghosts db
            then link_message_to_children m1 tid1
            else xreturn (NOTMUCH_STATUS_SUCCESS, m1, tid1)) db1 = (Ret r2, db2)"
      and cont2: "(case r2 of (status, message2, thread_id2) \<Rightarrow>
                      if status \<noteq> NOTMUCH_STATUS_SUCCESS then xreturn (status, message2)
                      else
                        (case thread_id2 of
                           None \<Rightarrow>
                             xbind notmuch_database_generate_thread_id
                               (\<lambda>t. xreturn (NOTMUCH_STATUS_SUCCESS,
                                              notmuch_message_add_term message2 ''thread'' t))
                         | Some t \<Rightarrow> xreturn (NOTMUCH_STATUS_SUCCESS, message2))) db2
            = (Ret (st, m'), db')"
      by (auto elim!: xbind_RetE)
    have k2: "ids_kept db1 db2"
      using ch
      by (auto simp: link_message_to_children_def Let_def split: if_splits
          dest: link_children_loop_ids_kept)
    obtain st2 m2 tid2 where r2: "r2 = (st2, m2, tid2)" by (cases r2)
    have "docs db' = docs db2"
      using cont2 r2
      by (auto split: if_splits option.splits elim!: xbind_RetE dest: generate_thread_id_docs)
    then have k3: "ids_kept db2 db'" by (rule ids_kept_docs)
    from k0 k1 k2 k3 show ?thesis by (blast intro: ids_kept_trans)
  qed
qed


subsection \<open>The document that a successful add stores\<close>

lemma find_doc_id_by_message_id_first:
  assumes "i < length (docs db)" and "has_message_id (docs db ! i) mid"
    and "\<forall>j<i. \<not> has_message_id (docs db ! j) mid"
  shows "find_doc_id_by_message_id db mid = Some i"
proof -
  have "\<exists>k<length [0..<length (docs db)].
          has_message_id (docs db ! ([0..<length (docs db)] ! k)) mid \<and>
          i = [0..<length (docs db)] ! k \<and>
          (\<forall>j<k. \<not> has_message_id (docs db ! ([0..<length (docs db)] ! j)) mid)"
    using assms by (intro exI [of _ i]) simp
  then show ?thesis
    unfolding find_doc_id_by_message_id_def find_Some_iff .
qed

lemma find_doc_id_by_message_id_before:
  assumes "find_doc_id_by_message_id db mid = Some i" and "j < i"
  shows "\<not> has_message_id (docs db ! j) mid"
proof -
  from assms(1) obtain k where k: "k < length [0..<length (docs db)]"
    "i = [0..<length (docs db)] ! k"
    "\<forall>j<k. \<not> has_message_id (docs db ! ([0..<length (docs db)] ! j)) mid"
    unfolding find_doc_id_by_message_id_def find_Some_iff by blast
  from k(1,2) have "i = k" by simp
  with k(1,3) assms(2) show ?thesis by simp
qed

lemma find_doc_id_by_message_id_None:
  assumes "find_doc_id_by_message_id db mid = None" and "j < length (docs db)"
  shows "\<not> has_message_id (docs db ! j) mid"
  using assms by (auto simp: find_doc_id_by_message_id_def find_None_iff)

text \<open>
  A successful add leaves the document of the handle that it returns in the index,
  under the handle's document id, and a lookup of the message-ID finds it there.
\<close>

lemma add_message_SUCCESS_stored:
  assumes "notmuch_database_add_message e filename db = (Ret (NOTMUCH_STATUS_SUCCESS, Some m'), db')"
  shows "msg_doc_id m' < length (docs db') \<and>
         docs db' ! msg_doc_id m' = Some (msg_doc m') \<and>
         find_doc_id_by_message_id db' (notmuch_message_get_message_id m') = Some (msg_doc_id m')"
proof -
  from assms obtain mf db2 where
    td: "add_message_to_done e filename mf db = (Ret (NOTMUCH_STATUS_SUCCESS, Some m'), db2)"
    and ea: "notmuch_database_end_atomic db2 = (NOTMUCH_STATUS_SUCCESS, db')"
    by (rule add_message_SUCCESS)
  from td obtain db1 mid where
    tr: "add_message_try e filename mf mid (mf_headers mf ''from'') (mf_headers mf ''subject'')
               db1 = (Ret (NOTMUCH_STATUS_SUCCESS, Some m'), db2)"
    by (rule add_message_to_done_SUCCESS)
  from tr obtain m ps db1' m4 db3 where
    cr: "notmuch_message_create_for_message_id mid db1 = (Ret (Some m, ps), db1')"
    and lm: "link_message e
           (prepared_message m filename
              (ps \<noteq> NOTMUCH_PRIVATE_STATUS_NO_DOCUMENT_FOUND \<and>
               notmuch_message_get_flag_ghost (notmuch_message_add_filename m filename)))
           mf
           (ps \<noteq> NOTMUCH_PRIVATE_STATUS_NO_DOCUMENT_FOUND \<and>
            notmuch_message_get_flag_ghost (notmuch_message_add_filename m filename)) db1'
         = (Ret (NOTMUCH_STATUS_SUCCESS, m4), db3)"
    and sy: "notmuch_message_sync (finished_message m4 mf) db3 = (Ret (), db2)"
    and mr: "Some m' = Some (finished_message m4 mf)"
    by (rule add_message_try_SUCCESS)
  define g where "g = (ps \<noteq> NOTMUCH_PRIVATE_STATUS_NO_DOCUMENT_FOUND \<and>
               notmuch_message_get_flag_ghost (notmuch_message_add_filename m filename))"
  from mr have m': "m' = finished_message m4 mf" by simp
  have m: "notmuch_message_get_message_id m = mid \<and> msg_doc_id m < length (docs db1') \<and>
           (\<forall>j<msg_doc_id m. \<not> has_message_id (docs db1' ! j) mid)"
  proof (cases rule: create_for_message_id_cases [of db1 mid])
    case (found i d)
    from found(5) cr have "m = \<lparr>msg_doc_id = i, msg_doc = d\<rparr>" and "db1' = db1" by simp_all
    with found(2,4) find_doc_id_by_message_id_before [OF found(1)] show ?thesis
      by (simp add: notmuch_message_get_message_id_def)
  next
    case blank
    from blank(2) cr have
      "m = \<lparr>msg_doc_id = length (docs db1), msg_doc = blank_document mid\<rparr>"
      and "db1' = db1\<lparr>docs := docs db1 @ [None]\<rparr>" by simp_all
    with find_doc_id_by_message_id_None [OF blank(1)] show ?thesis
      by (simp add: notmuch_message_get_message_id_def blank_document_def nth_append)
  qed
  note l = link_message_message [OF lm [folded g_def]]
  from l have same: "same_but_terms (prepared_message m filename g) m4" by simp
  then have id4: "msg_doc_id m4 = msg_doc_id m" by (simp add: same_but_terms_def)
  from same_but_terms_message_id [OF same] m
  have mid4: "notmuch_message_get_message_id m4 = mid" by simp
  note k = link_message_ids_kept [OF lm]
  from m ids_kept_length [OF k] have lt3: "msg_doc_id m < length (docs db3)" by simp
  have before3: "\<forall>j<msg_doc_id m. \<not> has_message_id (docs db3 ! j) mid"
  proof (intro allI impI)
    fix j assume j: "j < msg_doc_id m"
    with m have "j < length (docs db1')" by simp
    from ids_kept_has_message_id [OF k this] m j
    show "\<not> has_message_id (docs db3 ! j) mid" by simp
  qed
  from sync_Ret [OF sy] have d2: "docs db2 = (docs db3)[msg_doc_id m := Some (msg_doc m')]"
    by (simp add: m' id4)
  from end_atomic_keeps [OF ea] have d': "docs db' = docs db2" by simp
  have idm': "msg_doc_id m' = msg_doc_id m" by (simp add: m' id4)
  have midm': "notmuch_message_get_message_id m' = mid" by (simp add: m' mid4)
  have lt: "msg_doc_id m' < length (docs db')" using lt3 by (simp add: d' d2 idm')
  have at: "docs db' ! msg_doc_id m' = Some (msg_doc m')" using lt3 by (simp add: d' d2 idm')
  have "find_doc_id_by_message_id db' mid = Some (msg_doc_id m')"
  proof (rule find_doc_id_by_message_id_first [OF lt])
    show "has_message_id (docs db' ! msg_doc_id m') mid"
      using midm' by (simp add: at has_message_id_def notmuch_message_get_message_id_def)
    show "\<forall>j<msg_doc_id m'. \<not> has_message_id (docs db' ! j) mid"
      using before3 by (simp add: d' d2 idm')
  qed
  with lt at midm' show ?thesis by simp
qed

lemma add_message_SUCCESS_lookup:
  assumes "notmuch_database_add_message e filename db = (Ret (NOTMUCH_STATUS_SUCCESS, Some m'), db')"
  shows "lookup_document db' (notmuch_message_get_message_id m') = Some (msg_doc m')"
  using add_message_SUCCESS_stored [OF assms] by (simp add: lookup_document_def)

lemma has_term_handle: "has_term (Some (msg_doc m)) p v = ((p, v) \<in> terms_of m)"
  by (simp add: has_term_def terms_of_def)


section \<open>Claims about the terms that linking adds\<close>

text \<open>
  Claim C6. After a successful add, the index holds the document of the ingested
  message under its message-ID, which is that of step A, and the returned handle is a
  copy of it. The \<^verbatim>\<open>replyto\<close> terms of that document are those that the document of the
  message-ID had before the call (a message-ID without a document has none) and the
  designated parent, if there is one: the last identifier of References that is not
  the message itself, otherwise the last such of In-Reply-To.
\<close>

theorem add_message_replyto:
  assumes "notmuch_database_add_message e filename db = (Ret (NOTMUCH_STATUS_SUCCESS, Some m'), db')"
    and "message_files e filename = Some mf"
  shows "fst (find_message_id e filename mf db) = Ret (Some (notmuch_message_get_message_id m')) \<and>
         lookup_document db' (notmuch_message_get_message_id m') = Some (msg_doc m') \<and>
         {v. has_term (lookup_document db' (notmuch_message_get_message_id m')) ''replyto'' v} =
           {v. has_term (lookup_document db (notmuch_message_get_message_id m')) ''replyto'' v} \<union>
           set_option (designated_parent (notmuch_message_get_message_id m') mf) \<and>
         {v. (''replyto'', v) \<in> terms_of m'} =
           {v. has_term (lookup_document db (notmuch_message_get_message_id m')) ''replyto'' v} \<union>
           set_option (designated_parent (notmuch_message_get_message_id m') mf)"
proof -
  obtain m'' mid where m'': "Some m' = Some m''"
    and fm: "fst (find_message_id e filename mf db) = Ret (Some mid)"
    and mid: "notmuch_message_get_message_id m'' = mid"
    and old0: "\<forall>p v. has_term (lookup_document db mid) p v \<longrightarrow> (p, v) \<noteq> (''type'', ''ghost'') \<longrightarrow>
           (p, v) \<in> terms_of m''"
    and new0: "\<forall>p v. (p, v) \<in> terms_of m'' \<longrightarrow>
           has_term (lookup_document db mid) p v \<or> (p, v) = (''type'', ''mail'') \<or>
           (p = ''replyto'' \<and> designated_parent mid mf = Some v) \<or>
           (p = ''reference'' \<and> v \<in> set (hash_table_keys e (parent_ids mid mf))) \<or>
           p = ''thread''"
    and des0: "\<forall>r. designated_parent mid mf = Some r \<longrightarrow> (''replyto'', r) \<in> terms_of m''"
    by (rule add_message_SUCCESS_terms [OF assms])
  from old0 have old: "\<And>p v. has_term (lookup_document db mid) p v \<Longrightarrow>
      (p, v) \<noteq> (''type'', ''ghost'') \<Longrightarrow> (p, v) \<in> terms_of m''" by blast
  from new0 have new: "\<And>p v. (p, v) \<in> terms_of m'' \<Longrightarrow>
           has_term (lookup_document db mid) p v \<or> (p, v) = (''type'', ''mail'') \<or>
           (p = ''replyto'' \<and> designated_parent mid mf = Some v) \<or>
           (p = ''reference'' \<and> v \<in> set (hash_table_keys e (parent_ids mid mf))) \<or>
           p = ''thread''" by blast
  from des0 have des: "\<And>r. designated_parent mid mf = Some r \<Longrightarrow>
      (''replyto'', r) \<in> terms_of m''" by blast
  from m'' have eq: "m'' = m'" by simp
  have handle: "{v. (''replyto'', v) \<in> terms_of m'} =
           {v. has_term (lookup_document db (notmuch_message_get_message_id m')) ''replyto'' v} \<union>
           set_option (designated_parent (notmuch_message_get_message_id m') mf)"
  proof (intro set_eqI iffI)
    fix v assume "v \<in> {v. (''replyto'', v) \<in> terms_of m'}"
    then have "(''replyto'', v) \<in> terms_of m''" by (simp add: eq)
    from new [OF this] show "v \<in> {v. has_term (lookup_document db
        (notmuch_message_get_message_id m')) ''replyto'' v} \<union>
           set_option (designated_parent (notmuch_message_get_message_id m') mf)"
      using mid eq by auto
  next
    fix v assume "v \<in> {v. has_term (lookup_document db
        (notmuch_message_get_message_id m')) ''replyto'' v} \<union>
           set_option (designated_parent (notmuch_message_get_message_id m') mf)"
    then have "has_term (lookup_document db mid) ''replyto'' v \<or> designated_parent mid mf = Some v"
      using mid eq by auto
    then show "v \<in> {v. (''replyto'', v) \<in> terms_of m'}"
      using old [of "''replyto''" v] des [of v] eq by auto
  qed
  note stored = add_message_SUCCESS_lookup [OF assms(1)]
  have "{v. has_term (lookup_document db' (notmuch_message_get_message_id m')) ''replyto'' v} =
        {v. (''replyto'', v) \<in> terms_of m'}"
    by (simp only: stored has_term_handle)
  with handle stored fm mid eq show ?thesis by simp
qed

definition doc_B :: document where
  "doc_B = mail_document ''b@x''
     [(''type'', ''mail''), (''replyto'', ''a@x''), (''reference'', ''a@x''),
      (''thread'', ''0000000000000001'')] ''B''"

text \<open>
  The file \<^verbatim>\<open>B\<close>, whose References header names \<^verbatim>\<open>a@x\<close>, added to an empty database:
  the document stored for \<^verbatim>\<open>b@x\<close> has the one \<^verbatim>\<open>replyto\<close> term \<^verbatim>\<open>a@x\<close>.
\<close>

theorem add_message_replyto_witness:
  "fst (notmuch_database_add_message (test_env test_files) ''B'' (empty_database True)) =
     Ret (NOTMUCH_STATUS_SUCCESS, Some \<lparr>msg_doc_id = 0, msg_doc = doc_B\<rparr>) \<and>
   designated_parent ''b@x'' file_B = Some ''a@x'' \<and>
   lookup_document (empty_database True) ''b@x'' = None \<and>
   lookup_document
     (snd (notmuch_database_add_message (test_env test_files) ''B'' (empty_database True)))
     ''b@x'' = Some doc_B \<and>
   {v. has_term (lookup_document
          (snd (notmuch_database_add_message (test_env test_files) ''B'' (empty_database True)))
          ''b@x'') ''replyto'' v} = {''a@x''}"
proof -
  let ?e = "test_env test_files"
  let ?r = "notmuch_database_add_message ?e ''B'' (empty_database True)"
  let ?m = "\<lparr>msg_doc_id = 0, msg_doc = doc_B\<rparr>"
  have h0: "fst ?r = Ret (NOTMUCH_STATUS_SUCCESS, Some ?m)"
    by code_simp
  then have h1: "?r = (Ret (NOTMUCH_STATUS_SUCCESS, Some ?m), snd ?r)"
    by (cases ?r) simp
  have h2: "message_files ?e ''B'' = Some file_B" by (simp add: test_env_def test_files_def)
  have d: "designated_parent ''b@x'' file_B = Some ''a@x''" by code_simp
  have i: "notmuch_message_get_message_id ?m = ''b@x''" by code_simp
  have n: "lookup_document (empty_database True) ''b@x'' = None" by code_simp
  note t = add_message_replyto [OF h1 h2, unfolded i]
  from t have "lookup_document (snd ?r) ''b@x'' = Some doc_B" by simp
  moreover from t have
    "{v. has_term (lookup_document (snd ?r) ''b@x'') ''replyto'' v} =
       {v. has_term (lookup_document (empty_database True) ''b@x'') ''replyto'' v} \<union>
       set_option (designated_parent ''b@x'' file_B)" by blast
  then have "{v. has_term (lookup_document (snd ?r) ''b@x'') ''replyto'' v} = {''a@x''}"
    by (simp only: n d) (simp add: has_term_def)
  ultimately show ?thesis using h0 d n by simp
qed


subsection \<open>A message without parents\<close>

lemma keys_permuted_set:
  "keys_permuted e \<Longrightarrow> distinct ks \<Longrightarrow> set (hash_table_keys e ks) = set ks"
  by (simp add: keys_permuted_def)

lemma keys_permuted_Nil: "keys_permuted e \<Longrightarrow> hash_table_keys e [] = []"
  using keys_permuted_set [of e "[]"] by simp

lemma parent_ids_Nil_iff:
  "parent_ids self mf = [] \<longleftrightarrow>
     (\<forall>r\<in>set (header_ids (mf_headers mf ''references'')) \<union>
          set (header_ids (mf_headers mf ''in-reply-to'')). r = self)"
proof -
  have "parent_ids self mf = [] \<longleftrightarrow> set (parent_ids self mf) = {}" by simp
  also have "\<dots> \<longleftrightarrow> (\<forall>r\<in>set (header_ids (mf_headers mf ''references'')) \<union>
          set (header_ids (mf_headers mf ''in-reply-to'')). r = self)"
    unfolding set_parent_ids by blast
  finally show ?thesis .
qed

lemma designated_parent_None: "parent_ids self mf = [] \<Longrightarrow> designated_parent self mf = None"
  using designated_parent_in_parent_ids [of self mf] by (cases "designated_parent self mf") auto

lemma find_doc_ids_reserved:
  "notmuch_database_find_doc_ids (db\<lparr>docs := docs db @ [None]\<rparr>) p v =
     notmuch_database_find_doc_ids db p v"
proof -
  have "filter (\<lambda>i. has_term ((docs db @ [None]) ! i) p v) [0..<length (docs db)] =
        filter (\<lambda>i. has_term (docs db ! i) p v) [0..<length (docs db)]"
    by (rule filter_cong) (simp_all add: nth_append)
  then show ?thesis
    by (simp add: notmuch_database_find_doc_ids_def has_term_def)
qed

lemma lookup_document_None:
  "lookup_document db mid = None \<Longrightarrow> find_doc_id_by_message_id db mid = None"
proof (cases "find_doc_id_by_message_id db mid")
  case None
  then show ?thesis by simp
next
  case (Some i)
  assume n: "lookup_document db mid = None"
  from find_doc_id_by_message_id_Some [OF Some] obtain d where "docs db ! i = Some d" by blast
  with Some n show ?thesis by (simp add: lookup_document_def)
qed

text \<open>
  \<open>link_message\<close> on a blank message that has no parent and, in the legacy format, no
  stored thread-ID and no child in the index: it generates a thread-ID.
\<close>

lemma link_message_orphan:
  assumes lm: "link_message e m mf False db = (Ret (st, m'), db')"
    and keys: "hash_table_keys e [] = []"
    and par: "parent_ids (notmuch_message_get_message_id m) mf = []"
    and legacy: "\<not> features_ghosts db \<Longrightarrow>
      get_metadata db (get_metadata_thread_id_key e (notmuch_message_get_message_id m)) = []"
    and nochild: "\<not> features_ghosts db \<Longrightarrow>
      notmuch_database_find_doc_ids db ''reference'' (notmuch_message_get_message_id m) = []"
  shows "st = NOTMUCH_STATUS_SUCCESS \<and>
         m' = notmuch_message_add_term m ''thread'' (hex16 (last_thread_id db + 1)) \<and>
         last_thread_id db' = last_thread_id db + 1 \<and> docs db' = docs db"
proof -
  let ?self = "notmuch_message_get_message_id m"
  let ?first = "if features_ghosts db then xreturn (m, None)
        else
          xbind (consume_metadata_thread_id e m)
            (\<lambda>thread_id. case thread_id of
                 Some t \<Rightarrow> xreturn (notmuch_message_add_term m ''thread'' t, Some t)
               | None \<Rightarrow> xreturn (m, None))"
  from lm obtain x db0 where
    first0: "?first db = (Ret x, db0)"
    and rest: "(case x of (message0, thread_id0) \<Rightarrow>
          xbind (link_message_to_parents e message0 mf thread_id0)
            (\<lambda>(status, message1, thread_id1).
               if status \<noteq> NOTMUCH_STATUS_SUCCESS then xreturn (status, message1)
               else
                 xbind
                   (if \<not> features_ghosts db
                    then link_message_to_children message1 thread_id1
                    else xreturn (NOTMUCH_STATUS_SUCCESS, message1, thread_id1))
                   (\<lambda>(status, message2, thread_id2).
                      if status \<noteq> NOTMUCH_STATUS_SUCCESS then xreturn (status, message2)
                      else
                        (case thread_id2 of
                           None \<Rightarrow>
                             xbind notmuch_database_generate_thread_id
                               (\<lambda>t. xreturn (NOTMUCH_STATUS_SUCCESS,
                                              notmuch_message_add_term message2 ''thread'' t))
                         | Some t \<Rightarrow> xreturn (NOTMUCH_STATUS_SUCCESS, message2))))) db0
            = (Ret (st, m'), db')"
    unfolding link_message_def by (simp only: if_False) (rule xbind_RetE)
  have "?first db = (Ret (m, None), db)"
  proof (cases "features_ghosts db")
    case True
    then show ?thesis by simp
  next
    case False
    with legacy have "consume_metadata_thread_id e m db = (Ret None, db)"
      by (simp add: consume_metadata_thread_id_def Let_def)
    with False show ?thesis
      by (simp add: xbind_Ret [of "consume_metadata_thread_id e m" db])
  qed
  with first0 have x: "x = (m, None)" and db0: "db0 = db" by simp_all
  from rest x db0 obtain r1 db1 where
    par1: "link_message_to_parents e m mf None db = (Ret r1, db1)"
    and cont: "(case r1 of (status, message1, thread_id1) \<Rightarrow>
               if status \<noteq> NOTMUCH_STATUS_SUCCESS then xreturn (status, message1)
               else
                 xbind
                   (if \<not> features_ghosts db
                    then link_message_to_children message1 thread_id1
                    else xreturn (NOTMUCH_STATUS_SUCCESS, message1, thread_id1))
                   (\<lambda>(status, message2, thread_id2).
                      if status \<noteq> NOTMUCH_STATUS_SUCCESS then xreturn (status, message2)
                      else
                        (case thread_id2 of
                           None \<Rightarrow>
                             xbind notmuch_database_generate_thread_id
                               (\<lambda>t. xreturn (NOTMUCH_STATUS_SUCCESS,
                                              notmuch_message_add_term message2 ''thread'' t))
                         | Some t \<Rightarrow> xreturn (NOTMUCH_STATUS_SUCCESS, message2)))) db1
            = (Ret (st, m'), db')"
    by (auto elim!: xbind_RetE)
  from link_message_to_parents_eq [OF par1]
  have r1: "r1 = (NOTMUCH_STATUS_SUCCESS, m, None)" and db1: "db1 = db"
    by (simp_all add: par keys designated_parent_None [OF par])
  have ch: "(if \<not> features_ghosts db
                    then link_message_to_children m None
                    else xreturn (NOTMUCH_STATUS_SUCCESS, m, None)) db =
            (Ret (NOTMUCH_STATUS_SUCCESS, m, None), db)"
    using nochild by (cases "features_ghosts db") (simp_all add: link_message_to_children_def)
  from cont r1 db1 have
    "xbind notmuch_database_generate_thread_id
       (\<lambda>t. xreturn (NOTMUCH_STATUS_SUCCESS, notmuch_message_add_term m ''thread'' t)) db =
     (Ret (st, m'), db')"
    by (simp add: xbind_Ret [of "if \<not> features_ghosts db
                    then link_message_to_children m None
                    else xreturn (NOTMUCH_STATUS_SUCCESS, m, None)" db, OF ch])
  then obtain t db2 where
    g: "notmuch_database_generate_thread_id db = (Ret t, db2)"
    and r: "xreturn (NOTMUCH_STATUS_SUCCESS, notmuch_message_add_term m ''thread'' t) db2 =
              (Ret (st, m'), db')"
    by (rule xbind_RetE)
  from r have e: "st = NOTMUCH_STATUS_SUCCESS"
    "m' = notmuch_message_add_term m ''thread'' t" "db' = db2" by simp_all
  from generate_thread_id_Ret [OF g] have "t = hex16 (last_thread_id db + 1)"
    and "last_thread_id db2 = last_thread_id db + 1" and "docs db2 = docs db" by simp_all
  with e show ?thesis by simp
qed

text \<open>
  A successful add of a file whose message-ID has no document and whose headers name
  no parent other than the message itself.
\<close>

lemma add_message_orphan:
  assumes add: "notmuch_database_add_message e filename db =
      (Ret (NOTMUCH_STATUS_SUCCESS, Some m'), db')"
    and mf: "message_files e filename = Some mf"
    and keys: "keys_permuted e"
    and par: "parent_ids (notmuch_message_get_message_id m') mf = []"
    and new: "lookup_document db (notmuch_message_get_message_id m') = None"
    and legacy: "\<not> features_ghosts db \<Longrightarrow>
      get_metadata db (get_metadata_thread_id_key e (notmuch_message_get_message_id m')) = []"
    and nochild: "\<not> features_ghosts db \<Longrightarrow>
      notmuch_database_find_doc_ids db ''reference'' (notmuch_message_get_message_id m') = []"
  shows "terms_of m' = {(''type'', ''mail''), (''thread'', hex16 (last_thread_id db + 1))} \<and>
         last_thread_id db' = last_thread_id db + 1"
proof -
  from add obtain mf' db2 where
    "message_files e filename = Some mf'"
    and td: "add_message_to_done e filename mf' db = (Ret (NOTMUCH_STATUS_SUCCESS, Some m'), db2)"
    and ea: "notmuch_database_end_atomic db2 = (NOTMUCH_STATUS_SUCCESS, db')"
    by (rule add_message_SUCCESS)
  with mf have td: "add_message_to_done e filename mf db =
      (Ret (NOTMUCH_STATUS_SUCCESS, Some m'), db2)" by simp
  from td obtain db1 mid where
    b: "notmuch_database_begin_atomic db = (NOTMUCH_STATUS_SUCCESS, db1)"
    and tr: "add_message_try e filename mf mid (mf_headers mf ''from'') (mf_headers mf ''subject'')
               db1 = (Ret (NOTMUCH_STATUS_SUCCESS, Some m'), db2)"
    by (rule add_message_to_done_SUCCESS)
  from tr obtain m ps db1' m4 db3 where
    cr: "notmuch_message_create_for_message_id mid db1 = (Ret (Some m, ps), db1')"
    and lm: "link_message e
           (prepared_message m filename
              (ps \<noteq> NOTMUCH_PRIVATE_STATUS_NO_DOCUMENT_FOUND \<and>
               notmuch_message_get_flag_ghost (notmuch_message_add_filename m filename)))
           mf
           (ps \<noteq> NOTMUCH_PRIVATE_STATUS_NO_DOCUMENT_FOUND \<and>
            notmuch_message_get_flag_ghost (notmuch_message_add_filename m filename)) db1'
         = (Ret (NOTMUCH_STATUS_SUCCESS, m4), db3)"
    and sy: "notmuch_message_sync (finished_message m4 mf) db3 = (Ret (), db2)"
    and mr: "Some m' = Some (finished_message m4 mf)"
    by (rule add_message_try_SUCCESS)
  define g where "g = (ps \<noteq> NOTMUCH_PRIVATE_STATUS_NO_DOCUMENT_FOUND \<and>
               notmuch_message_get_flag_ghost (notmuch_message_add_filename m filename))"
  from mr have m': "m' = finished_message m4 mf" by simp
  from link_message_message [OF lm [folded g_def]]
  have same: "same_but_terms (prepared_message m filename g) m4" by simp
  from begin_atomic_keeps [OF b] have k1: "docs db1 = docs db" "metadata db1 = metadata db"
    "last_thread_id db1 = last_thread_id db" "features_ghosts db1 = features_ghosts db"
    by simp_all
  have mid_m: "notmuch_message_get_message_id m = mid"
    by (cases rule: create_for_message_id_cases [of db1 mid])
      (use cr in \<open>auto simp: notmuch_message_get_message_id_def blank_document_def\<close>)
  from same_but_terms_message_id [OF same] mid_m m'
  have mid: "notmuch_message_get_message_id m' = mid" by simp
  have "lookup_document db1 mid = lookup_document db mid"
    using find_doc_id_by_message_id_docs [OF k1(1), of mid] k1(1)
    by (simp add: lookup_document_def cong: option.case_cong)
  with new mid have "lookup_document db1 mid = None" by simp
  from lookup_document_None [OF this] have nf: "find_doc_id_by_message_id db1 mid = None" .
  from nf cr have m: "m = \<lparr>msg_doc_id = length (docs db1), msg_doc = blank_document mid\<rparr>"
    and ps: "ps = NOTMUCH_PRIVATE_STATUS_NO_DOCUMENT_FOUND"
    and db1': "db1' = db1\<lparr>docs := docs db1 @ [None]\<rparr>"
    by (simp_all add: notmuch_message_create_for_message_id_def)
  from ps have g: "g = False" by (simp add: g_def)
  have pid: "notmuch_message_get_message_id (prepared_message m filename False) = mid"
    using mid_m by simp
  have lm': "link_message e (prepared_message m filename False) mf False db1' =
      (Ret (NOTMUCH_STATUS_SUCCESS, m4), db3)"
    using lm [folded g_def] g by simp
  have fg: "features_ghosts db1' = features_ghosts db" by (simp add: db1' k1)
  have l: "m4 = notmuch_message_add_term (prepared_message m filename False) ''thread''
                  (hex16 (last_thread_id db1' + 1)) \<and>
           last_thread_id db3 = last_thread_id db1' + 1"
  proof -
    have "NOTMUCH_STATUS_SUCCESS = NOTMUCH_STATUS_SUCCESS \<and>
         m4 = notmuch_message_add_term (prepared_message m filename False) ''thread''
                (hex16 (last_thread_id db1' + 1)) \<and>
         last_thread_id db3 = last_thread_id db1' + 1 \<and> docs db3 = docs db1'"
    proof (rule link_message_orphan [OF lm' keys_permuted_Nil [OF keys]])
      show "parent_ids (notmuch_message_get_message_id (prepared_message m filename False)) mf = []"
        using par by (simp only: pid mid)
      show "get_metadata db1' (get_metadata_thread_id_key e
          (notmuch_message_get_message_id (prepared_message m filename False))) = []"
        if "\<not> features_ghosts db1'"
        using legacy that by (simp add: mid_m mid fg get_metadata_def db1' k1)
      show "notmuch_database_find_doc_ids db1' ''reference''
          (notmuch_message_get_message_id (prepared_message m filename False)) = []"
        if "\<not> features_ghosts db1'"
      proof -
        have "notmuch_database_find_doc_ids db1' ''reference'' mid =
              notmuch_database_find_doc_ids db1 ''reference'' mid"
          unfolding db1' by (rule find_doc_ids_reserved)
        also have "\<dots> = notmuch_database_find_doc_ids db ''reference'' mid"
          by (simp add: notmuch_database_find_doc_ids_def k1)
        finally show ?thesis using nochild that by (simp add: mid_m mid fg)
      qed
    qed
    then show ?thesis by simp
  qed
  have t1: "terms_of (prepared_message m filename False) = {(''type'', ''mail'')}"
    by (simp add: terms_of_prepared_message) (simp add: m terms_of_def blank_document_def)
  from sync_Ret [OF sy] have "last_thread_id db2 = last_thread_id db3"
    by (simp add: same_settings_def)
  moreover from end_atomic_keeps [OF ea] have "last_thread_id db' = last_thread_id db2" by simp
  moreover have "last_thread_id db1' = last_thread_id db" by (simp add: db1' k1)
  ultimately show ?thesis using l t1 by (auto simp: m')
qed

text \<open>
  \<open>link_message\<close> on a ghost that is being replaced by its message, in the format with
  ghosts, for a file without parents: the handle keeps the thread-ID of the ghost and
  nothing is written.
\<close>

lemma link_message_ghost_orphan:
  assumes lm: "link_message e m mf True db = (Ret (st, m'), db')"
    and fg: "features_ghosts db"
    and keys: "hash_table_keys e [] = []"
    and par: "parent_ids (notmuch_message_get_message_id m) mf = []"
  shows "st = NOTMUCH_STATUS_SUCCESS \<and> m' = m \<and> db' = db"
proof -
  from lm fg obtain x db0 where
    first0: "xbind (notmuch_message_get_thread_id m) (\<lambda>t. xreturn (m, Some t)) db = (Ret x, db0)"
    and rest: "(case x of (message0, thread_id0) \<Rightarrow>
          xbind (link_message_to_parents e message0 mf thread_id0)
            (\<lambda>(status, message1, thread_id1).
               if status \<noteq> NOTMUCH_STATUS_SUCCESS then xreturn (status, message1)
               else
                 xbind
                   (if \<not> features_ghosts db
                    then link_message_to_children message1 thread_id1
                    else xreturn (NOTMUCH_STATUS_SUCCESS, message1, thread_id1))
                   (\<lambda>(status, message2, thread_id2).
                      if status \<noteq> NOTMUCH_STATUS_SUCCESS then xreturn (status, message2)
                      else
                        (case thread_id2 of
                           None \<Rightarrow>
                             xbind notmuch_database_generate_thread_id
                               (\<lambda>t. xreturn (NOTMUCH_STATUS_SUCCESS,
                                              notmuch_message_add_term message2 ''thread'' t))
                         | Some t \<Rightarrow> xreturn (NOTMUCH_STATUS_SUCCESS, message2))))) db0
            = (Ret (st, m'), db')"
    unfolding link_message_def by (simp only: if_True) (rule xbind_RetE)
  from first0 obtain t db00 where
    gt: "notmuch_message_get_thread_id m db = (Ret t, db00)"
    and "xreturn (m, Some t) db00 = (Ret x, db0)"
    by (rule xbind_RetE)
  with get_thread_id_Ret [OF gt] have x: "x = (m, Some t)" and db0: "db0 = db" by simp_all
  from rest x db0 obtain r1 db1 where
    par1: "link_message_to_parents e m mf (Some t) db = (Ret r1, db1)"
    and cont: "(case r1 of (status, message1, thread_id1) \<Rightarrow>
               if status \<noteq> NOTMUCH_STATUS_SUCCESS then xreturn (status, message1)
               else
                 xbind
                   (if \<not> features_ghosts db
                    then link_message_to_children message1 thread_id1
                    else xreturn (NOTMUCH_STATUS_SUCCESS, message1, thread_id1))
                   (\<lambda>(status, message2, thread_id2).
                      if status \<noteq> NOTMUCH_STATUS_SUCCESS then xreturn (status, message2)
                      else
                        (case thread_id2 of
                           None \<Rightarrow>
                             xbind notmuch_database_generate_thread_id
                               (\<lambda>t. xreturn (NOTMUCH_STATUS_SUCCESS,
                                              notmuch_message_add_term message2 ''thread'' t))
                         | Some t \<Rightarrow> xreturn (NOTMUCH_STATUS_SUCCESS, message2)))) db1
            = (Ret (st, m'), db')"
    by (auto elim!: xbind_RetE)
  from link_message_to_parents_eq [OF par1]
  have r1: "r1 = (NOTMUCH_STATUS_SUCCESS, m, Some t)" and db1: "db1 = db"
    by (simp_all add: par keys designated_parent_None [OF par])
  from cont r1 db1 fg show ?thesis by simp
qed

lemma add_message_ghost_orphan:
  assumes add: "notmuch_database_add_message e filename db =
      (Ret (NOTMUCH_STATUS_SUCCESS, Some m'), db')"
    and mf: "message_files e filename = Some mf"
    and keys: "keys_permuted e"
    and par: "parent_ids (notmuch_message_get_message_id m') mf = []"
    and fg: "features_ghosts db"
    and old: "lookup_document db (notmuch_message_get_message_id m') = Some d"
  shows "{t. (''thread'', t) \<in> terms_of m'} = {t. (''thread'', t) \<in> set (doc_terms d)} \<and>
         last_thread_id db' = last_thread_id db"
proof -
  from add obtain mf' db2 where
    "message_files e filename = Some mf'"
    and td: "add_message_to_done e filename mf' db = (Ret (NOTMUCH_STATUS_SUCCESS, Some m'), db2)"
    and ea: "notmuch_database_end_atomic db2 = (NOTMUCH_STATUS_SUCCESS, db')"
    by (rule add_message_SUCCESS)
  with mf have td: "add_message_to_done e filename mf db =
      (Ret (NOTMUCH_STATUS_SUCCESS, Some m'), db2)" by simp
  from td obtain db1 mid where
    b: "notmuch_database_begin_atomic db = (NOTMUCH_STATUS_SUCCESS, db1)"
    and tr: "add_message_try e filename mf mid (mf_headers mf ''from'') (mf_headers mf ''subject'')
               db1 = (Ret (NOTMUCH_STATUS_SUCCESS, Some m'), db2)"
    by (rule add_message_to_done_SUCCESS)
  from tr obtain m ps db1' m4 db3 where
    cr: "notmuch_message_create_for_message_id mid db1 = (Ret (Some m, ps), db1')"
    and gh: "ps = NOTMUCH_PRIVATE_STATUS_NO_DOCUMENT_FOUND \<or>
         notmuch_message_get_flag_ghost (notmuch_message_add_filename m filename)"
    and lm: "link_message e
           (prepared_message m filename
              (ps \<noteq> NOTMUCH_PRIVATE_STATUS_NO_DOCUMENT_FOUND \<and>
               notmuch_message_get_flag_ghost (notmuch_message_add_filename m filename)))
           mf
           (ps \<noteq> NOTMUCH_PRIVATE_STATUS_NO_DOCUMENT_FOUND \<and>
            notmuch_message_get_flag_ghost (notmuch_message_add_filename m filename)) db1'
         = (Ret (NOTMUCH_STATUS_SUCCESS, m4), db3)"
    and sy: "notmuch_message_sync (finished_message m4 mf) db3 = (Ret (), db2)"
    and mr: "Some m' = Some (finished_message m4 mf)"
    by (rule add_message_try_SUCCESS)
  define g where "g = (ps \<noteq> NOTMUCH_PRIVATE_STATUS_NO_DOCUMENT_FOUND \<and>
               notmuch_message_get_flag_ghost (notmuch_message_add_filename m filename))"
  from mr have m': "m' = finished_message m4 mf" by simp
  from link_message_message [OF lm [folded g_def]]
  have same: "same_but_terms (prepared_message m filename g) m4" by simp
  from begin_atomic_keeps [OF b] have k1: "docs db1 = docs db"
    "last_thread_id db1 = last_thread_id db" "features_ghosts db1 = features_ghosts db"
    by simp_all
  have mid_m: "notmuch_message_get_message_id m = mid"
    by (cases rule: create_for_message_id_cases [of db1 mid])
      (use cr in \<open>auto simp: notmuch_message_get_message_id_def blank_document_def\<close>)
  from same_but_terms_message_id [OF same] mid_m m'
  have mid: "notmuch_message_get_message_id m' = mid" by simp
  have "lookup_document db1 mid = lookup_document db mid"
    using find_doc_id_by_message_id_docs [OF k1(1), of mid] k1(1)
    by (simp add: lookup_document_def cong: option.case_cong)
  with old mid have l1: "lookup_document db1 mid = Some d" by simp
  then obtain i where fi: "find_doc_id_by_message_id db1 mid = Some i"
    and di: "docs db1 ! i = Some d"
    by (cases "find_doc_id_by_message_id db1 mid") (simp_all add: lookup_document_def)
  from find_doc_id_by_message_id_Some [OF fi] have "i < length (docs db1)" by blast
  with fi di cr have m: "m = \<lparr>msg_doc_id = i, msg_doc = d\<rparr>"
    and ps: "ps = Public NOTMUCH_STATUS_SUCCESS"
    and db1': "db1' = db1"
    by (simp_all add: notmuch_message_create_for_message_id_def notmuch_message_create_def)
  from ps gh have g: "g = True" by (simp add: g_def)
  have lm': "link_message e (prepared_message m filename True) mf True db1 =
      (Ret (NOTMUCH_STATUS_SUCCESS, m4), db3)"
    using lm [folded g_def] g db1' by simp
  have "NOTMUCH_STATUS_SUCCESS = NOTMUCH_STATUS_SUCCESS \<and>
        m4 = prepared_message m filename True \<and> db3 = db1"
  proof (rule link_message_ghost_orphan [OF lm' _ keys_permuted_Nil [OF keys]])
    show "features_ghosts db1" using fg k1 by simp
    show "parent_ids (notmuch_message_get_message_id (prepared_message m filename True)) mf = []"
      using par by (simp add: mid_m mid)
  qed
  then have m4: "m4 = prepared_message m filename True" and db3: "db3 = db1" by simp_all
  have "terms_of m' = insert (''type'', ''mail'') (set (doc_terms d)) - {(''type'', ''ghost'')}"
    by (simp add: m' m4 terms_of_prepared_message) (simp add: m terms_of_def)
  then have "{t. (''thread'', t) \<in> terms_of m'} = {t. (''thread'', t) \<in> set (doc_terms d)}"
    by auto
  moreover from sync_Ret [OF sy] have "last_thread_id db2 = last_thread_id db3"
    by (simp add: same_settings_def)
  moreover from end_atomic_keeps [OF ea] have "last_thread_id db' = last_thread_id db2" by simp
  ultimately show ?thesis using db3 k1 by simp
qed


section \<open>A message that names itself as its parent\<close>

text \<open>
  Claim C9, as the code has it. An identifier of References or In-Reply-To that equals
  the message's own message-ID is not put into the table of parents, so that no
  \<^verbatim>\<open>reference\<close> and no \<^verbatim>\<open>replyto\<close> term with it is added: if the stored document has such a
  term after the add, the document of that message-ID had it before. A message whose
  headers name no parent other than itself receives a newly generated thread-ID, the
  next value of the counter, when the index holds no document for its message-ID and,
  in the legacy format, neither a stored thread-ID for it nor a message that refers to
  it. When the index, in the format with ghosts, holds a document for its message-ID (a
  ghost), the message keeps the thread-ID of that document and none is generated. The
  keys that \<^verbatim>\<open>g_hash_table_get_keys\<close> lists are taken to be those of the table.
\<close>

theorem add_message_self_reference:
  assumes add: "notmuch_database_add_message e filename db =
      (Ret (NOTMUCH_STATUS_SUCCESS, Some m'), db')"
    and mf: "message_files e filename = Some mf"
    and keys: "keys_permuted e"
  shows "lookup_document db' (notmuch_message_get_message_id m') = Some (msg_doc m') \<and>
    (has_term (lookup_document db' (notmuch_message_get_message_id m')) ''reference''
        (notmuch_message_get_message_id m') \<longrightarrow>
     has_term (lookup_document db (notmuch_message_get_message_id m')) ''reference''
        (notmuch_message_get_message_id m')) \<and>
    (has_term (lookup_document db' (notmuch_message_get_message_id m')) ''replyto''
        (notmuch_message_get_message_id m') \<longrightarrow>
     has_term (lookup_document db (notmuch_message_get_message_id m')) ''replyto''
        (notmuch_message_get_message_id m')) \<and>
    ((\<forall>r\<in>set (header_ids (mf_headers mf ''references'')) \<union>
           set (header_ids (mf_headers mf ''in-reply-to'')).
         r = notmuch_message_get_message_id m') \<longrightarrow>
     (lookup_document db (notmuch_message_get_message_id m') = None \<and>
      (\<not> features_ghosts db \<longrightarrow>
         get_metadata db (get_metadata_thread_id_key e (notmuch_message_get_message_id m')) = [] \<and>
         notmuch_database_find_doc_ids db ''reference'' (notmuch_message_get_message_id m') = [])
      \<longrightarrow>
        {t. has_term (lookup_document db' (notmuch_message_get_message_id m')) ''thread'' t} =
          {hex16 (last_thread_id db + 1)} \<and>
        last_thread_id db' = last_thread_id db + 1) \<and>
     (features_ghosts db \<and> lookup_document db (notmuch_message_get_message_id m') \<noteq> None
      \<longrightarrow>
        {t. has_term (lookup_document db' (notmuch_message_get_message_id m')) ''thread'' t} =
          {t. has_term (lookup_document db (notmuch_message_get_message_id m')) ''thread'' t} \<and>
        last_thread_id db' = last_thread_id db))"
proof -
  let ?mid = "notmuch_message_get_message_id m'"
  obtain m'' mid where m'': "Some m' = Some m''"
    and mid: "notmuch_message_get_message_id m'' = mid"
    and new0: "\<forall>p v. (p, v) \<in> terms_of m'' \<longrightarrow>
           has_term (lookup_document db mid) p v \<or> (p, v) = (''type'', ''mail'') \<or>
           (p = ''replyto'' \<and> designated_parent mid mf = Some v) \<or>
           (p = ''reference'' \<and> v \<in> set (hash_table_keys e (parent_ids mid mf))) \<or>
           p = ''thread''"
    by (rule add_message_SUCCESS_terms [OF add mf])
  from m'' mid have mid: "mid = ?mid" by simp
  from m'' new0 have new: "\<And>p v. (p, v) \<in> terms_of m' \<Longrightarrow>
           has_term (lookup_document db ?mid) p v \<or> (p, v) = (''type'', ''mail'') \<or>
           (p = ''replyto'' \<and> designated_parent ?mid mf = Some v) \<or>
           (p = ''reference'' \<and> v \<in> set (hash_table_keys e (parent_ids ?mid mf))) \<or>
           p = ''thread''"
    unfolding mid by blast
  note stored = add_message_SUCCESS_lookup [OF add]
  have ht: "\<And>p v. has_term (lookup_document db' ?mid) p v = ((p, v) \<in> terms_of m')"
    by (simp only: stored has_term_handle)
  have nk: "?mid \<notin> set (hash_table_keys e (parent_ids ?mid mf))"
    using keys_permuted_set [OF keys distinct_parent_ids, of ?mid mf] self_not_parent [of ?mid mf]
    by simp
  have nd: "designated_parent ?mid mf \<noteq> Some ?mid"
    using designated_parent_in_parent_ids [of ?mid mf ?mid] self_not_parent [of ?mid mf] by blast
  have ref: "has_term (lookup_document db' ?mid) ''reference'' ?mid \<longrightarrow>
     has_term (lookup_document db ?mid) ''reference'' ?mid"
    unfolding ht using new [of "''reference''" ?mid] nk by auto
  have rep: "has_term (lookup_document db' ?mid) ''replyto'' ?mid \<longrightarrow>
     has_term (lookup_document db ?mid) ''replyto'' ?mid"
    unfolding ht using new [of "''replyto''" ?mid] nd by auto
  have orphan: "{t. has_term (lookup_document db' ?mid) ''thread'' t} =
          {hex16 (last_thread_id db + 1)} \<and>
        last_thread_id db' = last_thread_id db + 1"
    if self: "\<forall>r\<in>set (header_ids (mf_headers mf ''references'')) \<union>
           set (header_ids (mf_headers mf ''in-reply-to'')). r = ?mid"
      and none: "lookup_document db ?mid = None"
      and leg: "\<not> features_ghosts db \<longrightarrow>
         get_metadata db (get_metadata_thread_id_key e ?mid) = [] \<and>
         notmuch_database_find_doc_ids db ''reference'' ?mid = []"
  proof -
    from self have par: "parent_ids ?mid mf = []" by (simp only: parent_ids_Nil_iff)
    from leg have l1: "\<not> features_ghosts db \<Longrightarrow>
        get_metadata db (get_metadata_thread_id_key e ?mid) = []"
      and l2: "\<not> features_ghosts db \<Longrightarrow>
        notmuch_database_find_doc_ids db ''reference'' ?mid = []" by simp_all
    from add_message_orphan [OF add mf keys par none l1 l2]
    have "terms_of m' = {(''type'', ''mail''), (''thread'', hex16 (last_thread_id db + 1))}"
      and "last_thread_id db' = last_thread_id db + 1" by simp_all
    then show ?thesis unfolding ht by auto
  qed
  have ghost: "{t. has_term (lookup_document db' ?mid) ''thread'' t} =
          {t. has_term (lookup_document db ?mid) ''thread'' t} \<and>
        last_thread_id db' = last_thread_id db"
    if self: "\<forall>r\<in>set (header_ids (mf_headers mf ''references'')) \<union>
           set (header_ids (mf_headers mf ''in-reply-to'')). r = ?mid"
      and fg: "features_ghosts db" and some: "lookup_document db ?mid \<noteq> None"
  proof -
    from self have par: "parent_ids ?mid mf = []" by (simp only: parent_ids_Nil_iff)
    from some obtain d where d: "lookup_document db ?mid = Some d" by blast
    from add_message_ghost_orphan [OF add mf keys par fg d]
    show ?thesis unfolding ht by (simp add: d has_term_def)
  qed
  from stored ref rep orphan ghost show ?thesis by blast
qed

text \<open>
  The file \<^verbatim>\<open>M\<close>, whose In-Reply-To header names \<^verbatim>\<open>m@x\<close>, its own message-ID, added to
  an empty database: the stored document has no \<^verbatim>\<open>reference\<close> and no \<^verbatim>\<open>replyto\<close> term
  with \<^verbatim>\<open>m@x\<close>, and its thread-ID is the first one generated.
\<close>

definition doc_M_alone :: document where
  "doc_M_alone =
     mail_document ''m@x'' [(''type'', ''mail''), (''thread'', ''0000000000000001'')] ''M''"

theorem add_message_self_reference_witness:
  "header_ids (mf_headers file_M ''references'') = [] \<and>
   header_ids (mf_headers file_M ''in-reply-to'') = [''m@x''] \<and>
   fst (notmuch_database_add_message (test_env test_files) ''M'' (empty_database True)) =
     Ret (NOTMUCH_STATUS_SUCCESS, Some \<lparr>msg_doc_id = 0, msg_doc = doc_M_alone\<rparr>) \<and>
   lookup_document
     (snd (notmuch_database_add_message (test_env test_files) ''M'' (empty_database True)))
     ''m@x'' = Some doc_M_alone \<and>
   \<not> has_term (lookup_document
     (snd (notmuch_database_add_message (test_env test_files) ''M'' (empty_database True)))
     ''m@x'') ''reference'' ''m@x'' \<and>
   \<not> has_term (lookup_document
     (snd (notmuch_database_add_message (test_env test_files) ''M'' (empty_database True)))
     ''m@x'') ''replyto'' ''m@x'' \<and>
   {t. has_term (lookup_document
     (snd (notmuch_database_add_message (test_env test_files) ''M'' (empty_database True)))
     ''m@x'') ''thread'' t} = {''0000000000000001''} \<and>
   last_thread_id
     (snd (notmuch_database_add_message (test_env test_files) ''M'' (empty_database True))) = 1"
proof -
  let ?e = "test_env test_files"
  let ?r = "notmuch_database_add_message ?e ''M'' (empty_database True)"
  let ?m = "\<lparr>msg_doc_id = 0, msg_doc = doc_M_alone\<rparr>"
  have h0: "fst ?r = Ret (NOTMUCH_STATUS_SUCCESS, Some ?m)" by code_simp
  then have h1: "?r = (Ret (NOTMUCH_STATUS_SUCCESS, Some ?m), snd ?r)" by (cases ?r) simp
  have h2: "message_files ?e ''M'' = Some file_M" by (simp add: test_env_def test_files_def)
  have h3: "keys_permuted ?e" by (simp add: keys_permuted_def test_env_def)
  have i: "notmuch_message_get_message_id ?m = ''m@x''" by code_simp
  have r: "header_ids (mf_headers file_M ''references'') = []" by code_simp
  have irt: "header_ids (mf_headers file_M ''in-reply-to'') = [''m@x'']" by code_simp
  have n: "lookup_document (empty_database True) ''m@x'' = None" by code_simp
  have g: "features_ghosts (empty_database True)" by code_simp
  have l: "last_thread_id (empty_database True) = 0" by code_simp
  have x: "hex16 (0 + 1) = ''0000000000000001''" by code_simp
  note t = add_message_self_reference [OF h1 h2 h3, unfolded i]
  note t1 = t [THEN conjunct1]
  note t2 = t [THEN conjunct2, THEN conjunct1, unfolded n]
  note t3 = t [THEN conjunct2, THEN conjunct2, THEN conjunct1, unfolded n]
  note t4 = t [THEN conjunct2, THEN conjunct2, THEN conjunct2]
  have nb: "\<not> has_term None p v" for p v by (simp add: has_term_def)
  have self: "\<forall>r\<in>set (header_ids (mf_headers file_M ''references'')) \<union>
           set (header_ids (mf_headers file_M ''in-reply-to'')). r = ''m@x''"
    by (simp add: r irt)
  from t4 [THEN mp, OF self, THEN conjunct1] have t5:
    "lookup_document (empty_database True) ''m@x'' = None \<and>
      (\<not> features_ghosts (empty_database True) \<longrightarrow>
         get_metadata (empty_database True) (get_metadata_thread_id_key ?e ''m@x'') = [] \<and>
         notmuch_database_find_doc_ids (empty_database True) ''reference'' ''m@x'' = [])
      \<longrightarrow>
        {t. has_term (lookup_document (snd ?r) ''m@x'') ''thread'' t} =
          {hex16 (last_thread_id (empty_database True) + 1)} \<and>
        last_thread_id (snd ?r) = last_thread_id (empty_database True) + 1" .
  have pre: "lookup_document (empty_database True) ''m@x'' = None \<and>
      (\<not> features_ghosts (empty_database True) \<longrightarrow>
         get_metadata (empty_database True) (get_metadata_thread_id_key ?e ''m@x'') = [] \<and>
         notmuch_database_find_doc_ids (empty_database True) ''reference'' ''m@x'' = [])"
    using n g by blast
  from t1 have c1: "lookup_document (snd ?r) ''m@x'' = Some doc_M_alone" by simp
  from t2 nb have c2: "\<not> has_term (lookup_document (snd ?r) ''m@x'') ''reference'' ''m@x''"
    by blast
  from t3 nb have c3: "\<not> has_term (lookup_document (snd ?r) ''m@x'') ''replyto'' ''m@x''"
    by blast
  from t5 [THEN mp, OF pre]
  have c4: "{t. has_term (lookup_document (snd ?r) ''m@x'') ''thread'' t} =
       {''0000000000000001''}" and c5: "last_thread_id (snd ?r) = 1"
    by (simp_all only: l x) simp_all
  from h0 r irt c1 c2 c3 c4 c5 show ?thesis by (intro conjI)
qed


text \<open>
  Claim C9 as stated fails where the message-ID is already known to the index. The
  file \<^verbatim>\<open>C\<close>, whose References header names \<^verbatim>\<open>m@x\<close>, is added first: it leaves a ghost
  of \<^verbatim>\<open>m@x\<close> in the thread of \<^verbatim>\<open>C\<close>. The file \<^verbatim>\<open>M\<close>, which names only itself as parent,
  then replaces the ghost and keeps that thread-ID; none is generated.
\<close>

definition doc_C :: document where
  "doc_C = mail_document ''c@x''
     [(''type'', ''mail''), (''replyto'', ''m@x''), (''reference'', ''m@x''),
      (''thread'', ''0000000000000001'')] ''C''"

definition ghost_m :: document where
  "ghost_m = \<lparr>doc_message_id = ''m@x'',
              doc_terms = [(''type'', ''ghost''), (''thread'', ''0000000000000001'')],
              doc_filenames = [], doc_header_values = None, doc_indexed = False\<rparr>"

definition database_with_C :: database where
  "database_with_C = database_of True [Some doc_C, Some ghost_m] 1"

lemma scenario_add_C:
  "fst (notmuch_database_add_message (test_env test_files) ''C'' (empty_database True)) =
     Ret (NOTMUCH_STATUS_SUCCESS, Some \<lparr>msg_doc_id = 0, msg_doc = doc_C\<rparr>) \<and>
   docs (snd (notmuch_database_add_message (test_env test_files) ''C'' (empty_database True))) =
     docs database_with_C \<and>
   last_thread_id (snd (notmuch_database_add_message (test_env test_files) ''C''
     (empty_database True))) = last_thread_id database_with_C"
  by code_simp

theorem add_message_self_reference_counterexample:
  "header_ids (mf_headers file_M ''references'') = [] \<and>
   header_ids (mf_headers file_M ''in-reply-to'') = [''m@x''] \<and>
   fst (notmuch_database_add_message (test_env test_files) ''M'' database_with_C) =
     Ret (NOTMUCH_STATUS_SUCCESS,
          Some \<lparr>msg_doc_id = 1,
                 msg_doc = mail_document ''m@x''
                   [(''thread'', ''0000000000000001''), (''type'', ''mail'')] ''M''\<rparr>) \<and>
   has_term (lookup_document database_with_C ''c@x'') ''thread'' ''0000000000000001'' \<and>
   has_term (lookup_document
       (snd (notmuch_database_add_message (test_env test_files) ''M'' database_with_C)) ''m@x'')
     ''thread'' ''0000000000000001'' \<and>
   last_thread_id (snd (notmuch_database_add_message (test_env test_files) ''M''
     database_with_C)) = last_thread_id database_with_C"
  by code_simp

end
